(* ===== verification/Prelude.thy ===== *)
theory Prelude
  imports Main "HOL-Library.Char_ord" "HOL-Library.List_Lexorder"
begin

text \<open>
  Shared vocabulary of the development: the Go standard-library operations the proxy calls on
  strings (package \<open>strings\<close>, \<open>strconv\<close>, \<open>unicode/utf8\<close>), on \<open>http.Header\<close>, and the error trees
  that \<open>errors.Is\<close> and \<open>errors.As\<close> walk.

  A Go string is a byte sequence: it is an Isabelle \<open>string\<close>, one \<open>char\<close> per byte. Code that
  ranges over a string sees runes; \<open>runes\<close> decodes a byte string the way Go's \<open>range\<close> does, an
  ill-formed byte giving U+FFFD with width 1. A Go map whose iteration order matters is an
  association list: the list order is the (arbitrary) iteration order, so a theorem about every
  list is a theorem about every iteration order. Durations and instants are \<open>int\<close> nanoseconds.

  Case folding is the ASCII one: header names are ASCII tokens, and for the comparisons the
  sources make (\<open>bearer\<close>) it agrees with the Unicode one on every input.
\<close>

named_theorems str_simps \<open>unfolding rules for the string operations\<close>
named_theorems hdr_simps \<open>rules for http.Header operations\<close>
named_theorems frame \<open>what an operation leaves unchanged\<close>

section \<open>Byte strings\<close>

abbreviation byte_of :: "char \<Rightarrow> nat" where
  "byte_of c \<equiv> of_char c"

definition lower_char :: "char \<Rightarrow> char" where
  "lower_char c = (if 65 \<le> byte_of c \<and> byte_of c \<le> 90 then char_of (byte_of c + 32) else c)"

definition upper_char :: "char \<Rightarrow> char" where
  "upper_char c = (if 97 \<le> byte_of c \<and> byte_of c \<le> 122 then char_of (byte_of c - 32) else c)"

definition to_lower :: "string \<Rightarrow> string" where
  "to_lower s = map lower_char s"

definition has_prefix :: "string \<Rightarrow> string \<Rightarrow> bool" where
  "has_prefix s p = (take (length p) s = p)"

fun str_contains :: "string \<Rightarrow> string \<Rightarrow> bool" where
  "str_contains [] p = (p = [])"
| "str_contains (c # s) p = (has_prefix (c # s) p \<or> str_contains s p)"

fun index_char :: "char \<Rightarrow> string \<Rightarrow> nat option" where
  "index_char c [] = None"
| "index_char c (x # xs) = (if x = c then Some 0 else map_option Suc (index_char c xs))"

fun last_index_char :: "char \<Rightarrow> string \<Rightarrow> nat option" where
  "last_index_char c [] = None"
| "last_index_char c (x # xs) =
     (case last_index_char c xs of Some i \<Rightarrow> Some (Suc i)
      | None \<Rightarrow> if x = c then Some 0 else None)"

fun split_on :: "char \<Rightarrow> string \<Rightarrow> string list" where
  "split_on c [] = [[]]"
| "split_on c (x # xs) =
     (if x = c then [] # split_on c xs
      else case split_on c xs of [] \<Rightarrow> [[x]] | p # ps \<Rightarrow> (x # p) # ps)"

fun join_with :: "string \<Rightarrow> string list \<Rightarrow> string" where
  "join_with sep [] = []"
| "join_with sep [x] = x"
| "join_with sep (x # y # xs) = x @ sep @ join_with sep (y # xs)"

fun trim_char :: "char \<Rightarrow> string \<Rightarrow> string" where
  "trim_char c s = rev (dropWhile (\<lambda>x. x = c) (rev (dropWhile (\<lambda>x. x = c) s)))"

subsection \<open>Decimal rendering: \<open>strconv.Itoa\<close>, the verb \<open>%d\<close>\<close>

fun nat_digits :: "nat \<Rightarrow> string" where
  "nat_digits n = (if n < 10 then [char_of (48 + n)]
                   else nat_digits (n div 10) @ [char_of (48 + n mod 10)])"

declare nat_digits.simps [simp del]

definition itoa :: "int \<Rightarrow> string" where
  "itoa i = (if i < 0 then ''-'' @ nat_digits (nat (- i)) else nat_digits (nat i))"

text \<open>The verb \<open>%q\<close> on printable text: quotes, with the quote and the backslash escaped.\<close>

definition go_quote :: "string \<Rightarrow> string" where
  "go_quote s = [char_of (34::nat)] @
     concat (map (\<lambda>c. if byte_of c = 34 \<or> byte_of c = 92 then [char_of (92::nat), c] else [c]) s) @
     [char_of (34::nat)]"

text \<open>
  \<open>Duration.String\<close> of a non-negative duration in nanoseconds: hours, minutes and seconds from one
  second up, otherwise the largest unit that gives a non-zero leading digit; trailing zeros of the
  fraction are left out.
\<close>

definition frac_digits :: "nat \<Rightarrow> nat \<Rightarrow> string" where
  "frac_digits v prec = (let ds = map (\<lambda>i. char_of (48 + v div 10 ^ i mod 10)) (rev [0..<prec]);
      cut = rev (dropWhile (\<lambda>c. c = CHR ''0'') (rev ds)) in if cut = [] then [] else ''.'' @ cut)"

definition duration_string :: "int \<Rightarrow> string" where
  "duration_string d = (let u = nat \<bar>d\<bar>; sign = (if d < 0 then ''-'' else []) in
     if u = 0 then ''0s''
     else if u < 1000 then sign @ nat_digits u @ ''ns''
     else if u < 1000000 then sign @ nat_digits (u div 1000) @ frac_digits (u mod 1000) 3 @
       [char_of (194::nat), char_of (181::nat)] @ ''s''
     else if u < 1000000000 then sign @ nat_digits (u div 1000000) @ frac_digits (u mod 1000000) 6 @ ''ms''
     else let secs = u div 1000000000; f = frac_digits (u mod 1000000000) 9;
              mins = secs div 60; hs = mins div 60 in
       sign @ (if hs > 0 then nat_digits hs @ ''h'' else []) @
       (if mins > 0 then nat_digits (mins mod 60) @ ''m'' else []) @
       nat_digits (secs mod 60) @ f @ ''s'')"

lemma to_lower_Nil [simp]: "to_lower [] = []"
  by (simp add: to_lower_def)

lemma length_to_lower [simp]: "length (to_lower s) = length s"
  by (simp add: to_lower_def)

lemma to_lower_append [simp]: "to_lower (s @ t) = to_lower s @ to_lower t"
  by (simp add: to_lower_def)

lemma lower_char_idem [simp]: "lower_char (lower_char c) = lower_char c"
  by (auto simp: lower_char_def)

lemma to_lower_idem [simp]: "to_lower (to_lower s) = to_lower s"
  by (simp add: to_lower_def)

lemma has_prefix_append [simp]: "has_prefix (p @ s) p"
  by (simp add: has_prefix_def)

lemma has_prefix_iff: "has_prefix s p \<longleftrightarrow> (\<exists>t. s = p @ t)"
  by (metis append_eq_conv_conj has_prefix_append has_prefix_def append_take_drop_id)

lemma has_prefix_trans: "has_prefix s p \<Longrightarrow> has_prefix p q \<Longrightarrow> has_prefix s q"
  by (auto simp: has_prefix_iff)

lemma split_on_not_Nil [simp]: "split_on c s \<noteq> []"
  by (induction s) (auto split: list.splits)

lemma split_on_no_sep: "p \<in> set (split_on c s) \<Longrightarrow> c \<notin> set p"
  by (induction s arbitrary: p) (auto split: list.splits if_splits)

lemma join_with_Cons: "xs \<noteq> [] \<Longrightarrow> join_with sep (x # xs) = x @ sep @ join_with sep xs"
  by (cases xs) auto

text \<open>Splitting on a separator and joining with it is the identity.\<close>

lemma join_split_on: "join_with [c] (split_on c s) = s"
proof (induction s)
  case Nil
  then show ?case by simp
next
  case (Cons x xs)
  show ?case
  proof (cases "x = c")
    case True
    with Cons show ?thesis by (simp add: join_with_Cons)
  next
    case False
    obtain p ps where sp: "split_on c xs = p # ps"
      by (cases "split_on c xs") auto
    with Cons have "join_with [c] (p # ps) = xs" by simp
    with False sp show ?thesis by (cases ps) auto
  qed
qed

section \<open>UTF-8: what ranging over a string sees\<close>

definition rune_error :: nat where
  "rune_error = 65533"

definition in_range :: "nat \<Rightarrow> nat \<Rightarrow> char \<Rightarrow> bool" where
  "in_range lo hi c = (lo \<le> byte_of c \<and> byte_of c \<le> hi)"

text \<open>\<open>decode_rune s\<close> is the first rune of \<open>s\<close> and its width in bytes (\<open>utf8.DecodeRuneInString\<close>).\<close>

definition decode2 :: "char \<Rightarrow> string \<Rightarrow> nat \<times> nat" where
  "decode2 c0 cs = (case cs of
     c1 # _ \<Rightarrow> if in_range 128 191 c1
               then ((byte_of c0 - 192) * 64 + (byte_of c1 - 128), 2) else (rune_error, 1)
   | _ \<Rightarrow> (rune_error, 1))"

definition decode3 :: "nat \<Rightarrow> nat \<Rightarrow> char \<Rightarrow> string \<Rightarrow> nat \<times> nat" where
  "decode3 lo hi c0 cs = (case cs of
     c1 # c2 # _ \<Rightarrow> if in_range lo hi c1 \<and> in_range 128 191 c2
       then ((byte_of c0 - 224) * 4096 + (byte_of c1 - 128) * 64 + (byte_of c2 - 128), 3)
       else (rune_error, 1)
   | _ \<Rightarrow> (rune_error, 1))"

definition decode4 :: "nat \<Rightarrow> nat \<Rightarrow> char \<Rightarrow> string \<Rightarrow> nat \<times> nat" where
  "decode4 lo hi c0 cs = (case cs of
     c1 # c2 # c3 # _ \<Rightarrow>
       if in_range lo hi c1 \<and> in_range 128 191 c2 \<and> in_range 128 191 c3
       then ((byte_of c0 - 240) * 262144 + (byte_of c1 - 128) * 4096 +
             (byte_of c2 - 128) * 64 + (byte_of c3 - 128), 4)
       else (rune_error, 1)
   | _ \<Rightarrow> (rune_error, 1))"

fun decode_rune :: "string \<Rightarrow> nat \<times> nat" where
  "decode_rune [] = (rune_error, 0)"
| "decode_rune (c0 # cs) = (let b0 = byte_of c0 in
     if b0 < 128 then (b0, 1)
     else if b0 < 194 then (rune_error, 1)
     else if b0 \<le> 223 then decode2 c0 cs
     else if b0 = 224 then decode3 160 191 c0 cs
     else if b0 = 237 then decode3 128 159 c0 cs
     else if b0 \<le> 239 then decode3 128 191 c0 cs
     else if b0 = 240 then decode4 144 191 c0 cs
     else if b0 \<le> 243 then decode4 128 191 c0 cs
     else if b0 = 244 then decode4 128 143 c0 cs
     else (rune_error, 1))"

lemma decode_rune_width: "s \<noteq> [] \<Longrightarrow> 0 < snd (decode_rune s) \<and> snd (decode_rune s) \<le> length s"
  by (cases s)
     (auto simp: decode2_def decode3_def decode4_def Let_def split: list.splits)

function rune_chunks :: "string \<Rightarrow> (nat \<times> string) list" where
  "rune_chunks s = (if s = [] then []
     else (fst (decode_rune s), take (snd (decode_rune s)) s) #
          rune_chunks (drop (snd (decode_rune s)) s))"
  by pat_completeness auto
termination
  by (relation "measure length") (auto dest: decode_rune_width)

declare rune_chunks.simps [simp del]

definition runes :: "string \<Rightarrow> nat list" where
  "runes s = map fst (rune_chunks s)"

definition valid_rune :: "nat \<Rightarrow> bool" where
  "valid_rune r = (r < 55296 \<or> (57343 < r \<and> r \<le> 1114111))"

text \<open>\<open>encode_rune\<close> is \<open>utf8.AppendRune\<close>: an invalid rune is written as U+FFFD.\<close>

definition encode_valid :: "nat \<Rightarrow> string" where
  "encode_valid r =
     (if r < 128 then [char_of r]
      else if r < 2048 then [char_of (192 + r div 64), char_of (128 + r mod 64)]
      else if r < 65536 then
        [char_of (224 + r div 4096), char_of (128 + r div 64 mod 64), char_of (128 + r mod 64)]
      else [char_of (240 + r div 262144), char_of (128 + r div 4096 mod 64),
            char_of (128 + r div 64 mod 64), char_of (128 + r mod 64)])"

definition encode_rune :: "nat \<Rightarrow> string" where
  "encode_rune r = encode_valid (if valid_rune r then r else rune_error)"

definition encode_runes :: "nat list \<Rightarrow> string" where
  "encode_runes rs = concat (map encode_rune rs)"

lemma rune_chunks_Nil [simp]: "rune_chunks [] = []"
  by (simp add: rune_chunks.simps)

lemma runes_Nil [simp]: "runes [] = []"
  by (simp add: runes_def)

lemma encode_runes_Nil [simp]: "encode_runes [] = []"
  by (simp add: encode_runes_def)

lemma encode_runes_Cons [simp]: "encode_runes (r # rs) = encode_rune r @ encode_runes rs"
  by (simp add: encode_runes_def)

text \<open>The chunks of a string, put together again, are the string.\<close>

lemma concat_rune_chunks: "concat (map snd (rune_chunks s)) = s"
proof (induction s rule: rune_chunks.induct)
  case (1 s)
  then show ?case
    by (cases "s = []") (auto simp: rune_chunks.simps [of s])
qed

lemma of_char_char_of [simp]: "n < 256 \<Longrightarrow> byte_of (char_of (n::nat)) = n"
  by (simp add: of_char_of)

lemma div64_split:
  fixes r :: nat
  shows "r = 64 * (r div 64) + r mod 64" "r div 64 = 64 * (r div 4096) + r div 64 mod 64"
    "r div 4096 = 64 * (r div 262144) + r div 4096 mod 64"
    "r mod 64 < 64" "r div 64 mod 64 < 64" "r div 4096 mod 64 < 64"
proof -
  have d: "r div 4096 = r div 64 div 64" "r div 262144 = r div 4096 div 64"
    by (simp_all add: div_mult2_eq [symmetric])
  show "r = 64 * (r div 64) + r mod 64" "r div 64 = 64 * (r div 4096) + r div 64 mod 64"
    "r div 4096 = 64 * (r div 262144) + r div 4096 mod 64"
    unfolding d by simp_all
qed simp_all

lemma decode_rune_digits3:
  assumes "a < 16" "b < 64" "c < 64" "a = 0 \<Longrightarrow> 32 \<le> b" "a = 13 \<Longrightarrow> b < 32"
  shows "decode_rune (char_of (224 + a) # char_of (128 + b) # char_of (128 + c) # s) =
    (a * 4096 + b * 64 + c, 3)"
  using assms
  by (cases "a = 0"; cases "a = 13") (simp_all add: decode3_def in_range_def Let_def)

lemma decode_rune_digits4:
  assumes "a \<le> 4" "b < 64" "c < 64" "d < 64" "a = 0 \<Longrightarrow> 16 \<le> b" "a = 4 \<Longrightarrow> b < 16"
  shows "decode_rune (char_of (240 + a) # char_of (128 + b) # char_of (128 + c) # char_of (128 + d) # s) =
    (a * 262144 + b * 4096 + c * 64 + d, 4)"
  using assms
  by (cases "a = 0"; cases "a = 4") (simp_all add: decode4_def in_range_def Let_def)

lemma decode_encode_valid:
  assumes "valid_rune r"
  shows "decode_rune (encode_valid r @ s) = (r, length (encode_valid r))"
proof -
  note split = div64_split [of r]
  consider "r < 128" | "128 \<le> r" "r < 2048" | "2048 \<le> r" "r < 65536" | "65536 \<le> r" "r \<le> 1114111"
    using assms unfolding valid_rune_def by linarith
  then show ?thesis
  proof cases
    case 1
    then show ?thesis by (simp add: encode_valid_def)
  next
    case 2
    then have "r div 64 < 32" "2 \<le> r div 64" by auto
    with 2 show ?thesis
      by (simp add: encode_valid_def decode2_def in_range_def Let_def)
  next
    case 3
    have "r div 4096 < 16" using 3 split by linarith
    moreover have "r div 4096 * 4096 + r div 64 mod 64 * 64 + r mod 64 = r" using split by linarith
    moreover have "r div 4096 = 0 \<Longrightarrow> 32 \<le> r div 64 mod 64" using 3 split by linarith
    moreover have "r div 4096 = 13 \<Longrightarrow> r div 64 mod 64 < 32"
      using 3 assms split unfolding valid_rune_def by linarith
    ultimately show ?thesis
      using 3 decode_rune_digits3 [of "r div 4096" "r div 64 mod 64" "r mod 64" s]
      by (simp add: encode_valid_def del: decode_rune.simps)
  next
    case 4
    have "r div 262144 \<le> 4" using 4 split by linarith
    moreover have "r div 262144 * 262144 + r div 4096 mod 64 * 4096 + r div 64 mod 64 * 64 + r mod 64 = r"
      using split by linarith
    moreover have "r div 262144 = 0 \<Longrightarrow> 16 \<le> r div 4096 mod 64" using 4 split by linarith
    moreover have "r div 262144 = 4 \<Longrightarrow> r div 4096 mod 64 < 16" using 4 split by linarith
    ultimately show ?thesis
      using 4 decode_rune_digits4 [of "r div 262144" "r div 4096 mod 64" "r div 64 mod 64" "r mod 64" s]
      by (simp add: encode_valid_def del: decode_rune.simps)
  qed
qed

lemma encode_valid_not_Nil [simp]: "encode_valid r \<noteq> []"
  by (simp add: encode_valid_def)

lemma runes_encode_Cons:
  assumes "valid_rune r"
  shows "runes (encode_valid r @ s) = r # runes s"
  by (subst (1) runes_def, subst rune_chunks.simps)
     (simp add: decode_encode_valid [OF assms] runes_def)

text \<open>Encoding valid runes and decoding them again is the identity.\<close>

lemma runes_encode_runes: "\<forall>r \<in> set rs. valid_rune r \<Longrightarrow> runes (encode_runes rs) = rs"
  by (induction rs) (auto simp: encode_rune_def runes_encode_Cons)

lemma valid_rune_error [simp]: "valid_rune rune_error"
  by (simp add: valid_rune_def rune_error_def)

lemma decode3_valid:
  "224 \<le> byte_of c0 \<Longrightarrow> byte_of c0 \<le> 239 \<Longrightarrow> hi \<le> 191 \<Longrightarrow>
   byte_of c0 = 237 \<longrightarrow> hi \<le> 159 \<Longrightarrow> valid_rune (fst (decode3 lo hi c0 cs))"
  by (cases "byte_of c0 < 237"; cases "byte_of c0 = 237")
     (auto simp: decode3_def in_range_def valid_rune_def rune_error_def split: list.splits)

lemma decode_rune_valid: "valid_rune (fst (decode_rune s))"
proof (cases s)
  case Nil
  then show ?thesis by simp
next
  case (Cons c0 cs)
  have 2: "194 \<le> byte_of c0 \<Longrightarrow> byte_of c0 \<le> 223 \<Longrightarrow> valid_rune (fst (decode2 c0 cs))"
    by (auto simp: decode2_def in_range_def valid_rune_def rune_error_def split: list.splits)
  have 4: "240 \<le> byte_of c0 \<Longrightarrow> byte_of c0 \<le> 244 \<Longrightarrow> hi \<le> 191 \<Longrightarrow>
    (byte_of c0 = 240 \<longrightarrow> 144 \<le> lo) \<Longrightarrow> 128 \<le> lo \<Longrightarrow>
    (byte_of c0 = 244 \<longrightarrow> hi \<le> 143) \<Longrightarrow> valid_rune (fst (decode4 lo hi c0 cs))" for lo hi
    by (auto simp: decode4_def in_range_def valid_rune_def rune_error_def split: list.splits)
  show ?thesis
    using 2 4 [of 191 144] 4 [of 191 128] 4 [of 143 128]
    by (auto simp: Cons Let_def decode3_valid) (simp add: valid_rune_def)
qed

lemma runes_valid: "\<forall>r \<in> set (runes s). valid_rune r"
  unfolding runes_def
  by (induction s rule: rune_chunks.induct)
     (subst rune_chunks.simps, auto simp: decode_rune_valid)

subsection \<open>White space\<close>

text \<open>\<open>unicode.IsSpace\<close>, \<open>unicode.IsControl\<close>, and \<open>unicode.IsPrint\<close> on ASCII.\<close>

definition is_space :: "nat \<Rightarrow> bool" where
  "is_space r = (r \<in> {9, 10, 11, 12, 13, 32, 133, 160, 5760, 8232, 8233, 8239, 8287, 12288}
                 \<or> (8192 \<le> r \<and> r \<le> 8202))"

definition is_control :: "nat \<Rightarrow> bool" where
  "is_control r = (r < 32 \<or> (127 \<le> r \<and> r < 160))"

definition is_print_ascii :: "nat \<Rightarrow> bool" where
  "is_print_ascii r = (32 \<le> r \<and> r < 127)"

text \<open>\<open>strings.TrimSpace\<close>: white-space runes are cut at both ends, the bytes between are kept.\<close>

definition trim_space :: "string \<Rightarrow> string" where
  "trim_space s = concat (map snd
     (rev (dropWhile (is_space \<circ> fst) (rev (dropWhile (is_space \<circ> fst) (rune_chunks s))))))"

lemma rune_chunks_Cons_ascii:
  "byte_of c < 128 \<Longrightarrow> rune_chunks (c # cs) = (byte_of c, [c]) # rune_chunks cs"
  by (subst rune_chunks.simps) simp

lemma rune_chunks_ascii:
  "\<forall>c \<in> set s. byte_of c < 128 \<Longrightarrow> rune_chunks s = map (\<lambda>c. (byte_of c, [c])) s"
  by (induction s) (auto simp: rune_chunks_Cons_ascii)

lemma runes_ascii: "\<forall>c \<in> set s. byte_of c < 128 \<Longrightarrow> runes s = map byte_of s"
  by (simp add: runes_def rune_chunks_ascii)

lemma trim_space_Nil [simp]: "trim_space [] = []"
  by (simp add: trim_space_def)

lemma trim_space_no_space:
  assumes "\<forall>r \<in> set (runes s). \<not> is_space r"
  shows "trim_space s = s"
proof -
  have k: "dropWhile (is_space \<circ> fst) xs = xs" if "\<forall>x \<in> set xs. \<not> is_space (fst x)" for xs :: "(nat \<times> string) list"
    using that by (cases xs) auto
  have "\<forall>x \<in> set (rune_chunks s). \<not> is_space (fst x)"
    using assms by (auto simp: runes_def)
  then show ?thesis
    by (simp add: trim_space_def k concat_rune_chunks)
qed

section \<open>HTTP headers\<close>

text \<open>
  An \<open>http.Header\<close> is a map from canonical names to value lists; the list order of the model is
  the iteration order. Names are canonicalised by \<open>Get\<close>, \<open>Set\<close>, \<open>Add\<close>, \<open>Del\<close> and \<open>Values\<close>, not by
  ranging over the map.
\<close>

type_synonym header = "(string \<times> string list) list"

text \<open>A byte that may occur in a header name (a token of RFC 7230).\<close>

definition valid_header_byte :: "char \<Rightarrow> bool" where
  "valid_header_byte c = (let b = byte_of c in
     (48 \<le> b \<and> b \<le> 57) \<or> (65 \<le> b \<and> b \<le> 90) \<or> (97 \<le> b \<and> b \<le> 122)
     \<or> b \<in> {33, 35, 36, 37, 38, 39, 42, 43, 45, 46, 94, 95, 96, 124, 126})"

fun canon_chars :: "bool \<Rightarrow> string \<Rightarrow> string" where
  "canon_chars up [] = []"
| "canon_chars up (c # cs) =
     (if up then upper_char c else lower_char c) # canon_chars (c = CHR ''-'') cs"

definition canonical_key :: "string \<Rightarrow> string" where
  "canonical_key k = (if list_all valid_header_byte k then canon_chars True k else k)"

definition hdr_values :: "header \<Rightarrow> string \<Rightarrow> string list" where
  "hdr_values h k = (case map_of h (canonical_key k) of None \<Rightarrow> [] | Some vs \<Rightarrow> vs)"

definition hdr_get :: "header \<Rightarrow> string \<Rightarrow> string" where
  "hdr_get h k = (case hdr_values h k of [] \<Rightarrow> [] | v # _ \<Rightarrow> v)"

definition hdr_del :: "header \<Rightarrow> string \<Rightarrow> header" where
  "hdr_del h k = filter (\<lambda>(k', _). k' \<noteq> canonical_key k) h"

fun hdr_put :: "header \<Rightarrow> string \<Rightarrow> string list \<Rightarrow> header" where
  "hdr_put [] k vs = [(k, vs)]"
| "hdr_put ((k', vs') # h) k vs = (if k' = k then (k, vs) # h else (k', vs') # hdr_put h k vs)"

definition hdr_set :: "header \<Rightarrow> string \<Rightarrow> string \<Rightarrow> header" where
  "hdr_set h k v = hdr_put h (canonical_key k) [v]"

definition hdr_add :: "header \<Rightarrow> string \<Rightarrow> string \<Rightarrow> header" where
  "hdr_add h k v = hdr_put h (canonical_key k) (hdr_values h k @ [v])"

text \<open>What net/http hands to a handler: each name once, each with at least one value.\<close>

definition wf_header :: "header \<Rightarrow> bool" where
  "wf_header h = (distinct (map fst h) \<and> (\<forall>(k, vs) \<in> set h. vs \<noteq> []))"

lemma map_of_hdr_put [hdr_simps]:
  "map_of (hdr_put h k vs) k' = (if k' = k then Some vs else map_of h k')"
  by (induction h k vs rule: hdr_put.induct) auto

lemma set_hdr_put_keys: "fst ` set (hdr_put h k vs) = insert k (fst ` set h)"
  by (induction h k vs rule: hdr_put.induct) auto

lemma map_of_hdr_del [hdr_simps]:
  "map_of (hdr_del h k) k' = (if k' = canonical_key k then None else map_of h k')"
  unfolding hdr_del_def by (induction h) auto

lemma hdr_values_set [hdr_simps]:
  "hdr_values (hdr_set h k v) k' =
     (if canonical_key k' = canonical_key k then [v] else hdr_values h k')"
  by (simp add: hdr_values_def hdr_set_def hdr_simps)

lemma hdr_values_del [hdr_simps]:
  "hdr_values (hdr_del h k) k' =
     (if canonical_key k' = canonical_key k then [] else hdr_values h k')"
  by (simp add: hdr_values_def hdr_simps)

lemma hdr_values_add [hdr_simps]:
  "hdr_values (hdr_add h k v) k' =
     (if canonical_key k' = canonical_key k then hdr_values h k @ [v] else hdr_values h k')"
  by (simp add: hdr_values_def hdr_add_def hdr_simps)

lemma hdr_get_set [hdr_simps]:
  "hdr_get (hdr_set h k v) k' = (if canonical_key k' = canonical_key k then v else hdr_get h k')"
  by (simp add: hdr_get_def hdr_simps)

lemma hdr_get_del [hdr_simps]:
  "hdr_get (hdr_del h k) k' = (if canonical_key k' = canonical_key k then [] else hdr_get h k')"
  by (simp add: hdr_get_def hdr_simps)

lemma distinct_hdr_put: "distinct (map fst h) \<Longrightarrow> distinct (map fst (hdr_put h k vs))"
proof (induction h k vs rule: hdr_put.induct)
  case (2 k' vs' h k vs)
  then show ?case using set_hdr_put_keys [of h k vs] by (auto simp del: set_map simp: set_map)
qed simp

lemma set_hdr_put: "set (hdr_put h k vs) \<subseteq> insert (k, vs) (set h)"
  by (induction h k vs rule: hdr_put.induct) auto

lemma wf_hdr_put: "wf_header h \<Longrightarrow> vs \<noteq> [] \<Longrightarrow> wf_header (hdr_put h k vs)"
  using set_hdr_put [of h k vs] by (auto simp: wf_header_def distinct_hdr_put)

lemma wf_hdr_set [hdr_simps]: "wf_header h \<Longrightarrow> wf_header (hdr_set h k v)"
  by (simp add: hdr_set_def wf_hdr_put)

lemma wf_hdr_add [hdr_simps]: "wf_header h \<Longrightarrow> wf_header (hdr_add h k v)"
  by (simp add: hdr_add_def wf_hdr_put)

lemma wf_hdr_del [hdr_simps]: "wf_header h \<Longrightarrow> wf_header (hdr_del h k)"
  by (auto simp: wf_header_def hdr_del_def distinct_map inj_on_def)

lemma map_of_hdr_SomeD: "map_of h k = Some vs \<Longrightarrow> wf_header h \<Longrightarrow> vs \<noteq> []"
  by (auto simp: wf_header_def dest!: map_of_SomeD)

text \<open>Names as net/http hands them over: each is in canonical form.\<close>

definition canonical_header :: "header \<Rightarrow> bool" where
  "canonical_header h = (wf_header h \<and> (\<forall>(k, _) \<in> set h. canonical_key k = k))"

lemma upper_lower_char [simp]: "upper_char (lower_char c) = upper_char c"
  by (auto simp: upper_char_def lower_char_def)

lemma lower_char_dash: "lower_char c = CHR ''-'' \<longleftrightarrow> c = CHR ''-''"
proof
  assume eq: "lower_char c = CHR ''-''"
  show "c = CHR ''-''"
  proof (cases "65 \<le> byte_of c \<and> byte_of c \<le> 90")
    case True
    then have "byte_of (lower_char c) = byte_of c + 32" by (simp add: lower_char_def)
    with eq True show ?thesis by simp
  next
    case False
    with eq show ?thesis by (simp add: lower_char_def split: if_splits)
  qed
qed (simp add: lower_char_def)

lemma canon_chars_lower: "canon_chars up (to_lower k) = canon_chars up k"
  by (induction k arbitrary: up) (auto simp: to_lower_def lower_char_dash)

lemma valid_header_byte_lower: "valid_header_byte (lower_char c) = valid_header_byte c"
  by (auto simp: valid_header_byte_def lower_char_def Let_def)

lemma canonical_key_lower:
  assumes "list_all valid_header_byte (to_lower k)"
  shows "canonical_key k = canonical_key (to_lower k)"
proof -
  have "list_all valid_header_byte k"
    using assms by (simp add: to_lower_def list.pred_map o_def valid_header_byte_lower)
  with assms show ?thesis by (simp add: canonical_key_def canon_chars_lower)
qed

lemma hdr_values_Nil [simp]: "hdr_values [] k = []"
  by (simp add: hdr_values_def)

lemma fold_hdr_add:
  "hdr_values (fold (\<lambda>v o'. hdr_add o' k v) vs h) k' =
     (if canonical_key k' = canonical_key k then hdr_values h k' @ vs else hdr_values h k')"
proof (induction vs arbitrary: h)
  case (Cons v vs)
  have "canonical_key k' = canonical_key k \<Longrightarrow> hdr_values h k = hdr_values h k'" by (simp add: hdr_values_def)
  with Cons show ?case by (simp add: hdr_simps)
qed simp

lemma keys_hdr_add: "fst ` set (hdr_add h k v) = insert (canonical_key k) (fst ` set h)"
  by (simp add: hdr_add_def set_hdr_put_keys)

lemma keys_fold_hdr_add:
  "fst ` set (fold (\<lambda>v o'. hdr_add o' k v) vs h) \<subseteq> insert (canonical_key k) (fst ` set h)"
proof (induction vs arbitrary: h)
  case (Cons v vs)
  have "fst ` set (fold (\<lambda>v o'. hdr_add o' k v) vs (hdr_add h k v)) \<subseteq> insert (canonical_key k) (fst ` set (hdr_add h k v))"
    by (rule Cons.IH)
  then show ?case by (simp add: keys_hdr_add)
qed auto

lemma wf_fold_hdr_add: "wf_header h \<Longrightarrow> wf_header (fold (\<lambda>v o'. hdr_add o' k v) vs h)"
  by (induction vs arbitrary: h) (auto simp: hdr_simps)

end
