(* ===== verification/NetAddr.thy ===== *)
theory NetAddr
  imports Prelude "HOL-Library.Word"
begin

unbundle bit_operations_syntax

text \<open>
  The address operations of Go's package \<open>net\<close> that client-IP resolution and the trusted-proxy
  configuration call: \<open>ParseIP\<close>, \<open>ParseCIDR\<close>, \<open>IPNet.Contains\<close> and \<open>SplitHostPort\<close>. An address is its
  list of bytes (4 or 16), as \<open>net.IP\<close> is. The theorems relate \<open>Contains\<close> on a parsed CIDR to the
  textbook reading: the first \<open>n\<close> bits agree.
\<close>

type_synonym byte = "8 word"
type_synonym ip = "byte list"

section \<open>Parsing an IPv4 address\<close>

definition is_digit :: "char \<Rightarrow> bool" where
  "is_digit c = (48 \<le> byte_of c \<and> byte_of c \<le> 57)"

text \<open>
  The loop of \<open>parseIPv4Fields\<close>: \<open>val\<close> and \<open>digLen\<close> describe the current field, \<open>fields\<close> the ones
  completed, \<open>atDot\<close> whether the previous byte was a dot (or there was none).
\<close>

fun parse_ipv4_loop :: "nat \<Rightarrow> nat \<Rightarrow> bool \<Rightarrow> byte list \<Rightarrow> string \<Rightarrow> byte list option" where
  "parse_ipv4_loop val digLen atDot fields [] =
     (if length fields < 3 then None else Some (fields @ [of_nat val]))"
| "parse_ipv4_loop val digLen atDot fields (c # cs) =
     (if is_digit c then
        (if digLen = 1 \<and> val = 0 then None
         else let val' = val * 10 + (byte_of c - 48) in
           if 255 < val' then None else parse_ipv4_loop val' (Suc digLen) False fields cs)
      else if c = CHR ''.'' then
        (if atDot \<or> cs = [] then None
         else if length fields = 3 then None
         else parse_ipv4_loop 0 0 True (fields @ [of_nat val]) cs)
      else None)"

definition parse_ipv4 :: "string \<Rightarrow> ip option" where
  "parse_ipv4 s = parse_ipv4_loop 0 0 True [] s"

section \<open>Parsing an IPv6 address\<close>

definition hex_val :: "char \<Rightarrow> nat option" where
  "hex_val c = (let b = byte_of c in
     if 48 \<le> b \<and> b \<le> 57 then Some (b - 48)
     else if 97 \<le> b \<and> b \<le> 102 then Some (b - 87)
     else if 65 \<le> b \<and> b \<le> 70 then Some (b - 55) else None)"

text \<open>One hexadecimal group: at most four digits; gives the value, the digit count and the rest.\<close>

fun hex_group :: "nat \<Rightarrow> nat \<Rightarrow> string \<Rightarrow> (nat \<times> nat \<times> string) option" where
  "hex_group acc off [] = Some (acc, off, [])"
| "hex_group acc off (c # cs) = (case hex_val c of
     None \<Rightarrow> Some (acc, off, c # cs)
   | Some v \<Rightarrow> let acc' = acc * 16 + v in
       if 3 < off \<or> 65535 < acc' then None else hex_group acc' (Suc off) cs)"

text \<open>
  The main loop of \<open>netip.parseIPv6\<close>. \<open>out\<close> holds the bytes written so far, \<open>ell\<close> the position of the
  ellipsis. The result is the bytes, the ellipsis and the unread input. Every pass writes at least
  two bytes and the loop runs while fewer than sixteen are written, which is its termination measure.
\<close>

function parse_ipv6_loop :: "byte list \<Rightarrow> nat option \<Rightarrow> string \<Rightarrow> (byte list \<times> nat option \<times> string) option" where
  "parse_ipv6_loop out ell s =
     (if 16 \<le> length out then Some (out, ell, s)
      else case hex_group 0 0 s of
        None \<Rightarrow> None
      | Some (acc, off, rest) \<Rightarrow>
          if off = 0 then None
          else if rest \<noteq> [] \<and> hd rest = CHR ''.'' then
            (if ell = None \<and> length out \<noteq> 12 then None
             else if 16 < length out + 4 then None
             else case parse_ipv4_loop 0 0 True [] s of
               None \<Rightarrow> None
             | Some q \<Rightarrow> Some (out @ q, ell, []))
          else let out' = out @ [of_nat (acc div 256), of_nat acc] in
            (case rest of
               [] \<Rightarrow> Some (out', ell, [])
             | c # cs \<Rightarrow>
                 if c \<noteq> CHR '':'' then None
                 else (case cs of
                     [] \<Rightarrow> None
                   | c' # cs' \<Rightarrow>
                       if c' = CHR '':'' then
                         (if ell \<noteq> None then None
                          else if cs' = [] then Some (out', Some (length out'), [])
                          else parse_ipv6_loop out' (Some (length out')) cs')
                       else parse_ipv6_loop out' ell (c' # cs'))))"
  by pat_completeness auto
termination
  by (relation "measure (\<lambda>(out, _, _). 16 - length out)") auto

declare parse_ipv6_loop.simps [simp del]

definition parse_ipv6 :: "string \<Rightarrow> ip option" where
  "parse_ipv6 s0 =
     (let lead = (take 2 s0 = ''::'');
          s = (if lead then drop 2 s0 else s0) in
      if lead \<and> s = [] then Some (replicate 16 0)
      else case parse_ipv6_loop [] (if lead then Some 0 else None) s of
        None \<Rightarrow> None
      | Some (out, ell, rest) \<Rightarrow>
          if rest \<noteq> [] then None
          else if length out < 16 then
            (case ell of None \<Rightarrow> None
             | Some e \<Rightarrow> Some (take e out @ replicate (16 - length out) 0 @ drop e out))
          else if ell \<noteq> None then None else Some out)"

text \<open>\<open>netip.ParseAddr\<close> without zones: the first of dot, colon and percent sign decides.\<close>

datatype addr = V4 ip | V6 ip

fun parse_addr_scan :: "string \<Rightarrow> string \<Rightarrow> addr option" where
  "parse_addr_scan s [] = None"
| "parse_addr_scan s (c # cs) =
     (if c = CHR ''.'' then map_option V4 (parse_ipv4 s)
      else if c = CHR '':'' then
        (if index_char CHR ''%'' s = None then map_option V6 (parse_ipv6 s) else None)
      else if c = CHR ''%'' then None
      else parse_addr_scan s cs)"

definition parse_addr :: "string \<Rightarrow> addr option" where
  "parse_addr s = parse_addr_scan s s"

definition v4_in_v6_prefix :: ip where
  "v4_in_v6_prefix = replicate 10 0 @ [255, 255]"

fun as16 :: "addr \<Rightarrow> ip" where
  "as16 (V4 b) = v4_in_v6_prefix @ b"
| "as16 (V6 b) = b"

definition parse_ip :: "string \<Rightarrow> ip option" where
  "parse_ip s = map_option as16 (parse_addr s)"

section \<open>Networks\<close>

record ipnet =
  net_ip :: ip
  net_mask :: ip

text \<open>\<open>CIDRMask(ones, bits)\<close>, one byte at a time.\<close>

fun mask_bytes :: "nat \<Rightarrow> nat \<Rightarrow> ip" where
  "mask_bytes 0 n = []"
| "mask_bytes (Suc k) n =
     (if 8 \<le> n then 255 # mask_bytes k (n - 8)
      else NOT (mask (8 - n)) # mask_bytes k 0)"

definition to4 :: "ip \<Rightarrow> ip option" where
  "to4 b = (if length b = 4 then Some b
            else if length b = 16 \<and> take 12 b = v4_in_v6_prefix then Some (drop 12 b) else None)"

definition and_bytes :: "ip \<Rightarrow> ip \<Rightarrow> ip" where
  "and_bytes a b = map2 (AND) a b"

text \<open>\<open>dtoi\<close>: the decimal prefix, its length, and whether there was one below \<open>0xFFFFFF\<close>.\<close>

fun dtoi :: "nat \<Rightarrow> string \<Rightarrow> nat option" where
  "dtoi n [] = Some n"
| "dtoi n (c # cs) = (if is_digit c then
     (let n' = n * 10 + (byte_of c - 48) in if 16777215 \<le> n' then None else dtoi n' cs)
     else None)"

definition ip_mask :: "ip \<Rightarrow> ip \<Rightarrow> ip" where
  "ip_mask b m =
     (if length m = 4 \<and> length b = 16 \<and> take 12 b = v4_in_v6_prefix then and_bytes (drop 12 b) m
      else and_bytes b m)"

fun addr_len :: "addr \<Rightarrow> nat" where
  "addr_len (V4 _) = 4"
| "addr_len (V6 _) = 16"

definition parse_cidr :: "string \<Rightarrow> ipnet option" where
  "parse_cidr s = (case index_char CHR ''/'' s of
     None \<Rightarrow> None
   | Some i \<Rightarrow> (case parse_addr (take i s) of
       None \<Rightarrow> None
     | Some a \<Rightarrow> (let ms = drop (Suc i) s in
         case (if ms = [] then None else dtoi 0 ms) of
           None \<Rightarrow> None
         | Some n \<Rightarrow>
             if 8 * addr_len a < n then None
             else (let m = mask_bytes (addr_len a) n in
               Some \<lparr>net_ip = ip_mask (as16 a) m, net_mask = m\<rparr>))))"

definition network_number_and_mask :: "ipnet \<Rightarrow> (ip \<times> ip) option" where
  "network_number_and_mask n =
     (let b = (case to4 (net_ip n) of Some b \<Rightarrow> b | None \<Rightarrow> net_ip n); m = net_mask n in
      if to4 (net_ip n) = None \<and> length b \<noteq> 16 then None
      else if length m = 4 then (if length b \<noteq> 4 then None else Some (b, m))
      else if length m = 16 then Some (b, if length b = 4 then drop 12 m else m)
      else None)"

definition net_contains :: "ipnet \<Rightarrow> ip \<Rightarrow> bool" where
  "net_contains n b0 =
     (let b = (case to4 b0 of Some x \<Rightarrow> x | None \<Rightarrow> b0) in
      case network_number_and_mask n of
        None \<Rightarrow> b = []
      | Some (nn, m) \<Rightarrow> length b = length nn \<and> and_bytes nn m = and_bytes b m)"

section \<open>Splitting host and port\<close>

definition split_host_port :: "string \<Rightarrow> (string \<times> string) option" where
  "split_host_port hp = (case last_index_char CHR '':'' hp of
     None \<Rightarrow> None
   | Some i \<Rightarrow>
       if hd hp = CHR ''['' then
         (case index_char CHR '']'' hp of
            None \<Rightarrow> None
          | Some e \<Rightarrow>
              if e + 1 = i then
                (if index_char CHR ''['' (drop 1 hp) \<noteq> None
                    \<or> index_char CHR '']'' (drop (e + 1) hp) \<noteq> None then None
                 else Some (take (e - 1) (drop 1 hp), drop (i + 1) hp))
              else None)
       else
         (let host = take i hp in
          if index_char CHR '':'' host \<noteq> None then None
          else if index_char CHR ''['' hp \<noteq> None \<or> index_char CHR '']'' hp \<noteq> None then None
          else Some (host, drop (i + 1) hp)))"

section \<open>What parses as an address is plain text\<close>

definition addr_char :: "char \<Rightarrow> bool" where
  "addr_char c = (hex_val c \<noteq> None \<or> c = CHR ''.'' \<or> c = CHR '':'')"

lemma parse_ipv4_loop_chars:
  "parse_ipv4_loop v d a f s = Some b \<Longrightarrow> list_all addr_char s"
  by (induction v d a f s rule: parse_ipv4_loop.induct)
     (auto simp: addr_char_def hex_val_def is_digit_def Let_def split: if_splits)

lemma hex_group_chars:
  "hex_group acc off s = Some (v, n, rest) \<Longrightarrow> \<exists>p. s = p @ rest \<and> (list_all addr_char p)"
proof (induction s arbitrary: acc off)
  case (Cons c cs)
  show ?case
  proof (cases "hex_val c")
    case (Some x)
    with Cons.prems have "hex_group (acc * 16 + x) (Suc off) cs = Some (v, n, rest)"
      by (simp add: Let_def split: if_splits)
    from Cons.IH [OF this] obtain p where "cs = p @ rest" "list_all addr_char p" by blast
    then show ?thesis using Some by (intro exI [of _ "c # p"]) (simp add: addr_char_def [of c])
  qed (use Cons.prems in auto)
qed auto

lemma parse_ipv6_loop_chars:
  "parse_ipv6_loop out ell s = Some (b, e, []) \<Longrightarrow> list_all addr_char s"
proof (induction "16 - length out" arbitrary: out ell s b e rule: less_induct)
  case less
  have colon: "addr_char CHR '':''" by (simp add: addr_char_def)
  have IH: "list_all addr_char t"
    if "length out < 16" "parse_ipv6_loop (out @ [x, y]) l t = Some (b, e, [])" for x y l t
    using less.hyps [OF _ that(2)] that(1) by simp
  have pre: "list_all addr_char s = list_all addr_char rs" if "hex_group 0 0 s = Some (v, n, rs)" for v n rs
    using hex_group_chars [OF that] by auto
  from less.prems show ?case
    by (subst (asm) parse_ipv6_loop.simps)
       (auto simp: Let_def colon dest: parse_ipv4_loop_chars dest!: IH [rotated] pre
         split: if_splits option.splits list.splits)
qed

lemma parse_addr_chars:
  assumes "parse_addr s = Some a"
  shows "list_all addr_char s"
proof -
  have v6: "list_all addr_char s" if p: "parse_ipv6 s = Some b" for b
  proof (cases "take 2 s = ''::''")
    case True
    then have s: "s = ''::'' @ drop 2 s" by (metis append_take_drop_id)
    have "list_all addr_char (drop 2 s)"
      using p True by (auto simp: parse_ipv6_def Let_def dest: parse_ipv6_loop_chars split: option.splits if_splits)
    then show ?thesis by (subst s) (auto simp: addr_char_def)
  next
    case False
    then show ?thesis
      using p by (auto simp: parse_ipv6_def Let_def dest: parse_ipv6_loop_chars split: option.splits if_splits)
  qed
  have "list_all addr_char s" if "parse_addr_scan s t = Some a" for t
    using that
    by (induction t) (auto simp: parse_ipv4_def split: if_splits dest: parse_ipv4_loop_chars v6)
  then show ?thesis using assms by (simp add: parse_addr_def)
qed

lemma addr_char_byte:
  assumes "addr_char c"
  shows "45 < byte_of c" "byte_of c < 103"
  using assms by (auto simp: addr_char_def hex_val_def Let_def split: if_splits)

text \<open>A string that parses as an address has no white space and no comma, and is not empty.\<close>

lemma parse_ip_plain:
  assumes "parse_ip s \<noteq> None"
  shows "trim_space s = s" "CHR '','' \<notin> set s" "s \<noteq> []"
proof -
  from assms obtain a where "parse_addr s = Some a" by (auto simp: parse_ip_def)
  then have ch: "addr_char c" if "c \<in> set s" for c
    using parse_addr_chars [of s a] that unfolding list_all_iff by blast
  have "byte_of c < 128" if "c \<in> set s" for c
    using addr_char_byte(2) [OF ch [OF that]] by linarith
  then have r: "runes s = map byte_of s" by (intro runes_ascii ballI)
  have "\<not> is_space (byte_of c)" if "c \<in> set s" for c
    using addr_char_byte [OF ch [OF that]] unfolding is_space_def by simp
  then show "trim_space s = s" by (intro trim_space_no_space) (auto simp only: r set_map)
  show "CHR '','' \<notin> set s" using addr_char_byte(1) ch by fastforce
  show "s \<noteq> []" using assms by (auto simp: parse_ip_def parse_addr_def)
qed

section \<open>Membership in a CIDR block is agreement on the first bits\<close>

definition byte_bits :: "byte \<Rightarrow> bool list" where
  "byte_bits w = map (bit w) (rev [0..<8])"

definition ip_bits :: "ip \<Rightarrow> bool list" where
  "ip_bits b = concat (map byte_bits b)"

lemma length_byte_bits [simp]: "length (byte_bits w) = 8"
  by (simp add: byte_bits_def)

lemma byte_bits_take:
  assumes "n \<le> 8"
  shows "take n (byte_bits a) = take n (byte_bits b) \<longleftrightarrow> (\<forall>i. 8 - n \<le> i \<and> i < 8 \<longrightarrow> bit a i = bit b i)"
proof -
  have "take n (rev [0..<8]) = rev [8 - n..<8]"
    using assms by (simp add: take_rev)
  then have "take n (byte_bits w) = map (bit w) (rev [8 - n..<8])" for w
    by (simp add: byte_bits_def take_map)
  then show ?thesis by (simp add: rev_map [symmetric]) (auto simp: map_eq_conv)
qed

lemma byte_mask_eq:
  fixes a b :: byte
  assumes "n \<le> 8"
  shows "a AND NOT (mask (8 - n)) = b AND NOT (mask (8 - n)) \<longleftrightarrow> take n (byte_bits a) = take n (byte_bits b)"
  unfolding byte_bits_take [OF assms]
  by (auto simp: bit_eq_iff bit_simps)

lemma byte_mask_full:
  fixes a b :: byte
  shows "a AND 255 = b AND 255 \<longleftrightarrow> byte_bits a = byte_bits b"
proof -
  have "(255::byte) = - 1" by simp
  then show ?thesis using byte_mask_eq [of 8 a b] by (simp only: and.right_neutral) simp
qed

lemma and_mask_bytes_eq:
  assumes "length a = k" "length b = k"
  shows "and_bytes a (mask_bytes k n) = and_bytes b (mask_bytes k n) \<longleftrightarrow>
    take n (ip_bits a) = take n (ip_bits b)"
  using assms
proof (induction k arbitrary: a b n)
  case 0
  then show ?case by simp
next
  case (Suc k)
  then obtain x xs y ys where ab: "a = x # xs" "b = y # ys" "length xs = k" "length ys = k"
    by (metis length_Suc_conv)
  show ?case
  proof (cases "8 \<le> n")
    case True
    have "take n (byte_bits u @ v) = byte_bits u @ take (n - 8) v" for u v
      using True by simp
    then show ?thesis
      using Suc.IH [OF ab(3,4), of "n - 8"] byte_mask_full [of x y] True ab
      by (auto simp: and_bytes_def ip_bits_def)
  next
    case False
    then show ?thesis
      using Suc.IH [OF ab(3,4), of 0] byte_mask_eq [of n x y] ab
      by (auto simp: and_bytes_def ip_bits_def)
  qed
qed

lemma and_bytes_idem: "length a = length m \<Longrightarrow> and_bytes (and_bytes a m) m = and_bytes a m"
  by (induction a m rule: list_induct2) (simp_all add: and_bytes_def and.assoc)

lemma length_mask_bytes [simp]: "length (mask_bytes k n) = k"
  by (induction k n rule: mask_bytes.induct) auto

lemma length_and_bytes [simp]: "length (and_bytes a b) = min (length a) (length b)"
  by (simp add: and_bytes_def)

lemma parse_ipv4_loop_length: "parse_ipv4_loop v d a f s = Some b \<Longrightarrow> length f \<le> 3 \<Longrightarrow> length b = 4"
  by (induction v d a f s rule: parse_ipv4_loop.induct) (auto simp: Let_def split: if_splits)

text \<open>An IPv4 block of a parsed CIDR contains exactly the addresses that agree with it on the prefix.\<close>

lemma net_contains_v4:
  assumes "length a = 4" "length b = 4" "n \<le> 32"
  shows "net_contains \<lparr>net_ip = and_bytes a (mask_bytes 4 n), net_mask = mask_bytes 4 n\<rparr> b \<longleftrightarrow>
    take n (ip_bits a) = take n (ip_bits b)"
  using assms and_mask_bytes_eq [of a 4 b n]
  by (simp add: net_contains_def network_number_and_mask_def to4_def and_bytes_idem)

end
