(* ===== verification/Events.thy ===== *)
theory Events
  imports Prelude
begin

text \<open>
  The closed vocabulary of the log stream: the components of \<^verbatim>\<open>pkg/logging/component.go\<close> and the
  event registry of \<^verbatim>\<open>pkg/logging/events.go\<close>. The Go types are strings whose only values are the
  declared constants; here they are datatypes and \<open>component_name\<close>, \<open>event_name\<close> give the strings.
  An \<open>event_spec\<close> leaves out the field \<open>Summary\<close>, which only the documentation generator reads (\<open>DocGen\<close>).

  A slog level is the integer slog gives it. The theorems say that the registry has an entry for
  every event, exactly one, that names are three lower-case segments and that no two coincide.
\<close>

type_synonym level = int

abbreviation (input) LevelDebug :: level where "LevelDebug \<equiv> - 4"
abbreviation (input) LevelInfo :: level where "LevelInfo \<equiv> 0"
abbreviation (input) LevelWarn :: level where "LevelWarn \<equiv> 4"
abbreviation (input) LevelError :: level where "LevelError \<equiv> 8"

section \<open>Components\<close>

datatype component =
    ComponentStartup
  | ComponentServer
  | ComponentOIDC
  | ComponentReadiness
  | ComponentRequest
  | ComponentTokenReview
  | ComponentSAR
  | ComponentAudit
  | ComponentUpstream
  | ComponentShutdown
  | ComponentMetrics
  | ComponentK8s

fun component_name :: "component \<Rightarrow> string" where
  "component_name ComponentStartup = ''startup''"
| "component_name ComponentServer = ''server''"
| "component_name ComponentOIDC = ''oidc''"
| "component_name ComponentReadiness = ''readiness''"
| "component_name ComponentRequest = ''request''"
| "component_name ComponentTokenReview = ''tokenreview''"
| "component_name ComponentSAR = ''sar''"
| "component_name ComponentAudit = ''audit''"
| "component_name ComponentUpstream = ''upstream''"
| "component_name ComponentShutdown = ''shutdown''"
| "component_name ComponentMetrics = ''metrics''"
| "component_name ComponentK8s = ''k8s''"

definition AllComponents :: "component list" where
  "AllComponents = [ComponentStartup, ComponentServer, ComponentOIDC, ComponentReadiness,
     ComponentRequest, ComponentTokenReview, ComponentSAR, ComponentAudit, ComponentUpstream,
     ComponentShutdown, ComponentMetrics, ComponentK8s]"

section \<open>Events\<close>

datatype event_type =
    EventRequestAccessDecided
  | EventRequestResponseStarted
  | EventRequestResponseCompleted
  | EventRequestHeadersRewritten
  | EventRequestHeadersDropped
  | EventRequestAnomalyDetected
  | EventRequestImpersonationApplied
  | EventRequestImpersonationSkipped
  | EventRequestHandlerFailed
  | EventAuthnOIDCSucceeded
  | EventAuthnOIDCFailed
  | EventAuthnTokenMissing
  | EventAuthnTokenReviewCompleted
  | EventAuthnTokenReviewFailed
  | EventAuthzSARCompleted
  | EventAuthzSARFailed
  | EventAuthzImpersonationResolved
  | EventCacheSARLookup
  | EventCacheTokenReviewLookup
  | EventOIDCIssuerConfigured
  | EventOIDCIssuerInitialized
  | EventOIDCIssuerPending
  | EventReadinessProxyReady
  | EventReadinessServerFailed
  | EventProxyConfigLoaded
  | EventProxyConfigInvalid
  | EventProxyStartupFailed
  | EventProxyServerStarted
  | EventProxyServerStopped
  | EventProxyShutdownStarted
  | EventProxyShutdownCompleted
  | EventProxyHookCompleted
  | EventProxyHookFailed
  | EventAuditBackendStarted
  | EventAuditBackendFailed
  | EventAuditFlushCompleted
  | EventAuditFlushFailed
  | EventUpstreamRequestFailed
  | EventUpstreamRequestCanceled
  | EventLogWarningSuppressed
  | EventMetricsServerStarted
  | EventMetricsServerFailed
  | EventMetricsScrapeFailed


fun event_name :: "event_type \<Rightarrow> string" where
  "event_name EventRequestAccessDecided = ''request.access.decided''"
| "event_name EventRequestResponseStarted = ''request.response.started''"
| "event_name EventRequestResponseCompleted = ''request.response.completed''"
| "event_name EventRequestHeadersRewritten = ''request.headers.rewritten''"
| "event_name EventRequestHeadersDropped = ''request.headers.dropped''"
| "event_name EventRequestAnomalyDetected = ''request.anomaly.detected''"
| "event_name EventRequestImpersonationApplied = ''request.impersonation.applied''"
| "event_name EventRequestImpersonationSkipped = ''request.impersonation.skipped''"
| "event_name EventRequestHandlerFailed = ''request.handler.failed''"
| "event_name EventAuthnOIDCSucceeded = ''authn.oidc.succeeded''"
| "event_name EventAuthnOIDCFailed = ''authn.oidc.failed''"
| "event_name EventAuthnTokenMissing = ''authn.token.missing''"
| "event_name EventAuthnTokenReviewCompleted = ''authn.tokenreview.completed''"
| "event_name EventAuthnTokenReviewFailed = ''authn.tokenreview.failed''"
| "event_name EventAuthzSARCompleted = ''authz.sar.completed''"
| "event_name EventAuthzSARFailed = ''authz.sar.failed''"
| "event_name EventAuthzImpersonationResolved = ''authz.impersonation.resolved''"
| "event_name EventCacheSARLookup = ''cache.sar.lookup''"
| "event_name EventCacheTokenReviewLookup = ''cache.tokenreview.lookup''"
| "event_name EventOIDCIssuerConfigured = ''oidc.issuer.configured''"
| "event_name EventOIDCIssuerInitialized = ''oidc.issuer.initialized''"
| "event_name EventOIDCIssuerPending = ''oidc.issuer.pending''"
| "event_name EventReadinessProxyReady = ''readiness.proxy.ready''"
| "event_name EventReadinessServerFailed = ''readiness.server.failed''"
| "event_name EventProxyConfigLoaded = ''proxy.config.loaded''"
| "event_name EventProxyConfigInvalid = ''proxy.config.invalid''"
| "event_name EventProxyStartupFailed = ''proxy.startup.failed''"
| "event_name EventProxyServerStarted = ''proxy.server.started''"
| "event_name EventProxyServerStopped = ''proxy.server.stopped''"
| "event_name EventProxyShutdownStarted = ''proxy.shutdown.started''"
| "event_name EventProxyShutdownCompleted = ''proxy.shutdown.completed''"
| "event_name EventProxyHookCompleted = ''proxy.hook.completed''"
| "event_name EventProxyHookFailed = ''proxy.hook.failed''"
| "event_name EventAuditBackendStarted = ''audit.backend.started''"
| "event_name EventAuditBackendFailed = ''audit.backend.failed''"
| "event_name EventAuditFlushCompleted = ''audit.flush.completed''"
| "event_name EventAuditFlushFailed = ''audit.flush.failed''"
| "event_name EventUpstreamRequestFailed = ''upstream.request.failed''"
| "event_name EventUpstreamRequestCanceled = ''upstream.request.canceled''"
| "event_name EventLogWarningSuppressed = ''log.warning.suppressed''"
| "event_name EventMetricsServerStarted = ''metrics.server.started''"
| "event_name EventMetricsServerFailed = ''metrics.server.failed''"
| "event_name EventMetricsScrapeFailed = ''metrics.scrape.failed''"

record event_spec =
  Components :: "component list option"
  Level :: level
  AllowedLevels :: "level list"
  Required :: "string list"
  Message :: string

definition event_spec_for ::
  "component list option \<Rightarrow> level \<Rightarrow> level list \<Rightarrow> string list \<Rightarrow> string \<Rightarrow> event_spec" where
  "event_spec_for cs l al rq m =
     \<lparr>Components = cs, Level = l, AllowedLevels = al, Required = rq, Message = m\<rparr>"

definition Registry :: "(event_type \<times> event_spec) list" where
  "Registry = [
    (EventRequestAccessDecided, event_spec_for (Some [ComponentRequest]) LevelInfo []
     [''request_id'', ''event'', ''src_ip'', ''path'', ''http_method'', ''auth_method'', ''decision'']
     ''access decision''),
    (EventRequestResponseStarted, event_spec_for (Some [ComponentRequest]) LevelInfo []
     [''request_id'', ''http_status'', ''time_to_headers_ms'']
     ''response started''),
    (EventRequestResponseCompleted, event_spec_for (Some [ComponentRequest]) LevelInfo []
     [''request_id'', ''http_status'', ''duration_ms'', ''termination'']
     ''request completed''),
    (EventRequestHeadersRewritten, event_spec_for (Some [ComponentRequest]) LevelDebug []
     [''request_id'', ''src_ip'', ''forwarded_for_untrusted'']
     ''forwarded headers rewritten''),
    (EventRequestHeadersDropped, event_spec_for (Some [ComponentRequest]) LevelWarn []
     [''request_id'', ''src_ip'', ''dropped_headers'']
     ''forwarded headers dropped''),
    (EventRequestAnomalyDetected, event_spec_for (Some [ComponentRequest]) LevelWarn []
     [''request_id'', ''src_ip'', ''reason'']
     ''request anomaly detected''),
    (EventRequestImpersonationApplied, event_spec_for (Some [ComponentRequest]) LevelDebug []
     [''request_id'', ''outbound_user'', ''impersonated_header_names'']
     ''impersonation headers applied''),
    (EventRequestImpersonationSkipped, event_spec_for (Some [ComponentRequest]) LevelDebug []
     [''request_id'', ''skip_reason'']
     ''impersonation skipped''),
    (EventRequestHandlerFailed, event_spec_for (Some [ComponentRequest]) LevelError []
     [''request_id'', ''reason'', ''error_message'']
     ''request handler failed''),
    (EventAuthnOIDCSucceeded, event_spec_for (Some [ComponentOIDC]) LevelDebug []
     [''request_id'', ''issuer_name'']
     ''oidc authentication succeeded''),
    (EventAuthnOIDCFailed, event_spec_for (Some [ComponentOIDC]) LevelDebug []
     [''request_id'', ''reason'']
     ''oidc authentication failed''),
    (EventAuthnTokenMissing, event_spec_for (Some [ComponentTokenReview]) LevelDebug []
     [''request_id'']
     ''bearer token missing''),
    (EventAuthnTokenReviewCompleted, event_spec_for (Some [ComponentTokenReview]) LevelDebug []
     [''request_id'', ''authenticated'']
     ''tokenreview completed''),
    (EventAuthnTokenReviewFailed, event_spec_for (Some [ComponentTokenReview]) LevelError []
     [''request_id'', ''reason'', ''error_message'']
     ''tokenreview failed''),
    (EventAuthzSARCompleted, event_spec_for (Some [ComponentSAR]) LevelDebug []
     [''request_id'', ''decision'', ''duration_ms'', ''request_coalesced'', ''target_kind'']
     ''subject access review completed''),
    (EventAuthzSARFailed, event_spec_for (Some [ComponentSAR]) LevelError [LevelDebug]
     [''request_id'', ''reason'', ''error_message'']
     ''subject access review failed''),
    (EventAuthzImpersonationResolved, event_spec_for (Some [ComponentSAR]) LevelDebug []
     [''request_id'', ''target_kind'', ''target_name'']
     ''impersonation resolved''),
    (EventCacheSARLookup, event_spec_for (Some [ComponentSAR]) LevelDebug []
     [''request_id'', ''cache_result'']
     ''subject access review cache lookup''),
    (EventCacheTokenReviewLookup, event_spec_for (Some [ComponentTokenReview]) LevelDebug []
     [''request_id'', ''cache_result'']
     ''tokenreview cache lookup''),
    (EventOIDCIssuerConfigured, event_spec_for (Some [ComponentOIDC]) LevelInfo []
     [''issuer_name'', ''issuer_count'']
     ''configured OIDC issuers''),
    (EventOIDCIssuerInitialized, event_spec_for (Some [ComponentOIDC]) LevelInfo []
     [''issuer_name'', ''issuer_state'', ''ready_issuers'', ''total_issuers'']
     ''issuer initialized''),
    (EventOIDCIssuerPending, event_spec_for (Some [ComponentOIDC]) LevelWarn []
     [''issuer_name'', ''issuer_state'', ''pending_reason'', ''ready_issuers'', ''total_issuers'']
     ''issuer pending''),
    (EventReadinessProxyReady, event_spec_for (Some [ComponentReadiness]) LevelInfo []
     [''ready_issuers'', ''total_issuers'', ''readiness_mode'']
     ''proxy ready''),
    (EventReadinessServerFailed, event_spec_for (Some [ComponentReadiness]) LevelError []
     [''error_message'']
     ''readiness server failed''),
    (EventProxyConfigLoaded, event_spec_for (Some [ComponentStartup]) LevelInfo []
     [''version'', ''config_hash'', ''issuer_count'', ''readiness_mode'']
     ''configuration loaded''),
    (EventProxyConfigInvalid, event_spec_for (Some [ComponentStartup]) LevelError []
     [''reason'', ''error_message'']
     ''configuration invalid''),
    (EventProxyStartupFailed, event_spec_for (Some [ComponentStartup]) LevelError []
     [''error_message'']
     ''startup failed''),
    (EventProxyServerStarted, event_spec_for (Some [ComponentServer]) LevelInfo []
     [''address'']
     ''server started''),
    (EventProxyServerStopped, event_spec_for (Some [ComponentServer]) LevelInfo []
     [''duration_ms'']
     ''server stopped''),
    (EventProxyShutdownStarted, event_spec_for (Some [ComponentShutdown]) LevelInfo []
     [''signal'']
     ''shutdown started''),
    (EventProxyShutdownCompleted, event_spec_for (Some [ComponentShutdown]) LevelInfo []
     [''duration_ms'']
     ''shutdown completed''),
    (EventProxyHookCompleted, event_spec_for (Some [ComponentShutdown]) LevelInfo []
     [''hook'', ''duration_ms'']
     ''shutdown hook completed''),
    (EventProxyHookFailed, event_spec_for (Some [ComponentShutdown]) LevelError []
     [''hook'', ''error_message'']
     ''shutdown hook failed''),
    (EventAuditBackendStarted, event_spec_for (Some [ComponentAudit]) LevelInfo []
     [''backend_kind'']
     ''audit backend started''),
    (EventAuditBackendFailed, event_spec_for (Some [ComponentAudit]) LevelError []
     [''error_message'']
     ''audit backend failed''),
    (EventAuditFlushCompleted, event_spec_for (Some [ComponentAudit]) LevelInfo []
     [''duration_ms'']
     ''audit flush completed''),
    (EventAuditFlushFailed, event_spec_for (Some [ComponentAudit]) LevelError []
     [''error_message'']
     ''audit flush failed''),
    (EventUpstreamRequestFailed, event_spec_for (Some [ComponentUpstream]) LevelError [LevelDebug]
     [''request_id'', ''reason'', ''termination'', ''error_message'']
     ''upstream request failed''),
    (EventUpstreamRequestCanceled, event_spec_for (Some [ComponentUpstream]) LevelDebug []
     [''request_id'', ''reason'']
     ''upstream request canceled''),
    (EventLogWarningSuppressed, event_spec_for None LevelWarn []
     [''warning_reason'', ''suppressed_count'', ''interval_seconds'']
     ''warnings suppressed''),
    (EventMetricsServerStarted, event_spec_for (Some [ComponentMetrics]) LevelInfo []
     [''address'']
     ''metrics server started''),
    (EventMetricsServerFailed, event_spec_for (Some [ComponentMetrics]) LevelError []
     [''error_message'']
     ''metrics server failed''),
    (EventMetricsScrapeFailed, event_spec_for (Some [ComponentMetrics]) LevelError []
     [''error_message'']
     ''metrics scrape failed'')]"

text \<open>\<open>EventType.Spec\<close>: the registry entry, if there is one.\<close>

definition Spec :: "event_type \<Rightarrow> event_spec option" where
  "Spec e = map_of Registry e"

text \<open>\<open>AllEventTypes\<close>: the registered names in the order of their strings.\<close>

definition AllEventTypes :: "event_type list" where
  "AllEventTypes = sort_key event_name (map fst Registry)"

section \<open>The registry is complete and unambiguous\<close>

lemma AllComponents_UNIV: "set AllComponents = UNIV"
proof -
  have "c \<in> set AllComponents" for c
    by (cases c) (simp_all add: AllComponents_def)
  then show ?thesis by auto
qed

lemma component_name_inj: "inj component_name"
  by (rule injI) (case_tac x; case_tac y; simp)

lemma Registry_keys: "map fst Registry = [
    EventRequestAccessDecided, EventRequestResponseStarted, EventRequestResponseCompleted,
    EventRequestHeadersRewritten, EventRequestHeadersDropped, EventRequestAnomalyDetected,
    EventRequestImpersonationApplied, EventRequestImpersonationSkipped,
    EventRequestHandlerFailed, EventAuthnOIDCSucceeded, EventAuthnOIDCFailed,
    EventAuthnTokenMissing, EventAuthnTokenReviewCompleted, EventAuthnTokenReviewFailed,
    EventAuthzSARCompleted, EventAuthzSARFailed, EventAuthzImpersonationResolved,
    EventCacheSARLookup, EventCacheTokenReviewLookup, EventOIDCIssuerConfigured,
    EventOIDCIssuerInitialized, EventOIDCIssuerPending, EventReadinessProxyReady,
    EventReadinessServerFailed, EventProxyConfigLoaded, EventProxyConfigInvalid,
    EventProxyStartupFailed, EventProxyServerStarted, EventProxyServerStopped,
    EventProxyShutdownStarted, EventProxyShutdownCompleted, EventProxyHookCompleted,
    EventProxyHookFailed, EventAuditBackendStarted, EventAuditBackendFailed,
    EventAuditFlushCompleted, EventAuditFlushFailed, EventUpstreamRequestFailed,
    EventUpstreamRequestCanceled, EventLogWarningSuppressed, EventMetricsServerStarted,
    EventMetricsServerFailed, EventMetricsScrapeFailed]"
  by (simp add: Registry_def)

lemma Registry_UNIV: "set (map fst Registry) = UNIV"
proof -
  have "e \<in> set (map fst Registry)" for e
    unfolding Registry_keys by (cases e) simp_all
  then show ?thesis by blast
qed

lemma Spec_registered: "Spec e \<noteq> None"
  unfolding Spec_def map_of_eq_None_iff using Registry_UNIV by simp

lemma event_names_distinct: "distinct (map (event_name \<circ> fst) Registry)"
  by code_simp

lemma Registry_distinct: "distinct (map fst Registry)"
  using event_names_distinct by (simp add: distinct_map o_def) (auto simp: inj_on_def)

lemma event_name_inj: "inj event_name"
proof -
  have "inj_on event_name (set (map fst Registry))"
    using event_names_distinct by (simp add: distinct_map o_def inj_on_def) blast
  then show ?thesis unfolding Registry_UNIV .
qed

definition lower_segment :: "string \<Rightarrow> bool" where
  "lower_segment s = (s \<noteq> [] \<and> list_all (\<lambda>c. 97 \<le> byte_of c \<and> byte_of c \<le> 122) s)"

definition three_segments :: "string \<Rightarrow> bool" where
  "three_segments s = (length (split_on CHR ''.'' s) = 3 \<and> list_all lower_segment (split_on CHR ''.'' s))"

text \<open>
  What the request path relies on when it emits an event: the component it may come from, and the
  level it is declared at.
\<close>

lemma Spec_levels:
  assumes "Spec e = Some s"
  shows "Level s \<in> {LevelDebug, LevelInfo, LevelWarn, LevelError}"
proof -
  have "list_all (\<lambda>(e, s). Level s \<in> {LevelDebug, LevelInfo, LevelWarn, LevelError}) Registry"
    by code_simp
  then show ?thesis
    using assms map_of_SomeD [of Registry e s] by (auto simp: Spec_def list_all_iff)
qed

lemma three_segments_all: "three_segments (event_name e)"
proof -
  have "list_all (\<lambda>e. three_segments (event_name e)) (map fst Registry)"
    by code_simp
  then show ?thesis
    using Registry_UNIV by (metis UNIV_I list_all_iff)
qed

end
