(* ===== verification/GoErrors.thy ===== *)
theory GoErrors
  imports Prelude
begin

text \<open>
  Go error values as the trees \<open>errors.Is\<close> and \<open>errors.As\<close> walk: a sentinel, a plain text error, a
  \<open>fmt.Errorf\<close> value with its \<open>%w\<close> operands, the typed denial of
  \<^verbatim>\<open>pkg/proxy/subjectaccessreview\<close>, and a typed transport error with what it unwraps to. The
  nil error is \<open>None\<close> of an \<open>err option\<close>.
\<close>

datatype sentinel =
    ErrUnauthorized | ErrNoName | ErrNoImpersonationConfig | ErrReservedIdentity
  | ErrorNoImpersonationUserFound | ErrCreateSubjectAccessReview | ErrImpersonationNotAllowed
  | ErrTooManyImpersonationHeaderValues
  | ErrCanceled | ErrDeadlineExceeded | ErrEOF | ErrUnexpectedEOF
  | ErrAbortHandler | ErrServerClosed | ErrNotSupported | ErrReported
  | Errno nat

datatype net_kind = OpError | URLError | CertificateVerificationError | OtherNetError

datatype err =
    Sentinel sentinel
  | NewError string
  | Errorf string "err list"
  | ImpersonationAuthError string string string
  | NetError net_kind string bool "err list"

abbreviation ECONNRESET :: sentinel where "ECONNRESET \<equiv> Errno 104"
abbreviation EPIPE :: sentinel where "EPIPE \<equiv> Errno 32"

text \<open>\<open>errors.Is\<close>: pre-order over the wrapped errors; the denial type answers for its sentinel.\<close>

fun err_is :: "err \<Rightarrow> sentinel \<Rightarrow> bool" where
  "err_is (Sentinel s) t = (s = t)"
| "err_is (NewError _) t = False"
| "err_is (Errorf _ es) t = list_ex (\<lambda>e. err_is e t) es"
| "err_is (ImpersonationAuthError _ _ _) t = (t = ErrImpersonationNotAllowed)"
| "err_is (NetError _ _ _ es) t = list_ex (\<lambda>e. err_is e t) es"

fun first_some :: "('a \<Rightarrow> 'b option) \<Rightarrow> 'a list \<Rightarrow> 'b option" where
  "first_some f [] = None"
| "first_some f (x # xs) = (case f x of Some y \<Rightarrow> Some y | None \<Rightarrow> first_some f xs)"

lemma first_some_cong [fundef_cong]:
  "xs = ys \<Longrightarrow> (\<And>x. x \<in> set ys \<Longrightarrow> f x = g x) \<Longrightarrow> first_some f xs = first_some g ys"
  by (induction ys arbitrary: xs) (auto split: option.splits)

text \<open>
  \<open>errors.As(err, &netErr)\<close>, answering what \<open>netErr.Timeout()\<close> is. \<open>context.DeadlineExceeded\<close> and
  \<open>syscall.Errno\<close> implement \<open>net.Error\<close>; a certificate verification error does not.
\<close>

fun as_net_error :: "err \<Rightarrow> bool option" where
  "as_net_error (Sentinel s) = (case s of ErrDeadlineExceeded \<Rightarrow> Some True
     | Errno n \<Rightarrow> Some (n = 11 \<or> n = 110) | _ \<Rightarrow> None)"
| "as_net_error (NewError _) = None"
| "as_net_error (Errorf _ es) = first_some as_net_error es"
| "as_net_error (ImpersonationAuthError _ _ _) = None"
| "as_net_error (NetError k _ t es) =
     (if k = CertificateVerificationError then first_some as_net_error es else Some t)"

fun as_net_kind :: "net_kind \<Rightarrow> err \<Rightarrow> bool" where
  "as_net_kind k (Errorf _ es) = list_ex (as_net_kind k) es"
| "as_net_kind k (NetError k' _ _ es) = (k = k' \<or> list_ex (as_net_kind k) es)"
| "as_net_kind k _ = False"

fun as_errno :: "err \<Rightarrow> bool" where
  "as_errno (Sentinel (Errno _)) = True"
| "as_errno (Errorf _ es) = list_ex as_errno es"
| "as_errno (NetError _ _ _ es) = list_ex as_errno es"
| "as_errno _ = False"

fun as_auth_error :: "err \<Rightarrow> (string \<times> string \<times> string) option" where
  "as_auth_error (ImpersonationAuthError r k t) = Some (r, k, t)"
| "as_auth_error (Errorf _ es) = first_some as_auth_error es"
| "as_auth_error (NetError _ _ _ es) = first_some as_auth_error es"
| "as_auth_error _ = None"

fun sentinel_text :: "sentinel \<Rightarrow> string" where
  "sentinel_text ErrUnauthorized = ''unauthorized''"
| "sentinel_text ErrNoName = ''no name in OIDC info''"
| "sentinel_text ErrNoImpersonationConfig = ''no impersonation configuration in context''"
| "sentinel_text ErrReservedIdentity = ''reserved identity in authentication token''"
| "sentinel_text ErrorNoImpersonationUserFound = ''no Impersonation-User header found for request''"
| "sentinel_text ErrCreateSubjectAccessReview = ''create SubjectAccessReview''"
| "sentinel_text ErrImpersonationNotAllowed = ''not allowed to impersonate''"
| "sentinel_text ErrTooManyImpersonationHeaderValues = ''too many impersonation header values''"
| "sentinel_text ErrCanceled = ''context canceled''"
| "sentinel_text ErrDeadlineExceeded = ''context deadline exceeded''"
| "sentinel_text ErrEOF = ''EOF''"
| "sentinel_text ErrUnexpectedEOF = ''unexpected EOF''"
| "sentinel_text ErrAbortHandler = ''net/http: abort Handler''"
| "sentinel_text ErrServerClosed = ''http: Server closed''"
| "sentinel_text ErrNotSupported = ''feature not supported''"
| "sentinel_text ErrReported = ''error already reported on the log stream''"
| "sentinel_text (Errno n) = ''errno '' @ nat_digits n"

fun err_text :: "err \<Rightarrow> string" where
  "err_text (Sentinel s) = sentinel_text s"
| "err_text (NewError t) = t"
| "err_text (Errorf t _) = t"
| "err_text (ImpersonationAuthError r k t) = r @ '' is not allowed to impersonate '' @ k @ '' '' @ t"
| "err_text (NetError _ t _ _) = t"

text \<open>\<open>fmt.Errorf("%w: ...", sentinel, ...)\<close> and \<open>fmt.Errorf("%w: %w", sentinel, cause)\<close>.\<close>

definition wrap_text :: "sentinel \<Rightarrow> string \<Rightarrow> err" where
  "wrap_text s t = Errorf (sentinel_text s @ '': '' @ t) [Sentinel s]"

definition wrap_err :: "sentinel \<Rightarrow> err \<Rightarrow> err" where
  "wrap_err s e = Errorf (sentinel_text s @ '': '' @ err_text e) [Sentinel s, e]"

text \<open>\<open>errors.Join\<close>: nil when every argument is nil.\<close>

definition join_errors :: "err option list \<Rightarrow> err option" where
  "join_errors es = (let xs = List.map_filter id es in
     if xs = [] then None else Some (Errorf (join_with [char_of (10::nat)] (map err_text xs)) xs))"

lemma list_ex_map_filter_id: "list_ex P (List.map_filter id es) = (\<exists>e. Some e \<in> set es \<and> P e)"
  by (induction es) (auto simp: List.map_filter_def split: option.splits)

lemma join_errors_None: "join_errors es = None \<longleftrightarrow> (\<forall>e \<in> set es. e = None)"
  by (induction es) (auto simp: join_errors_def Let_def List.map_filter_def)

lemma join_errors_is: "join_errors es = Some j \<Longrightarrow> err_is j s \<longleftrightarrow> (\<exists>e. Some e \<in> set es \<and> err_is e s)"
  by (auto simp: join_errors_def Let_def list_ex_map_filter_id split: if_splits)

lemma err_is_wrap_text [simp]: "err_is (wrap_text s t) s' = (s = s')"
  by (simp add: wrap_text_def)

lemma err_is_wrap_err [simp]: "err_is (wrap_err s e) s' = (s = s' \<or> err_is e s')"
  by (simp add: wrap_err_def)

lemma as_auth_error_is: "as_auth_error e \<noteq> None \<Longrightarrow> err_is e ErrImpersonationNotAllowed"
proof (induction e rule: as_auth_error.induct)
  case (2 t es)
  then show ?case by (induction es) (auto split: option.splits)
next
  case (3 k t b es)
  then show ?case by (induction es) (auto split: option.splits)
qed auto

end
