(* ===== verification/Logging.thy ===== *)
theory Logging
  imports Events GoErrors "HOL-Library.AList" "HOL-Library.Multiset"
begin

text \<open>
  The structured logger of \<^verbatim>\<open>pkg/logging\<close>: sanitising and bounding of user-controlled values
  (\<^verbatim>\<open>sanitize.go\<close>), emission of registered events (\<^verbatim>\<open>logger.go\<close>, \<^verbatim>\<open>logcheck.go\<close>), the token-bucketed
  warnings (\<^verbatim>\<open>ratelimit.go\<close>) and the klog bridge (\<^verbatim>\<open>bridge.go\<close>).

  The log stream is part of the state: \<open>t_log\<close> of the record \<open>tele\<close> is the sequence of records
  written, oldest first. \<open>tele\<close> also holds the clock (\<open>t_now\<close>, nanoseconds) and the sequence of
  metric updates (\<open>t_met\<close>, filled by theory \<open>Metrics\<close>); later theories extend the record. A \<open>context\<close>
  argument that the logger reads only for its request id is that id, the empty string when none.
\<close>

section \<open>Sanitising\<close>

definition MaxRequestID :: int where "MaxRequestID = 64"
definition MaxErrorMessage :: int where "MaxErrorMessage = 512"
definition MaxIdentity :: int where "MaxIdentity = 256"
definition MaxGroups :: int where "MaxGroups = 32"

definition sanitize_rune :: "nat \<Rightarrow> nat option" where
  "sanitize_rune r = (if r = 10 \<or> r = 13 \<or> r = 9 then Some 32
                      else if is_control r then None else Some r)"

text \<open>\<open>strings.Map\<close> re-encodes the mapped runes, an ill-formed byte becoming U+FFFD.\<close>

definition Sanitize :: "string \<Rightarrow> string" where
  "Sanitize s = encode_runes (List.map_filter sanitize_rune (runes s))"

definition Bound :: "string \<Rightarrow> int \<Rightarrow> string" where
  "Bound s0 mx = (let s = Sanitize s0 in
     if mx \<le> 0 then s
     else if int (length (runes s)) \<le> mx then s
     else encode_runes (take (nat mx) (runes s)))"

text \<open>A nil slice and an empty one are both the empty list: \<open>len\<close> and \<open>range\<close> do not tell them apart.\<close>

definition SanitizeList :: "string list \<Rightarrow> string list" where
  "SanitizeList xs = map (\<lambda>v. Bound v MaxIdentity) xs"

definition BoundedList :: "string list \<Rightarrow> int \<Rightarrow> string list \<times> int" where
  "BoundedList xs mx =
     (if xs = [] then ([], 0)
      else let kept = (if mx > 0 \<and> int (length xs) > mx then nat mx else length xs) in
        (map (\<lambda>i. Bound (xs ! i) MaxIdentity) [0..<kept], int (length xs) - int kept))"

section \<open>Records and loggers\<close>

datatype attr_value =
    AStr string
  | AInt int
  | ABool bool
  | AStrs "string list"
  | AMap "(string \<times> string list) list"

type_synonym attr = "string \<times> attr_value"

definition ErrAttr :: "err option \<Rightarrow> attr" where
  "ErrAttr e = (case e of None \<Rightarrow> (''error_message'', AStr [])
                | Some e \<Rightarrow> (''error_message'', AStr (Bound (err_text e) MaxErrorMessage)))"

record log_record =
  lr_level :: level
  lr_msg :: string
  lr_component :: component
  lr_attrs :: "attr list"

text \<open>
  A logger is the discarding one or the root logger bound to a component; the root's handler has a
  floor below which it is not enabled.
\<close>

datatype logger = Discard | ForComponent level component

text \<open>An update of a collector: its family, its label values, and the gauge value or the observation.\<close>

datatype metric_op =
    MInc (family: string) (labels: "string list")
  | MDec (family: string) (labels: "string list")
  | MSet (family: string) (labels: "string list") int
  | MObserve (family: string) (labels: "string list") int

record tele =
  t_now :: int
  t_log :: "log_record list"
  t_met :: "metric_op list"

text \<open>\<open>Options.Validate\<close>, by the value of the format string.\<close>

definition log_options_validate :: "string \<Rightarrow> err option" where
  "log_options_validate f =
     (if f = [] \<or> f = ''json'' \<or> f = ''text'' then None
      else Some (NewError (''logging: unknown format '' @ go_quote f @ '', want '' @
                           go_quote ''json'' @ '' or '' @ go_quote ''text'')))"

definition LevelFor :: "int \<Rightarrow> level" where
  "LevelFor verbosity = (if verbosity \<ge> 1 then LevelDebug else LevelInfo)"

text \<open>The logger a subsystem gets from a root built with the given verbosity.\<close>

definition logger_for :: "int \<Rightarrow> component \<Rightarrow> logger" where
  "logger_for verbosity c = ForComponent (LevelFor verbosity) c"

fun logger_enabled :: "logger \<Rightarrow> level \<Rightarrow> bool" where
  "logger_enabled Discard l = False"
| "logger_enabled (ForComponent floor _) l = (floor \<le> l)"

fun hasAttr :: "attr list \<Rightarrow> string \<Rightarrow> bool" where
  "hasAttr [] key = False"
| "hasAttr (a # as) key = (if fst a = key then True else hasAttr as key)"

definition withContextRequestID :: "string \<Rightarrow> event_spec \<Rightarrow> attr list \<Rightarrow> attr list" where
  "withContextRequestID rid spec attrs =
     (if ''request_id'' \<notin> set (Required spec) \<or> hasAttr attrs ''request_id'' then attrs
      else if rid = [] then attrs
      else attrs @ [(''request_id'', AStr rid)])"

text \<open>\<open>hasNonEmpty\<close> and \<open>checkRequired\<close> (built with the tag logcheck): the first attribute with the key decides.\<close>

fun hasNonEmpty :: "attr list \<Rightarrow> string \<Rightarrow> bool" where
  "hasNonEmpty [] key = False"
| "hasNonEmpty (a # as) key =
     (if fst a \<noteq> key then hasNonEmpty as key
      else case snd a of AStr v \<Rightarrow> trim_space v \<noteq> [] | _ \<Rightarrow> True)"

definition checkRequired :: "event_spec \<Rightarrow> attr list \<Rightarrow> bool" where
  "checkRequired spec attrs = list_all (hasNonEmpty attrs) (Required spec)"

fun LogAttrs :: "logger \<Rightarrow> level \<Rightarrow> string \<Rightarrow> attr list \<Rightarrow> 'a tele_scheme \<Rightarrow> 'a tele_scheme" where
  "LogAttrs Discard lv msg attrs s = s"
| "LogAttrs (ForComponent floor c) lv msg attrs s =
     s\<lparr>t_log := t_log s @ [\<lparr>lr_level = lv, lr_msg = msg, lr_component = c, lr_attrs = attrs\<rparr>]\<rparr>"

text \<open>
  The zero \<open>EventSpec\<close> stands for a failed registry lookup, which \<open>EmitLevel\<close> ignores; \<open>Emit\<close> panics on
  it, the value \<open>None\<close> of \<open>EmitChecked\<close>.
\<close>

definition spec_or_zero :: "event_type \<Rightarrow> event_spec" where
  "spec_or_zero e = (case Spec e of Some s \<Rightarrow> s | None \<Rightarrow> event_spec_for None 0 [] [] [])"

definition EmitLevel ::
  "string \<Rightarrow> logger \<Rightarrow> event_type \<Rightarrow> level \<Rightarrow> attr list \<Rightarrow> 'a tele_scheme \<Rightarrow> 'a tele_scheme" where
  "EmitLevel rid l e lv attrs0 s =
     (let spec = spec_or_zero e; attrs = withContextRequestID rid spec attrs0 in
      if \<not> logger_enabled l lv then s
      else LogAttrs l lv (Message spec) ((''event_type'', AStr (event_name e)) # attrs) s)"

definition EmitChecked ::
  "string \<Rightarrow> logger \<Rightarrow> event_type \<Rightarrow> attr list \<Rightarrow> 'a tele_scheme \<Rightarrow> 'a tele_scheme option" where
  "EmitChecked rid l e attrs s = (case Spec e of
     None \<Rightarrow> None
   | Some spec \<Rightarrow> Some (EmitLevel rid l e (Level spec) attrs s))"

definition Emit ::
  "string \<Rightarrow> logger \<Rightarrow> event_type \<Rightarrow> attr list \<Rightarrow> 'a tele_scheme \<Rightarrow> 'a tele_scheme" where
  "Emit rid l e attrs s = (case EmitChecked rid l e attrs s of Some s' \<Rightarrow> s' | None \<Rightarrow> s)"

section \<open>Rate-limited warnings\<close>

text \<open>
  The bucket (\<open>rate.Limiter\<close> of golang.org/x/time, built with the limiter's rate and burst) is a
  parameter: whether \<open>AllowN(now, 1)\<close> admits, as a function of the instants at which the bucket was
  asked before. An entry keeps that history and the drop count.
\<close>

type_synonym rate_limiter = "int list \<Rightarrow> int \<Rightarrow> bool"

record limiter_entry =
  le_asked :: "int list"
  le_dropped :: int

record limiter =
  lim_summaryEvery :: int
  lim_entries :: "(string \<times> limiter_entry) list"

definition NewLimiter :: "int \<Rightarrow> limiter" where
  "NewLimiter summaryEvery = \<lparr>lim_summaryEvery = summaryEvery, lim_entries = []\<rparr>"

definition limiter_entry_for :: "limiter \<Rightarrow> string \<Rightarrow> limiter_entry" where
  "limiter_entry_for l reason = (case map_of (lim_entries l) reason of
     Some e \<Rightarrow> e | None \<Rightarrow> \<lparr>le_asked = [], le_dropped = 0\<rparr>)"

text \<open>\<open>Allow\<close>: a nil limiter (\<open>None\<close>) allows everything.\<close>

definition Allow :: "rate_limiter \<Rightarrow> int \<Rightarrow> string \<Rightarrow> limiter option \<Rightarrow> bool \<times> limiter option" where
  "Allow bucket now reason lo = (case lo of
     None \<Rightarrow> (True, None)
   | Some l \<Rightarrow>
       let entry = limiter_entry_for l reason;
           ok = bucket (le_asked entry) now;
           asked = entry\<lparr>le_asked := le_asked entry @ [now]\<rparr>;
           entry' = (if ok then asked else asked\<lparr>le_dropped := le_dropped entry + 1\<rparr>) in
       (ok, Some (l\<lparr>lim_entries := AList.update reason entry' (lim_entries l)\<rparr>)))"

definition drain :: "limiter \<Rightarrow> (string \<times> int) list \<times> limiter" where
  "drain l =
     (sort_key fst (map (\<lambda>(r, e). (r, le_dropped e))
        (filter (\<lambda>(r, e). le_dropped e \<noteq> 0) (lim_entries l))),
      l\<lparr>lim_entries := map (\<lambda>(r, e). (r, e\<lparr>le_dropped := 0\<rparr>)) (lim_entries l)\<rparr>)"

definition suppressed_attrs :: "limiter \<Rightarrow> string \<times> int \<Rightarrow> attr list" where
  "suppressed_attrs l sp =
     [(''warning_reason'', AStr (Sanitize (fst sp))),
      (''suppressed_count'', AInt (snd sp)),
      (''interval_seconds'', AInt (lim_summaryEvery l div 1000000000))]"

definition Flush ::
  "string \<Rightarrow> logger option \<Rightarrow> limiter option \<Rightarrow> 'a tele_scheme \<Rightarrow> limiter option \<times> 'a tele_scheme" where
  "Flush rid lgo lo s = (case (lo, lgo) of
     (Some l, Some lg) \<Rightarrow>
       let (out, l') = drain l in
       (Some l', fold (\<lambda>sp. Emit rid lg EventLogWarningSuppressed (suppressed_attrs l sp)) out s)
   | _ \<Rightarrow> (lo, s))"

section \<open>The klog bridge\<close>

text \<open>A bridged record: its level, its message and its attributes; the inner handler has a floor.\<close>

record bridge_handler =
  br_floor :: level
  br_verbosity :: int

definition bridge_Enabled :: "bridge_handler \<Rightarrow> level \<Rightarrow> bool" where
  "bridge_Enabled b l = (if l < LevelInfo then - l \<le> br_verbosity b else br_floor b \<le> l)"

definition bridge_Handle :: "level \<times> string \<times> attr list \<Rightarrow> level \<times> string \<times> attr list" where
  "bridge_Handle r = (case r of (l, m, as) \<Rightarrow>
     (if l < LevelInfo then LevelDebug else l, m, as @ [(''component'', AStr (component_name ComponentK8s))]))"

definition InstallKlogBridge :: "int \<Rightarrow> bridge_handler" where
  "InstallKlogBridge verbosity = \<lparr>br_floor = LevelFor verbosity, br_verbosity = verbosity\<rparr>"

section \<open>Sanitised values are safe to write\<close>

lemma map_filter_valid:
  "\<forall>r \<in> set rs. valid_rune r \<Longrightarrow> \<forall>r \<in> set (List.map_filter sanitize_rune rs). valid_rune r \<and> \<not> is_control r"
  by (induction rs)
     (auto simp: List.map_filter_def sanitize_rune_def valid_rune_def is_control_def split: if_splits option.splits)

lemma runes_Sanitize: "runes (Sanitize s) = List.map_filter sanitize_rune (runes s)"
  unfolding Sanitize_def using map_filter_valid [OF runes_valid] by (intro runes_encode_runes) blast

lemma runes_Sanitize_safe: "r \<in> set (runes (Sanitize s)) \<Longrightarrow> valid_rune r \<and> \<not> is_control r"
  unfolding runes_Sanitize using map_filter_valid [OF runes_valid] by blast

lemma map_filter_sanitize_id:
  "\<forall>r \<in> set rs. \<not> is_control r \<Longrightarrow> List.map_filter sanitize_rune rs = rs"
  by (induction rs) (auto simp: List.map_filter_def sanitize_rune_def is_control_def split: option.splits)

lemma Sanitize_idem: "Sanitize (Sanitize s) = Sanitize s"
proof -
  have "List.map_filter sanitize_rune (runes (Sanitize s)) = runes (Sanitize s)"
    using runes_Sanitize_safe by (intro map_filter_sanitize_id) blast
  then have "Sanitize (Sanitize s) = encode_runes (runes (Sanitize s))"
    by (subst Sanitize_def) simp
  also have "\<dots> = Sanitize s"
    by (simp add: runes_Sanitize) (simp add: Sanitize_def)
  finally show ?thesis .
qed

lemma runes_take_Sanitize: "runes (encode_runes (take n (runes (Sanitize s)))) = take n (runes (Sanitize s))"
  using runes_Sanitize_safe in_set_takeD by (intro runes_encode_runes) fast

lemma runes_Bound:
  "runes (Bound s mx) = (if mx \<le> 0 then runes (Sanitize s) else take (nat mx) (runes (Sanitize s)))"
  by (auto simp: Bound_def Let_def runes_take_Sanitize)

lemma runes_Bound_safe: "r \<in> set (runes (Bound s mx)) \<Longrightarrow> \<not> is_control r"
  using runes_Sanitize_safe in_set_takeD by (fastforce simp: runes_Bound split: if_splits)

lemma length_runes_Bound: "0 < mx \<Longrightarrow> int (length (runes (Bound s mx))) \<le> mx"
  by (simp add: runes_Bound)

lemma ascii_plain_Sanitize:
  assumes "\<forall>c \<in> set s. 32 \<le> byte_of c \<and> byte_of c < 127"
  shows "Sanitize s = s"
proof -
  have r: "runes s = map byte_of s" using assms by (intro runes_ascii) auto
  have "List.map_filter sanitize_rune (map byte_of s) = map byte_of s"
    using assms by (intro map_filter_sanitize_id) (auto simp: is_control_def)
  moreover have "encode_runes (map byte_of s) = s"
    using assms by (induction s) (auto simp: encode_rune_def encode_valid_def valid_rune_def)
  ultimately show ?thesis by (simp add: Sanitize_def r)
qed

lemma BoundedList_length:
  assumes "0 < mx"
  shows "int (length (fst (BoundedList xs mx))) \<le> mx"
    and "int (length (fst (BoundedList xs mx))) + snd (BoundedList xs mx) = int (length xs)"
  using assms by (auto simp: BoundedList_def Let_def)

lemma BoundedList_take:
  assumes "0 < mx"
  shows "fst (BoundedList xs mx) = map (\<lambda>v. Bound v MaxIdentity) (take (nat mx) xs)"
proof -
  have "map (\<lambda>i. f (xs ! i)) [0..<k] = map f (take k xs)" if "k \<le> length xs" for k and f :: "string \<Rightarrow> string"
    using that by (intro nth_equalityI) auto
  from this [of _ "\<lambda>v. Bound v MaxIdentity"] show ?thesis
    using assms by (auto simp: BoundedList_def Let_def)
qed

section \<open>Emission\<close>

lemma EmitChecked_total: "EmitChecked rid l e attrs s = Some (Emit rid l e attrs s)"
  using Spec_registered [of e] by (auto simp: Emit_def EmitChecked_def)

lemma Emit_EmitLevel: "Emit rid l e attrs s = EmitLevel rid l e (Level (spec_or_zero e)) attrs s"
  using Spec_registered [of e] by (auto simp: Emit_def EmitChecked_def spec_or_zero_def)

lemma Emit_Discard [simp]: "Emit rid Discard e as s = s"
  by (simp add: Emit_EmitLevel EmitLevel_def Let_def)

lemma LogAttrs_frame [frame]:
  "t_now (LogAttrs l lv m as s) = t_now s" "t_met (LogAttrs l lv m as s) = t_met s"
  "tele.more (LogAttrs l lv m as s) = tele.more s"
  by (cases l; simp)+

lemma EmitLevel_frame [frame]:
  "t_now (EmitLevel rid l e lv as s) = t_now s" "t_met (EmitLevel rid l e lv as s) = t_met s"
  "tele.more (EmitLevel rid l e lv as s) = tele.more s"
  by (simp_all add: EmitLevel_def Let_def frame)

lemma Emit_frame [frame]:
  "t_now (Emit rid l e as s) = t_now s" "t_met (Emit rid l e as s) = t_met s"
  "tele.more (Emit rid l e as s) = tele.more s"
  by (simp_all add: Emit_EmitLevel frame)

text \<open>The records of an event, and the values of a key in a record.\<close>

definition records_of :: "event_type \<Rightarrow> log_record list \<Rightarrow> log_record list" where
  "records_of e log = filter (\<lambda>r. map_of (lr_attrs r) ''event_type'' = Some (AStr (event_name e))) log"

lemma records_of_append [simp]: "records_of e (a @ b) = records_of e a @ records_of e b"
  by (simp add: records_of_def)

definition emits :: "logger \<Rightarrow> event_type \<Rightarrow> bool" where
  "emits l e = logger_enabled l (Level (spec_or_zero e))"

lemma t_log_Emit:
  "t_log (Emit rid l e as s) = t_log s @ (case l of Discard \<Rightarrow> []
     | ForComponent f c \<Rightarrow> if emits l e then
         [\<lparr>lr_level = Level (spec_or_zero e), lr_msg = Message (spec_or_zero e), lr_component = c,
           lr_attrs = (''event_type'', AStr (event_name e)) # withContextRequestID rid (spec_or_zero e) as\<rparr>] else [])"
  by (cases l) (simp_all add: Emit_EmitLevel EmitLevel_def Let_def emits_def)

lemma t_log_EmitLevel:
  "t_log (EmitLevel rid l e lv as s) = t_log s @ (case l of Discard \<Rightarrow> []
     | ForComponent f c \<Rightarrow> if f \<le> lv then
         [\<lparr>lr_level = lv, lr_msg = Message (spec_or_zero e), lr_component = c,
           lr_attrs = (''event_type'', AStr (event_name e)) # withContextRequestID rid (spec_or_zero e) as\<rparr>] else [])"
  by (cases l) (simp_all add: EmitLevel_def Let_def)

lemma records_of_Emit:
  "records_of e (t_log (Emit rid l e' as s)) = records_of e (t_log s) @
     (if e = e' then t_log (Emit rid l e' as (s\<lparr>t_log := []\<rparr>)) else [])"
  using inj_eq [OF event_name_inj, of e e'] by (auto simp: t_log_Emit records_of_def split: logger.splits)

lemma records_of_EmitLevel_other:
  "e \<noteq> e' \<Longrightarrow> records_of e (t_log (EmitLevel rid l e' lv as s)) = records_of e (t_log s)"
  using inj_eq [OF event_name_inj, of e e'] by (auto simp: t_log_EmitLevel records_of_def split: logger.splits)

text \<open>What \<open>Emit\<close> adds to the log stream.\<close>

definition emitted :: "string \<Rightarrow> logger \<Rightarrow> event_type \<Rightarrow> attr list \<Rightarrow> log_record list" where
  "emitted rid l e as = (case l of Discard \<Rightarrow> []
     | ForComponent f c \<Rightarrow> if emits l e then
         [\<lparr>lr_level = Level (spec_or_zero e), lr_msg = Message (spec_or_zero e), lr_component = c,
           lr_attrs = (''event_type'', AStr (event_name e)) # withContextRequestID rid (spec_or_zero e) as\<rparr>] else [])"

lemma t_log_emitted: "t_log (Emit rid l e as s) = t_log s @ emitted rid l e as"
  by (simp only: t_log_Emit emitted_def)

lemma hasAttr_iff: "hasAttr as k \<longleftrightarrow> k \<in> fst ` set as"
  by (induction as) auto

text \<open>A caller that passes each key at most once gets a record that carries the request id at most once.\<close>

lemma withContextRequestID_distinct:
  "distinct (map fst as) \<Longrightarrow> distinct (map fst (withContextRequestID rid spec as))"
  by (auto simp: withContextRequestID_def hasAttr_iff)

section \<open>What the limiter drops is reported\<close>

text \<open>
  A run of a limiter: each \<open>Ask\<close> is a warning offered with a reason at an instant, each \<open>Report\<close> a
  flush. The trace keeps the reasons refused and the summaries reported.
\<close>

datatype limiter_op = Ask string int | Report

fun limiter_run ::
  "rate_limiter \<Rightarrow> limiter_op list \<Rightarrow> limiter \<Rightarrow> string list \<times> (string \<times> int) list \<times> limiter" where
  "limiter_run bucket [] l = ([], [], l)"
| "limiter_run bucket (Ask r now # ops) l =
     (case Allow bucket now r (Some l) of (ok, lo) \<Rightarrow>
        (case limiter_run bucket ops (the lo) of (refused, reported, l') \<Rightarrow>
           (if ok then refused else r # refused, reported, l')))"
| "limiter_run bucket (Report # ops) l =
     (case drain l of (out, l1) \<Rightarrow>
        (case limiter_run bucket ops l1 of (refused, reported, l') \<Rightarrow> (refused, out @ reported, l')))"

definition pending :: "limiter \<Rightarrow> string \<Rightarrow> int" where
  "pending l r = le_dropped (limiter_entry_for l r)"

definition reported_for :: "(string \<times> int) list \<Rightarrow> string \<Rightarrow> int" where
  "reported_for rs r = sum_list (map snd (filter (\<lambda>x. fst x = r) rs))"

definition wf_limiter :: "limiter \<Rightarrow> bool" where
  "wf_limiter l = (distinct (map fst (lim_entries l)) \<and> (\<forall>(r, e) \<in> set (lim_entries l). 0 \<le> le_dropped e))"

lemma wf_NewLimiter: "wf_limiter (NewLimiter d)"
  by (simp add: wf_limiter_def NewLimiter_def)

lemma reported_for_append [simp]: "reported_for (xs @ ys) r = reported_for xs r + reported_for ys r"
  by (simp add: reported_for_def)

lemma limiter_entry_for_update [simp]:
  "limiter_entry_for (l\<lparr>lim_entries := AList.update r e (lim_entries l)\<rparr>) r' =
     (if r' = r then e else limiter_entry_for l r')"
  by (simp add: limiter_entry_for_def update_conv')

lemma pending_nonneg: "wf_limiter l \<Longrightarrow> 0 \<le> pending l r"
  by (auto simp: wf_limiter_def pending_def limiter_entry_for_def split: option.splits dest!: map_of_SomeD)

lemma set_update_le: "set (AList.update k v xs) \<subseteq> insert (k, v) (set xs)"
  by (induction xs) auto

lemma wf_Allow:
  assumes "wf_limiter l"
  shows "wf_limiter (the (snd (Allow bucket now r (Some l))))"
  using assms pending_nonneg [OF assms, of r]
  by (auto simp: Allow_def Let_def wf_limiter_def pending_def distinct_update
      dest!: set_mp [OF set_update_le] split: if_splits)

lemma pending_Allow:
  "pending (the (snd (Allow bucket now r (Some l)))) r' =
     pending l r' + (if r = r' \<and> \<not> fst (Allow bucket now r (Some l)) then 1 else 0)"
  by (auto simp: Allow_def Let_def pending_def)

lemma wf_drain: "wf_limiter l \<Longrightarrow> wf_limiter (snd (drain l))"
  by (auto simp: wf_limiter_def drain_def comp_def case_prod_beta)

lemma map_of_map_snd: "map_of (map (\<lambda>(k, v). (k, f v)) xs) k = map_option f (map_of xs k)"
  by (induction xs) auto

lemma pending_drain [simp]: "pending (snd (drain l)) r = 0"
  by (simp add: drain_def pending_def limiter_entry_for_def map_of_map_snd split: option.splits)

lemma reported_for_entries:
  "distinct (map fst es) \<Longrightarrow>
   reported_for (map (\<lambda>(r, e). (r, le_dropped e)) (filter (\<lambda>(r, e). le_dropped e \<noteq> 0) es)) r =
     (case map_of es r of Some e \<Rightarrow> le_dropped e | None \<Rightarrow> 0)"
proof (induction es)
  case (Cons x es)
  have "r \<notin> fst ` set es \<Longrightarrow> map_of es r = None" by (simp add: map_of_eq_None_iff)
  with Cons show ?case by (cases x) (auto simp: reported_for_def split: option.splits)
qed (simp add: reported_for_def)

lemma reported_for_sort: "reported_for (sort_key fst xs) r = reported_for xs r"
proof -
  have "mset (map snd (filter (\<lambda>x. fst x = r) (sort_key fst xs))) = mset (map snd (filter (\<lambda>x. fst x = r) xs))"
    by (simp add: mset_filter)
  then show ?thesis unfolding reported_for_def by (metis sum_mset_sum_list)
qed

lemma reported_for_drain: "wf_limiter l \<Longrightarrow> reported_for (fst (drain l)) r = pending l r"
  by (auto simp: drain_def reported_for_sort reported_for_entries wf_limiter_def pending_def
      limiter_entry_for_def split: option.splits)

lemma limiter_run_conserves:
  assumes "wf_limiter l" "limiter_run bucket ops l = (refused, reported, l')"
  shows "pending l r + int (count_list refused r) = reported_for reported r + pending l' r"
  using assms
proof (induction ops arbitrary: l refused reported l')
  case Nil
  then show ?case by (simp add: reported_for_def)
next
  case (Cons op ops)
  show ?case
  proof (cases op)
    case (Ask r0 now)
    obtain ok lo where a: "Allow bucket now r0 (Some l) = (ok, lo)" by fastforce
    obtain rf rp lf where b: "limiter_run bucket ops (the lo) = (rf, rp, lf)" by (metis prod_cases3)
    have "pending (the lo) r + int (count_list rf r) = reported_for rp r + pending lf r"
      using Cons.IH [OF _ b] wf_Allow [OF Cons.prems(1), of bucket now r0] a by simp
    then show ?thesis
      using Cons.prems(2) pending_Allow [of bucket now r0 l r] a b Ask by (auto split: if_splits)
  next
    case Report
    obtain out l1 where a: "drain l = (out, l1)" by fastforce
    obtain rf rp lf where b: "limiter_run bucket ops l1 = (rf, rp, lf)" by (metis prod_cases3)
    have "pending l1 r + int (count_list rf r) = reported_for rp r + pending lf r"
      using Cons.IH [OF _ b] wf_drain [OF Cons.prems(1)] a by simp
    then show ?thesis
      using Cons.prems reported_for_drain [OF Cons.prems(1), of r] pending_drain [of l r] a b Report by auto
  qed
qed

lemma limiter_run_wf: "wf_limiter l \<Longrightarrow> limiter_run bucket ops l = (refused, reported, l') \<Longrightarrow> wf_limiter l'"
proof (induction ops arbitrary: l refused reported)
  case (Cons op ops)
  show ?case
  proof (cases op)
    case (Ask r0 now)
    have "limiter_run bucket ops (the (snd (Allow bucket now r0 (Some l)))) = (fst (limiter_run bucket ops (the (snd (Allow bucket now r0 (Some l))))), reported, l')"
      using Cons.prems(2) Ask by (auto split: prod.splits)
    then show ?thesis by (rule Cons.IH [OF wf_Allow [OF Cons.prems(1)]])
  next
    case Report
    have "limiter_run bucket ops (snd (drain l)) = (refused, fst (snd (limiter_run bucket ops (snd (drain l)))), l')"
      using Cons.prems(2) Report by (auto split: prod.splits)
    then show ?thesis by (rule Cons.IH [OF wf_drain [OF Cons.prems(1)]])
  qed
qed simp

text \<open>
  C37. No dropped warning goes unreported. Over any interleaving of offered warnings and flushes, for every
  reason the number of warnings the limiter refused is the number the \<open>log.warning.suppressed\<close> summaries
  reported plus the number still to be reported, and the latter is 0 right after a flush.
\<close>

theorem suppressed_warnings_are_accounted_for:
  assumes "limiter_run bucket ops (NewLimiter d) = (refused, reported, l')"
  shows "int (count_list refused r) = reported_for reported r + pending l' r \<and> 0 \<le> pending l' r \<and>
    reported_for (fst (drain l')) r = pending l' r \<and> pending (snd (drain l')) r = 0"
proof -
  have "wf_limiter l'" by (rule limiter_run_wf [OF wf_NewLimiter assms])
  moreover have "pending (NewLimiter d) r = 0" by (simp add: pending_def NewLimiter_def limiter_entry_for_def)
  ultimately show ?thesis
    using limiter_run_conserves [OF wf_NewLimiter assms, of r] pending_nonneg reported_for_drain by simp
qed

theorem suppressed_warnings_are_accounted_for_witness:
  "reported_for (fst (snd (limiter_run (\<lambda>asked _. asked = []) [Ask ''x'' 0, Ask ''x'' 1, Ask ''x'' 2, Report] (NewLimiter 60)))) ''x'' = 2"
proof -
  let ?run = "limiter_run (\<lambda>asked _. asked = []) [Ask ''x'' 0, Ask ''x'' 1, Ask ''x'' 2, Report] (NewLimiter 60)"
  obtain refused reported l' where run: "?run = (refused, reported, l')" by (metis prod_cases3)
  have "refused = [''x'', ''x'']" "pending l' ''x'' = 0"
    using run by (auto simp: Allow_def NewLimiter_def limiter_entry_for_def Let_def drain_def pending_def)
  with suppressed_warnings_are_accounted_for [OF run, of "''x''"] run show ?thesis by simp
qed

end
