(* ===== verification/Metrics.thy ===== *)
theory Metrics
  imports Logging
begin

text \<open>
  The metrics recorder of \<^verbatim>\<open>pkg/metrics\<close>: the projections of \<^verbatim>\<open>labels.go\<close>, the catalogue with its closed
  label vocabularies (\<^verbatim>\<open>catalogue.go\<close>), the recorder's methods (\<^verbatim>\<open>request.go\<close>, \<^verbatim>\<open>authn.go\<close>, \<^verbatim>\<open>review.go\<close>,
  \<^verbatim>\<open>probe.go\<close>, \<^verbatim>\<open>audit.go\<close>, \<^verbatim>\<open>recorder.go\<close>) and the terminal error of the metrics listener
  (\<^verbatim>\<open>server.go\<close>). Collectors are third-party: an update of one is an element of \<open>t_met\<close>, and a gauge's
  value is what its updates add up to. The theorems: no recorder method can put a label value outside
  the published vocabulary on a family, whatever strings it is given.
\<close>

section \<open>Label projections\<close>

definition other :: string where "other = ''other''"

definition all_verbs :: "string list" where
  "all_verbs = [''get'', ''list'', ''watch'', ''create'', ''update'', ''patch'', ''delete'',
     ''deletecollection'', ''proxy'', ''connect'']"

text \<open>The fields of \<open>genericapirequest.RequestInfo\<close> the proxy reads.\<close>

record request_info =
  IsResourceRequest :: bool
  Verb :: string
  APIGroup :: string
  APIVersion :: string
  Namespace :: string
  Resource :: string
  Subresource :: string
  Name :: string
  Path :: string

definition isConnectSubresource :: "string \<Rightarrow> bool" where
  "isConnectSubresource s = (s \<in> {''exec'', ''attach'', ''portforward'', ''log'', ''proxy''})"

definition projectVerb :: "string \<Rightarrow> string" where
  "projectVerb v = (if v \<in> set all_verbs then v else other)"

definition VerbFor :: "request_info option \<Rightarrow> string" where
  "VerbFor io = (case io of
     None \<Rightarrow> other
   | Some info \<Rightarrow>
       if \<not> IsResourceRequest info then (if Verb info = ''get'' then ''get'' else other)
       else if isConnectSubresource (Subresource info) then ''connect''
       else projectVerb (Verb info))"

definition ScopeFor :: "request_info option \<Rightarrow> string" where
  "ScopeFor io = (case io of
     None \<Rightarrow> ''none''
   | Some info \<Rightarrow>
       if \<not> IsResourceRequest info then ''none''
       else if Name info \<noteq> [] \<or> Verb info = ''create'' then ''resource''
       else if Namespace info \<noteq> [] then ''namespace''
       else ''cluster'')"

definition projectScope :: "string \<Rightarrow> string" where
  "projectScope s = (if s \<in> {''cluster'', ''namespace'', ''resource'', ''none''} then s else ''none'')"

text \<open>The statuses \<open>http.StatusText\<close> has a text for.\<close>

definition has_status_text :: "int \<Rightarrow> bool" where
  "has_status_text c =
     ((100 \<le> c \<and> c \<le> 103) \<or> (200 \<le> c \<and> c \<le> 208) \<or> c = 226 \<or> (300 \<le> c \<and> c \<le> 305) \<or> c = 307 \<or> c = 308
      \<or> (400 \<le> c \<and> c \<le> 418) \<or> (421 \<le> c \<and> c \<le> 426) \<or> c = 428 \<or> c = 429 \<or> c = 431 \<or> c = 451
      \<or> (500 \<le> c \<and> c \<le> 508) \<or> c = 510 \<or> c = 511)"

definition CodeFor :: "int \<Rightarrow> string" where
  "CodeFor status = (if status = 0 then ''none''
                     else if \<not> has_status_text status then other else itoa status)"

definition all_terminations :: "string list" where
  "all_terminations = [''normal'', ''hijacked'', ''client_cancel'', ''panic'',
     ''upstream_timeout'', ''upstream_reset'', ''proxy_error'']"

definition projectTermination :: "string \<Rightarrow> string" where
  "projectTermination v = (if v \<in> set all_terminations then v else other)"

definition projectAuthMethod :: "string \<Rightarrow> string" where
  "projectAuthMethod v = (if v \<in> {''oidc'', ''tokenreview'', ''none''} then v else other)"

definition all_reasons :: "string list" where
  "all_reasons = ['''', ''unauthorized'', ''reserved_identity'', ''no_username_claim'',
     ''impersonation_denied'', ''too_many_impersonation_values'', ''client_canceled'',
     ''internal_error'', ''upstream_error'', ''authentication_dependency_error'']"

definition projectReason :: "string \<Rightarrow> string" where
  "projectReason v = (if v \<in> set all_reasons then v else other)"

definition projectAuthOutcome :: "string \<Rightarrow> string" where
  "projectAuthOutcome v = (if v \<in> {''accepted'', ''rejected'', ''error''} then v else other)"

definition projectReview :: "string \<Rightarrow> string" where
  "projectReview v = (if v \<in> {''tokenreview'', ''sar''} then v else other)"

text \<open>\<open>apierrors.IsTimeout\<close> is the Kubernetes client library's: a parameter.\<close>

definition ReviewOutcomeFor :: "(err \<Rightarrow> bool) \<Rightarrow> err option \<Rightarrow> bool \<Rightarrow> string" where
  "ReviewOutcomeFor isTimeout eo allowed = (case eo of
     None \<Rightarrow> if allowed then ''allow'' else ''deny''
   | Some e \<Rightarrow>
       if err_is e ErrDeadlineExceeded then ''timeout''
       else if as_net_error e = Some True then ''timeout''
       else if isTimeout e then ''timeout''
       else if err_is e ErrCanceled then ''canceled''
       else ''error'')"

definition projectReviewOutcome :: "string \<Rightarrow> string" where
  "projectReviewOutcome v = (if v \<in> {''allow'', ''deny'', ''timeout'', ''canceled'', ''error''} then v else other)"

definition projectCacheResult :: "string \<Rightarrow> string" where
  "projectCacheResult v = (if v \<in> {''hit'', ''miss'', ''bypass''} then v else other)"

definition projectAuditOperation :: "string \<Rightarrow> string" where
  "projectAuditOperation v = (if v \<in> {''run'', ''shutdown''} then v else other)"

section \<open>The catalogue\<close>

abbreviation metric_name :: "string \<Rightarrow> string" where
  "metric_name n \<equiv> ''kube_oidc_proxy'' @ n"

definition "nameBuildInfo = metric_name ''_build_info''"
definition "nameRequestsTotal = metric_name ''_requests_total''"
definition "nameRequestDuration = metric_name ''_request_duration_seconds''"
definition "nameRequestsInFlight = metric_name ''_requests_in_flight''"
definition "nameLongRunningRequests = metric_name ''_long_running_requests''"
definition "nameAuthnAttempts = metric_name ''_authentication_attempts_total''"
definition "nameAccessDecisions = metric_name ''_access_decisions_total''"
definition "nameReviewRequests = metric_name ''_review_requests_total''"
definition "nameReviewDuration = metric_name ''_review_request_duration_seconds''"
definition "nameCacheLookups = metric_name ''_cache_lookups_total''"
definition "nameIssuerInitialized = metric_name ''_oidc_issuer_initialized''"
definition "nameReady = metric_name ''_ready''"
definition "nameAuditBackendFailures = metric_name ''_audit_backend_failures_total''"

lemmas metric_names = nameBuildInfo_def nameRequestsTotal_def nameRequestDuration_def
  nameRequestsInFlight_def nameLongRunningRequests_def nameAuthnAttempts_def nameAccessDecisions_def
  nameReviewRequests_def nameReviewDuration_def nameCacheLookups_def nameIssuerInitialized_def
  nameReady_def nameAuditBackendFailures_def

text \<open>An entry of the catalogue: name, type and label names (stability and help are documentation).\<close>

datatype metric_type = Counter | Gauge | Histogram

definition catalogue :: "(string \<times> metric_type \<times> string list) list" where
  "catalogue = [
    (nameBuildInfo, Gauge, [''version'', ''revision'', ''go_version'']),
    (nameRequestsTotal, Counter, [''k8s_verb'', ''scope'', ''code'', ''termination'']),
    (nameRequestDuration, Histogram, [''k8s_verb'', ''scope'']),
    (nameRequestsInFlight, Gauge, []),
    (nameLongRunningRequests, Gauge, [''k8s_verb'', ''scope'']),
    (nameAuthnAttempts, Counter, [''auth_method'', ''outcome'']),
    (nameAccessDecisions, Counter, [''auth_method'', ''decision'', ''reason'']),
    (nameReviewRequests, Counter, [''review'', ''outcome'']),
    (nameReviewDuration, Histogram, [''review'', ''outcome'']),
    (nameCacheLookups, Counter, [''cache'', ''result'']),
    (nameIssuerInitialized, Gauge, [''issuer_name'']),
    (nameReady, Gauge, []),
    (nameAuditBackendFailures, Counter, [''operation''])]"

text \<open>\<open>spec\<close> panics on a name that is not in the catalogue: \<open>None\<close>.\<close>

definition metric_spec :: "string \<Rightarrow> (metric_type \<times> string list) option" where
  "metric_spec name = map_of catalogue name"

definition allowedCodes :: "string list" where
  "allowedCodes = [''none'', other] @
     filter (\<lambda>code. code \<noteq> other) (map (\<lambda>status. CodeFor (int status)) [100..<600])"

definition allowedValuesFor :: "string \<Rightarrow> string \<Rightarrow> string list option" where
  "allowedValuesFor fam label =
     (if fam = nameBuildInfo then None
      else if fam = nameIssuerInitialized then None
      else if label = ''k8s_verb'' then Some (all_verbs @ [other])
      else if label = ''scope'' then Some [''cluster'', ''namespace'', ''resource'', ''none'']
      else if label = ''code'' then Some allowedCodes
      else if label = ''termination'' then Some (all_terminations @ [other])
      else if label = ''auth_method'' then Some [''oidc'', ''tokenreview'', ''none'', other]
      else if label = ''decision'' then Some [''allow'', ''deny'']
      else if label = ''reason'' then Some (all_reasons @ [other])
      else if label = ''review'' \<or> label = ''cache'' then Some [''tokenreview'', ''sar'', other]
      else if label = ''result'' then Some [''hit'', ''miss'', ''bypass'', other]
      else if label = ''operation'' then Some [''run'', ''shutdown'', other]
      else if label = ''outcome'' then
        (if fam = nameAuthnAttempts then Some [''accepted'', ''rejected'', ''error'', other]
         else Some [''allow'', ''deny'', ''timeout'', ''canceled'', ''error'', other])
      else None)"

definition AllowedValues :: "string \<Rightarrow> string list \<Rightarrow> (string \<times> string list) list" where
  "AllowedValues fam ls = List.map_filter (\<lambda>l. map_option (Pair l) (allowedValuesFor fam l)) ls"

section \<open>The recorder\<close>

text \<open>A nil recorder is a valid no-op recorder.\<close>

datatype recorder = NilRecorder | Recorder

definition record_ops :: "recorder \<Rightarrow> metric_op list \<Rightarrow> 'a tele_scheme \<Rightarrow> 'a tele_scheme" where
  "record_ops r ops s = (if r = NilRecorder then s else s\<lparr>t_met := t_met s @ ops\<rparr>)"

record request_observation =
  o_Verb :: string
  o_Scope :: string
  o_Status :: int
  o_Termination :: string
  o_Duration :: int
  o_LongRunning :: bool
  o_Established :: bool
  o_Hijacked :: bool

definition RequestStarted :: "recorder \<Rightarrow> 'a tele_scheme \<Rightarrow> 'a tele_scheme" where
  "RequestStarted r = record_ops r [MInc nameRequestsInFlight []]"

definition LongRunningEstablished :: "recorder \<Rightarrow> string \<Rightarrow> string \<Rightarrow> 'a tele_scheme \<Rightarrow> 'a tele_scheme" where
  "LongRunningEstablished r verb scope =
     record_ops r [MInc nameLongRunningRequests [projectVerb verb, projectScope scope]]"

definition RequestFinished :: "recorder \<Rightarrow> request_observation \<Rightarrow> 'a tele_scheme \<Rightarrow> 'a tele_scheme" where
  "RequestFinished r ob =
     (let verb = projectVerb (o_Verb ob); scope = projectScope (o_Scope ob) in
      record_ops r
        ([MDec nameRequestsInFlight []] @
         (if o_Established ob then [MDec nameLongRunningRequests [verb, scope]] else []) @
         [MInc nameRequestsTotal [verb, scope, CodeFor (o_Status ob), projectTermination (o_Termination ob)]] @
         (if \<not> o_LongRunning ob \<and> \<not> o_Hijacked ob
          then [MObserve nameRequestDuration [verb, scope] (o_Duration ob)] else [])))"

definition AuthenticationAttempt :: "recorder \<Rightarrow> string \<Rightarrow> string \<Rightarrow> 'a tele_scheme \<Rightarrow> 'a tele_scheme" where
  "AuthenticationAttempt r meth outcome =
     record_ops r [MInc nameAuthnAttempts [projectAuthMethod meth, projectAuthOutcome outcome]]"

definition AccessDecision :: "recorder \<Rightarrow> string \<Rightarrow> bool \<Rightarrow> string \<Rightarrow> 'a tele_scheme \<Rightarrow> 'a tele_scheme" where
  "AccessDecision r meth allowed reason0 =
     (let decision = (if allowed then ''allow'' else ''deny'');
          reason = (if allowed then [] else reason0) in
      record_ops r [MInc nameAccessDecisions [projectAuthMethod meth, decision, projectReason reason]])"

definition ReviewRequest :: "recorder \<Rightarrow> string \<Rightarrow> string \<Rightarrow> int \<Rightarrow> 'a tele_scheme \<Rightarrow> 'a tele_scheme" where
  "ReviewRequest r review outcome d =
     (let ls = [projectReview review, projectReviewOutcome outcome] in
      record_ops r [MInc nameReviewRequests ls, MObserve nameReviewDuration ls d])"

definition CacheLookup :: "recorder \<Rightarrow> string \<Rightarrow> string \<Rightarrow> 'a tele_scheme \<Rightarrow> 'a tele_scheme" where
  "CacheLookup r review result =
     record_ops r [MInc nameCacheLookups [projectReview review, projectCacheResult result]]"

definition boolGauge :: "bool \<Rightarrow> int" where
  "boolGauge b = (if b then 1 else 0)"

definition SetIssuerInitialized :: "recorder \<Rightarrow> string \<Rightarrow> bool \<Rightarrow> 'a tele_scheme \<Rightarrow> 'a tele_scheme" where
  "SetIssuerInitialized r issuerName initialized =
     record_ops r [MSet nameIssuerInitialized [issuerName] (boolGauge initialized)]"

definition SetReady :: "recorder \<Rightarrow> bool \<Rightarrow> 'a tele_scheme \<Rightarrow> 'a tele_scheme" where
  "SetReady r rdy = record_ops r [MSet nameReady [] (boolGauge rdy)]"

definition AuditBackendFailure :: "recorder \<Rightarrow> string \<Rightarrow> 'a tele_scheme \<Rightarrow> 'a tele_scheme" where
  "AuditBackendFailure r op = record_ops r [MInc nameAuditBackendFailures [projectAuditOperation op]]"

text \<open>\<open>New\<close>: the families a collector is built for, in registration order, and the build-info gauge.\<close>

definition registered_families :: "string list" where
  "registered_families = [nameBuildInfo, nameRequestsTotal, nameRequestDuration, nameRequestsInFlight,
     nameLongRunningRequests, nameAuthnAttempts, nameAccessDecisions, nameReviewRequests,
     nameReviewDuration, nameCacheLookups, nameIssuerInitialized, nameReady, nameAuditBackendFailures]"

section \<open>The metrics listener\<close>

text \<open>
  How serving ended: on its own, with \<open>Serve\<close>'s error and \<open>Close\<close>'s, or by cancellation, with the
  errors of \<open>Shutdown\<close>, of the \<open>Close\<close> that follows a failed shutdown, and of \<open>Serve\<close>.
\<close>

datatype serving_end =
    ServeReturned "err option" "err option"
  | ContextDone "err option" "err option" "err option"

definition server_terminal_error :: "serving_end \<Rightarrow> err option" where
  "server_terminal_error e =
     (let (serveErr, shutdownErr) = (case e of
            ServeReturned se ce \<Rightarrow> (se, ce)
          | ContextDone sh ce se \<Rightarrow> (se, if sh \<noteq> None then join_errors [sh, ce] else None));
          serveErr' = (case serveErr of
            Some x \<Rightarrow> if err_is x ErrServerClosed then None else Some x | None \<Rightarrow> None) in
      join_errors [serveErr', shutdownErr])"

text \<open>The owner goroutine of \<open>Start\<close>: the terminal error, reported on the log stream when there is one.\<close>

definition server_finish :: "logger \<Rightarrow> serving_end \<Rightarrow> 'a tele_scheme \<Rightarrow> err option \<times> 'a tele_scheme" where
  "server_finish l e s =
     (let er = server_terminal_error e in
      (er, if er \<noteq> None then Emit [] l EventMetricsServerFailed [ErrAttr er] s else s))"

text \<open>\<open>Start\<close>: a listener that cannot be bound is a startup error; otherwise the server is announced.\<close>

definition server_Start ::
  "string \<Rightarrow> logger \<Rightarrow> (err + string) \<Rightarrow> 'a tele_scheme \<Rightarrow> err option \<times> 'a tele_scheme" where
  "server_Start addr l listen s = (case listen of
     Inl e \<Rightarrow> (Some (Errorf (''metrics listener failed to listen on '' @ addr @ '': '' @ err_text e) [e]), s)
   | Inr bound \<Rightarrow> (None, Emit [] l EventMetricsServerStarted [(''address'', AStr bound)] s))"

text \<open>\<open>Handler\<close>: which of exposition, 404 and 405 answers a method and a path.\<close>

datatype route = Exposition | NotFound | MethodNotAllowed

definition metrics_route :: "recorder \<Rightarrow> string \<Rightarrow> string \<Rightarrow> route" where
  "metrics_route r meth path =
     (if r = NilRecorder then NotFound
      else if path \<noteq> ''/metrics'' then NotFound
      else if meth = ''GET'' \<or> meth = ''HEAD'' then Exposition
      else MethodNotAllowed)"

section \<open>No method can mint a label value\<close>

text \<open>
  An update is within the published contract: its family is in the catalogue, it has a value for
  each of the family's labels, and on a label with a closed vocabulary the value is in it.
\<close>

definition label_ok :: "string \<Rightarrow> string \<Rightarrow> string \<Rightarrow> bool" where
  "label_ok fam l v = (case allowedValuesFor fam l of None \<Rightarrow> True | Some vs \<Rightarrow> v \<in> set vs)"

definition metric_op_ok :: "metric_op \<Rightarrow> bool" where
  "metric_op_ok op = (case metric_spec (family op) of
     None \<Rightarrow> False
   | Some (_, ls) \<Rightarrow> list_all2 (label_ok (family op)) ls (labels op))"

definition metrics_ok :: "'a tele_scheme \<Rightarrow> bool" where
  "metrics_ok s = list_all metric_op_ok (t_met s)"

lemma record_ops_frame [frame]:
  "t_now (record_ops r ops s) = t_now s" "t_log (record_ops r ops s) = t_log s"
  "tele.more (record_ops r ops s) = tele.more s"
  by (simp_all add: record_ops_def)

lemma record_ops_met [simp]:
  "t_met (record_ops r ops s) = t_met s @ (if r = NilRecorder then [] else ops)"
  by (simp add: record_ops_def)

lemma record_ops_ok:
  "metrics_ok s \<Longrightarrow> list_all metric_op_ok ops \<Longrightarrow> metrics_ok (record_ops r ops s)"
  by (simp add: metrics_ok_def)

lemma nat_digits_set: "set (nat_digits n) \<subseteq> {c. is_digit_byte c}" if "\<And>d. d < 10 \<Longrightarrow> is_digit_byte (char_of (48 + d :: nat))"
proof (induction n rule: nat_digits.induct)
  case (1 n)
  then show ?case using that by (subst nat_digits.simps) auto
qed

lemma itoa_not_other: "0 \<le> c \<Longrightarrow> itoa c \<noteq> other"
proof
  assume "0 \<le> c" "itoa c = other"
  then have "CHR ''o'' \<in> set (nat_digits (nat c))"
    by (auto simp: itoa_def other_def)
  moreover have "byte_of c' \<le> 57" if "c' \<in> set (nat_digits n)" for c' n
    using nat_digits_set [of "\<lambda>c. byte_of c \<le> 57" n] that by (auto simp: of_char_of)
  ultimately show False by fastforce
qed

lemma set_allowedCodes:
  "set allowedCodes = {''none'', other} \<union> {x \<in> (\<lambda>status. CodeFor (int status)) ` {100..<600}. x \<noteq> other}"
  unfolding allowedCodes_def set_append set_filter set_map set_upt by simp

lemma CodeFor_allowed: "CodeFor c \<in> set allowedCodes"
proof (cases "c \<noteq> 0 \<and> has_status_text c")
  case True
  then have c: "100 \<le> c" "c < 600" by (auto simp: has_status_text_def)
  then have "CodeFor c \<noteq> other" using True itoa_not_other [of c] by (simp add: CodeFor_def)
  moreover have "CodeFor c \<in> (\<lambda>status. CodeFor (int status)) ` {100..<600}"
    using c by (intro image_eqI [of _ _ "nat c"]) auto
  ultimately show ?thesis unfolding set_allowedCodes by blast
next
  case False
  then show ?thesis unfolding set_allowedCodes by (auto simp: CodeFor_def)
qed

lemma project_allowed:
  "projectVerb v \<in> set (all_verbs @ [other])"
  "projectScope v \<in> set [''cluster'', ''namespace'', ''resource'', ''none'']"
  "projectTermination v \<in> set (all_terminations @ [other])"
  "projectAuthMethod v \<in> set [''oidc'', ''tokenreview'', ''none'', other]"
  "projectReason v \<in> set (all_reasons @ [other])"
  "projectReview v \<in> set [''tokenreview'', ''sar'', other]"
  "projectCacheResult v \<in> set [''hit'', ''miss'', ''bypass'', other]"
  "projectAuditOperation v \<in> set [''run'', ''shutdown'', other]"
  "projectAuthOutcome v \<in> set [''accepted'', ''rejected'', ''error'', other]"
  "projectReviewOutcome v \<in> set [''allow'', ''deny'', ''timeout'', ''canceled'', ''error'', other]"
  by (simp_all add: projectVerb_def projectScope_def projectTermination_def projectAuthMethod_def
      projectReason_def projectReview_def projectCacheResult_def projectAuditOperation_def
      projectAuthOutcome_def projectReviewOutcome_def)

lemma metric_spec_eval:
  "metric_spec nameRequestsTotal = Some (Counter, [''k8s_verb'', ''scope'', ''code'', ''termination''])"
  "metric_spec nameRequestDuration = Some (Histogram, [''k8s_verb'', ''scope''])"
  "metric_spec nameRequestsInFlight = Some (Gauge, [])"
  "metric_spec nameLongRunningRequests = Some (Gauge, [''k8s_verb'', ''scope''])"
  "metric_spec nameAuthnAttempts = Some (Counter, [''auth_method'', ''outcome''])"
  "metric_spec nameAccessDecisions = Some (Counter, [''auth_method'', ''decision'', ''reason''])"
  "metric_spec nameReviewRequests = Some (Counter, [''review'', ''outcome''])"
  "metric_spec nameReviewDuration = Some (Histogram, [''review'', ''outcome''])"
  "metric_spec nameCacheLookups = Some (Counter, [''cache'', ''result''])"
  "metric_spec nameIssuerInitialized = Some (Gauge, [''issuer_name''])"
  "metric_spec nameReady = Some (Gauge, [])"
  "metric_spec nameAuditBackendFailures = Some (Counter, [''operation''])"
  by (simp_all add: metric_spec_def catalogue_def metric_names)

lemma label_ok_eval:
  "label_ok nameRequestsTotal ''k8s_verb'' (projectVerb v)"
  "label_ok nameRequestsTotal ''scope'' (projectScope v)"
  "label_ok nameRequestsTotal ''code'' (CodeFor c)"
  "label_ok nameRequestsTotal ''termination'' (projectTermination v)"
  "label_ok nameRequestDuration ''k8s_verb'' (projectVerb v)"
  "label_ok nameRequestDuration ''scope'' (projectScope v)"
  "label_ok nameLongRunningRequests ''k8s_verb'' (projectVerb v)"
  "label_ok nameLongRunningRequests ''scope'' (projectScope v)"
  "label_ok nameAuthnAttempts ''auth_method'' (projectAuthMethod v)"
  "label_ok nameAuthnAttempts ''outcome'' (projectAuthOutcome v)"
  "label_ok nameAccessDecisions ''auth_method'' (projectAuthMethod v)"
  "label_ok nameAccessDecisions ''decision'' ''allow''"
  "label_ok nameAccessDecisions ''decision'' ''deny''"
  "label_ok nameAccessDecisions ''reason'' (projectReason v)"
  "label_ok nameReviewRequests ''review'' (projectReview v)"
  "label_ok nameReviewRequests ''outcome'' (projectReviewOutcome v)"
  "label_ok nameReviewDuration ''review'' (projectReview v)"
  "label_ok nameReviewDuration ''outcome'' (projectReviewOutcome v)"
  "label_ok nameCacheLookups ''cache'' (projectReview v)"
  "label_ok nameCacheLookups ''result'' (projectCacheResult v)"
  "label_ok nameIssuerInitialized ''issuer_name'' v"
  "label_ok nameAuditBackendFailures ''operation'' (projectAuditOperation v)"
  using project_allowed [of v] CodeFor_allowed [of c]
  by (simp_all add: label_ok_def allowedValuesFor_def metric_names)

lemmas recorder_defs = RequestStarted_def LongRunningEstablished_def RequestFinished_def
  AuthenticationAttempt_def AccessDecision_def ReviewRequest_def CacheLookup_def
  SetIssuerInitialized_def SetReady_def AuditBackendFailure_def

text \<open>The methods of the recorder, as data: what any caller may ask of it, with any arguments.\<close>

datatype rcall =
    CallRequestStarted
  | CallLongRunningEstablished string string
  | CallRequestFinished request_observation
  | CallAuthenticationAttempt string string
  | CallAccessDecision string bool string
  | CallReviewRequest string string int
  | CallCacheLookup string string
  | CallSetIssuerInitialized string bool
  | CallSetReady bool
  | CallAuditBackendFailure string

fun recorder_call :: "recorder \<Rightarrow> rcall \<Rightarrow> 'a tele_scheme \<Rightarrow> 'a tele_scheme" where
  "recorder_call r CallRequestStarted = RequestStarted r"
| "recorder_call r (CallLongRunningEstablished v sc) = LongRunningEstablished r v sc"
| "recorder_call r (CallRequestFinished ob) = RequestFinished r ob"
| "recorder_call r (CallAuthenticationAttempt m oc) = AuthenticationAttempt r m oc"
| "recorder_call r (CallAccessDecision m a rs) = AccessDecision r m a rs"
| "recorder_call r (CallReviewRequest rv oc d) = ReviewRequest r rv oc d"
| "recorder_call r (CallCacheLookup rv res) = CacheLookup r rv res"
| "recorder_call r (CallSetIssuerInitialized n b) = SetIssuerInitialized r n b"
| "recorder_call r (CallSetReady b) = SetReady r b"
| "recorder_call r (CallAuditBackendFailure op) = AuditBackendFailure r op"

lemma recorder_call_ok: "metrics_ok s \<Longrightarrow> metrics_ok (recorder_call r c s)"
  by (cases c)
     (auto simp: recorder_defs Let_def metric_op_ok_def metric_spec_eval label_ok_eval intro!: record_ops_ok)

lemma recorder_frame [frame]:
  "t_log (recorder_call r c s) = t_log s" "t_now (recorder_call r c s) = t_now s"
  "tele.more (recorder_call r c s) = tele.more s"
  by (cases c; simp add: recorder_defs Let_def frame)+

lemma registered_in_catalogue: "n \<in> set registered_families \<Longrightarrow> metric_spec n \<noteq> None"
  by (auto simp: registered_families_def metric_spec_def catalogue_def)

lemma registered_distinct: "distinct registered_families"
  by (simp add: registered_families_def metric_names)

lemma registered_catalogue: "set registered_families = set (map fst catalogue)"
  by (simp add: registered_families_def catalogue_def)

section \<open>Gauges\<close>

fun gauge_step :: "string \<Rightarrow> string list \<Rightarrow> metric_op \<Rightarrow> int \<Rightarrow> int" where
  "gauge_step n ls (MInc f l) v = (if f = n \<and> l = ls then v + 1 else v)"
| "gauge_step n ls (MDec f l) v = (if f = n \<and> l = ls then v - 1 else v)"
| "gauge_step n ls (MSet f l x) v = (if f = n \<and> l = ls then x else v)"
| "gauge_step n ls (MObserve f l x) v = v"

text \<open>The value a scrape shows for a family and label values, after the updates of a state.\<close>

definition gauge :: "string \<Rightarrow> string list \<Rightarrow> 'a tele_scheme \<Rightarrow> int" where
  "gauge n ls s = fold (gauge_step n ls) (t_met s) 0"

lemma gauge_record_ops: "gauge n ls (record_ops Recorder ops s) = fold (gauge_step n ls) ops (gauge n ls s)"
  by (simp add: gauge_def)

lemma in_flight_names:
  "nameRequestsInFlight \<noteq> nameLongRunningRequests" "nameRequestsInFlight \<noteq> nameRequestsTotal"
  "nameRequestsTotal \<noteq> nameLongRunningRequests"
  by (simp_all add: metric_names)

lemma server_terminal_error_clean:
  "server_terminal_error (ContextDone None ce (Some (Sentinel ErrServerClosed))) = None"
  by (simp add: server_terminal_error_def Let_def join_errors_def List.map_filter_def)

text \<open>
  C29. Label values stay within the published vocabulary. Whatever methods of the recorder are called, in
  whatever order and with whatever arguments, every update it makes is to a family of the catalogue, has
  one value per label of that family, and on a label with a closed vocabulary has a value of it: no
  caller can mint a series.
\<close>

theorem labels_stay_closed:
  assumes "metrics_ok s"
  shows "metrics_ok (fold (recorder_call r) calls s)"
  using assms by (induction calls arbitrary: s) (simp_all add: recorder_call_ok)

theorem labels_stay_closed_witness:
  "metrics_ok (fold (recorder_call Recorder) [CallRequestStarted, CallAuthenticationAttempt ''bogus'' ''bogus'']
     \<lparr>t_now = 0, t_log = [], t_met = []\<rparr>)"
  by (rule labels_stay_closed) (simp add: metrics_ok_def)

end
