(* ===== verification/RequestContext.thy ===== *)
theory RequestContext
  imports NetAddr Metrics
begin

text \<open>
  Requests, the values carried on their contexts, and the client-IP resolution of
  \<^verbatim>\<open>pkg/proxy/context/context.go\<close>. The context is a record with one field per context key; a field is
  \<open>None\<close> when the key is absent. The two holders a request carries by pointer (has the access decision
  been written, how did the request end) are mutable cells: the context says whether the holder is
  installed, the cell itself is in the state record \<open>rstate\<close>, an extension of \<open>tele\<close> by the holders of the
  request being served.

  The theorems characterise \<open>ResolveClientIP\<close> (which hop it takes, that a client cannot influence it by
  prepending hops, that without trusted networks it is the peer) and show that the rewritten headers
  resolve to the same address as the inbound ones.
\<close>

section \<open>Identities and requests\<close>

record user_info =
  u_name :: string
  u_uid :: string
  u_groups :: "string list"
  u_extra :: "(string \<times> string list) list"

record imp_config =
  i_UserName :: string
  i_UID :: string
  i_Groups :: "string list"
  i_Extra :: "(string \<times> string list) list"

text \<open>\<open>ImpersonationRequest\<close>; the two identities are interface values, nil being \<open>None\<close>.\<close>

record imp_request =
  r_ImpersonationConfig :: imp_config
  r_InboundUser :: "user_info option"
  r_ImpersonatedUser :: "user_info option"

record ctx =
  noImpersonationKey :: "bool option"
  impersonationConfigKey :: "imp_request option"
  bearerTokenKey :: "string option"
  clientAddressKey :: "string option"
  originalForwardedForKey :: "string option"
  requestIDKey :: "string option"
  clientRequestIDKey :: "string option"
  issuerNameKey :: "string option"
  decisionKey :: bool
  terminationKey :: bool
  logRequestIDKey :: "string option"
  loggerKey :: "logger option"
  authMethodKey :: "string option"
  requestInfoKey :: "request_info option"
  userKey :: "user_info option"

definition background :: ctx where
  "background = \<lparr>noImpersonationKey = None, impersonationConfigKey = None, bearerTokenKey = None,
     clientAddressKey = None, originalForwardedForKey = None, requestIDKey = None,
     clientRequestIDKey = None, issuerNameKey = None, decisionKey = False, terminationKey = False,
     logRequestIDKey = None, loggerKey = None, authMethodKey = None, requestInfoKey = None,
     userKey = None\<rparr>"

record request =
  Method :: string
  URLPath :: "string option"
  RemoteAddress :: string
  Header :: header
  Ctx :: ctx

record rstate = tele +
  rs_recorded :: bool
  rs_termination :: "string \<times> string"

definition str_value :: "string option \<Rightarrow> string" where
  "str_value v = (case v of Some s \<Rightarrow> s | None \<Rightarrow> [])"

lemma str_value_simps [simp]: "str_value None = []" "str_value (Some s) = s"
  by (simp_all add: str_value_def)

lemma rstate_more_eq:
  assumes "tele.more s = tele.more s'"
  shows "rs_recorded s = rs_recorded s'" "rs_termination s = rs_termination s'" "rstate.more s = rstate.more s'"
  using assms by (cases s; cases s'; simp)+

lemmas Emit_rstate [frame] = Emit_frame(3) [THEN rstate_more_eq(1)] Emit_frame(3) [THEN rstate_more_eq(2)]
  Emit_frame(3) [THEN rstate_more_eq(3)]
lemmas EmitLevel_rstate [frame] = EmitLevel_frame(3) [THEN rstate_more_eq(1)]
  EmitLevel_frame(3) [THEN rstate_more_eq(2)] EmitLevel_frame(3) [THEN rstate_more_eq(3)]
lemmas record_ops_rstate [frame] = record_ops_frame(3) [THEN rstate_more_eq(1)]
  record_ops_frame(3) [THEN rstate_more_eq(2)] record_ops_frame(3) [THEN rstate_more_eq(3)]

section \<open>Client-IP resolution\<close>

definition PeerHost :: "string \<Rightarrow> string" where
  "PeerHost remoteAddr = (if remoteAddr = [] then []
     else case split_host_port remoteAddr of Some (host, _) \<Rightarrow> host | None \<Rightarrow> remoteAddr)"

text \<open>A configured network is a pointer: \<open>None\<close> is nil.\<close>

fun in_any_network :: "ip \<Rightarrow> ipnet option list \<Rightarrow> bool" where
  "in_any_network p [] = False"
| "in_any_network p (n # ns) =
     (if (case n of Some n \<Rightarrow> net_contains n p | None \<Rightarrow> False) then True else in_any_network p ns)"

definition IPInNetworks :: "string \<Rightarrow> ipnet option list \<Rightarrow> bool" where
  "IPInNetworks ip networks =
     (if networks = [] then False
      else case parse_ip ip of None \<Rightarrow> False | Some parsed \<Rightarrow> in_any_network parsed networks)"

text \<open>The loop walks the hops from the last to the first: its argument is the reversed list.\<close>

fun resolve_loop :: "string \<Rightarrow> ipnet option list \<Rightarrow> string list \<Rightarrow> string" where
  "resolve_loop peer trusted [] = peer"
| "resolve_loop peer trusted (hop # hops) =
     (let ip = trim_space hop in
      if parse_ip ip = None then peer
      else if IPInNetworks ip trusted then resolve_loop peer trusted hops
      else ip)"

definition ResolveClientIP :: "string \<Rightarrow> string \<Rightarrow> ipnet option list \<Rightarrow> string" where
  "ResolveClientIP remoteAddr xff trusted =
     (let peer = PeerHost remoteAddr in
      if xff = [] \<or> \<not> IPInNetworks peer trusted then peer
      else resolve_loop peer trusted (rev (split_on CHR '','' xff)))"

definition forwardedFor :: "header \<Rightarrow> string" where
  "forwardedFor h = hdr_get h ''X-Forwarded-For''"

text \<open>\<open>trusted\<close> is the package variable \<open>trustedProxies\<close>, set once by \<open>SetTrustedProxies\<close> before serving.\<close>

definition RemoteAddr :: "ipnet option list \<Rightarrow> request \<Rightarrow> request \<times> string" where
  "RemoteAddr trusted req = (case clientAddressKey (Ctx req) of
     Some a \<Rightarrow> (req, a)
   | None \<Rightarrow> let a = ResolveClientIP (RemoteAddress req) (forwardedFor (Header req)) trusted in
       (req\<lparr>Ctx := (Ctx req)\<lparr>clientAddressKey := Some a\<rparr>\<rparr>, a))"

definition SanitizeForwardHeaders :: "ipnet option list \<Rightarrow> request \<Rightarrow> request" where
  "SanitizeForwardHeaders trusted req0 =
     (let xff = forwardedFor (Header req0) in
      if xff = [] \<and> hdr_get (Header req0) ''X-Real-Ip'' = [] then req0
      else
        let req1 = (if xff \<noteq> [] then req0\<lparr>Ctx := (Ctx req0)\<lparr>originalForwardedForKey := Some xff\<rparr>\<rparr> else req0);
            req2 = req1\<lparr>Header := hdr_del (Header req1) ''X-Real-Ip''\<rparr> in
        if xff = [] then req2
        else
          let resolved = ResolveClientIP (RemoteAddress req2) xff trusted in
          if resolved = PeerHost (RemoteAddress req2)
          then req2\<lparr>Header := hdr_del (Header req2) ''X-Forwarded-For''\<rparr>
          else req2\<lparr>Header := hdr_set (Header req2) ''X-Forwarded-For'' resolved\<rparr>)"

section \<open>Context values\<close>

definition OriginalForwardedFor :: "request \<Rightarrow> string" where
  "OriginalForwardedFor req = str_value (originalForwardedForKey (Ctx req))"

definition WithNoImpersonation :: "request \<Rightarrow> request" where
  "WithNoImpersonation req = req\<lparr>Ctx := (Ctx req)\<lparr>noImpersonationKey := Some True\<rparr>\<rparr>"

definition NoImpersonation :: "request \<Rightarrow> bool" where
  "NoImpersonation req = (noImpersonationKey (Ctx req) = Some True)"

definition WithRequestID :: "request \<Rightarrow> string \<Rightarrow> request" where
  "WithRequestID req i = req\<lparr>Ctx := (Ctx req)\<lparr>requestIDKey := Some i, logRequestIDKey := Some i\<rparr>\<rparr>"

definition RequestID :: "request \<Rightarrow> string" where
  "RequestID req = str_value (requestIDKey (Ctx req))"

definition WithClientRequestID :: "request \<Rightarrow> string \<Rightarrow> request" where
  "WithClientRequestID req i = req\<lparr>Ctx := (Ctx req)\<lparr>clientRequestIDKey := Some i\<rparr>\<rparr>"

definition ClientRequestID :: "request \<Rightarrow> string" where
  "ClientRequestID req = str_value (clientRequestIDKey (Ctx req))"

definition WithIssuerName :: "request \<Rightarrow> string \<Rightarrow> request" where
  "WithIssuerName req n = req\<lparr>Ctx := (Ctx req)\<lparr>issuerNameKey := Some n\<rparr>\<rparr>"

definition IssuerName :: "request \<Rightarrow> string" where
  "IssuerName req = str_value (issuerNameKey (Ctx req))"

definition WithDecisionHolder :: "request \<Rightarrow> 'a rstate_scheme \<Rightarrow> request \<times> 'a rstate_scheme" where
  "WithDecisionHolder req s = (req\<lparr>Ctx := (Ctx req)\<lparr>decisionKey := True\<rparr>\<rparr>, s\<lparr>rs_recorded := False\<rparr>)"

definition MarkDecisionRecorded :: "request \<Rightarrow> 'a rstate_scheme \<Rightarrow> 'a rstate_scheme" where
  "MarkDecisionRecorded req s = (if decisionKey (Ctx req) then s\<lparr>rs_recorded := True\<rparr> else s)"

definition DecisionRecorded :: "request \<Rightarrow> 'a rstate_scheme \<Rightarrow> bool" where
  "DecisionRecorded req s = (decisionKey (Ctx req) \<and> rs_recorded s)"

definition WithTerminationHolder :: "request \<Rightarrow> 'a rstate_scheme \<Rightarrow> request \<times> 'a rstate_scheme" where
  "WithTerminationHolder req s =
     (req\<lparr>Ctx := (Ctx req)\<lparr>terminationKey := True\<rparr>\<rparr>, s\<lparr>rs_termination := ([], [])\<rparr>)"

definition WithTermination :: "request \<Rightarrow> string \<Rightarrow> string \<Rightarrow> 'a rstate_scheme \<Rightarrow> 'a rstate_scheme" where
  "WithTermination req termination reason s =
     (if terminationKey (Ctx req) then s\<lparr>rs_termination := (termination, reason)\<rparr> else s)"

definition TerminationFrom :: "request \<Rightarrow> 'a rstate_scheme \<Rightarrow> string \<times> string" where
  "TerminationFrom req s = (if terminationKey (Ctx req) then rs_termination s else ([], []))"

definition WithImpersonationConfig :: "request \<Rightarrow> imp_request \<Rightarrow> request" where
  "WithImpersonationConfig req conf =
     (let c = (Ctx req)\<lparr>impersonationConfigKey := Some conf\<rparr>;
          c' = (case r_ImpersonatedUser conf of Some u \<Rightarrow> c\<lparr>userKey := Some u\<rparr> | None \<Rightarrow> c) in
      req\<lparr>Ctx := c'\<rparr>)"

definition ImpersonationConfig :: "request \<Rightarrow> imp_request option" where
  "ImpersonationConfig req = impersonationConfigKey (Ctx req)"

definition WithBearerToken :: "request \<Rightarrow> header \<Rightarrow> request" where
  "WithBearerToken req h = req\<lparr>Ctx := (Ctx req)\<lparr>bearerTokenKey := Some (hdr_get h ''Authorization'')\<rparr>\<rparr>"

definition BearerToken :: "request \<Rightarrow> string" where
  "BearerToken req = str_value (bearerTokenKey (Ctx req))"

text \<open>\<open>logging.RequestIDFrom\<close> and \<open>logging.FromContext\<close>, and the user of the context.\<close>

definition RequestIDFrom :: "request \<Rightarrow> string" where
  "RequestIDFrom req = str_value (logRequestIDKey (Ctx req))"

definition FromContext :: "request \<Rightarrow> logger" where
  "FromContext req = (case loggerKey (Ctx req) of Some l \<Rightarrow> l | None \<Rightarrow> Discard)"

definition NewContext :: "request \<Rightarrow> logger \<Rightarrow> request" where
  "NewContext req l = req\<lparr>Ctx := (Ctx req)\<lparr>loggerKey := Some l\<rparr>\<rparr>"

definition WithUser :: "request \<Rightarrow> user_info \<Rightarrow> request" where
  "WithUser req u = req\<lparr>Ctx := (Ctx req)\<lparr>userKey := Some u\<rparr>\<rparr>"

definition UserFrom :: "request \<Rightarrow> user_info option" where
  "UserFrom req = userKey (Ctx req)"

section \<open>Which address is the client's\<close>

lemma IPInNetworks_Nil [simp]: "IPInNetworks ip [] = False"
  by (simp add: IPInNetworks_def)

lemma IPInNetworks_parses: "IPInNetworks ip tr \<Longrightarrow> parse_ip ip \<noteq> None"
  by (auto simp: IPInNetworks_def split: if_splits option.splits)

lemma resolve_loop_cases:
  "resolve_loop peer tr hops = peer \<or>
   (\<exists>pre hop post. hops = pre @ hop # post \<and> resolve_loop peer tr hops = trim_space hop \<and>
      parse_ip (trim_space hop) \<noteq> None \<and> \<not> IPInNetworks (trim_space hop) tr \<and>
      (\<forall>h \<in> set pre. IPInNetworks (trim_space h) tr))"
proof (induction hops)
  case (Cons h hops)
  show ?case
  proof (cases "parse_ip (trim_space h) \<noteq> None \<and> IPInNetworks (trim_space h) tr")
    case True
    then have eq: "resolve_loop peer tr (h # hops) = resolve_loop peer tr hops" by (auto simp: Let_def)
    from Cons.IH show ?thesis
    proof
      assume "resolve_loop peer tr hops = peer"
      then show ?thesis using eq by simp
    next
      assume "\<exists>pre hop post. hops = pre @ hop # post \<and> resolve_loop peer tr hops = trim_space hop \<and>
        parse_ip (trim_space hop) \<noteq> None \<and> \<not> IPInNetworks (trim_space hop) tr \<and>
        (\<forall>h \<in> set pre. IPInNetworks (trim_space h) tr)"
      then obtain pre hop post where *: "hops = pre @ hop # post"
        "resolve_loop peer tr hops = trim_space hop" "parse_ip (trim_space hop) \<noteq> None"
        "\<not> IPInNetworks (trim_space hop) tr" "\<forall>h \<in> set pre. IPInNetworks (trim_space h) tr"
        by blast
      then show ?thesis
        unfolding eq using True 
        by (intro disjI2, rule_tac exI [of _ "h # pre"], rule_tac exI [of _ hop], rule_tac exI [of _ post]) simp
    qed
  next
    case False
    show ?thesis
    proof (cases "parse_ip (trim_space h) = None")
      case True
      then show ?thesis by simp
    next
      case parses: False
      with False have "resolve_loop peer tr (h # hops) = trim_space h \<and> \<not> IPInNetworks (trim_space h) tr"
        by (auto simp: Let_def)
      then show ?thesis
        using parses
        by (intro disjI2, rule_tac exI [of _ "[]"], rule_tac exI [of _ h], rule_tac exI [of _ hops])
           (simp del: resolve_loop.simps)
    qed
  qed
qed simp

lemma split_on_append: "split_on c (p @ c # s) = split_on c p @ split_on c s"
  by (induction p) (auto split: list.splits)

text \<open>Once a hop that is not trusted has been met, the hops further from the proxy have no influence.\<close>

lemma resolve_loop_append:
  "\<exists>h \<in> set hops. \<not> IPInNetworks (trim_space h) tr \<Longrightarrow>
   resolve_loop peer tr (hops @ rest) = resolve_loop peer tr hops"
  by (induction hops) (auto simp: Let_def dest: IPInNetworks_parses)

lemma resolve_prefix_irrelevant:
  assumes "\<exists>h \<in> set (split_on CHR '','' chain). \<not> IPInNetworks (trim_space h) tr" "chain \<noteq> []"
  shows "ResolveClientIP addr (p @ '','' @ chain) tr = ResolveClientIP addr chain tr"
  using assms resolve_loop_append [of "rev (split_on CHR '','' chain)" tr "PeerHost addr" "rev (split_on CHR '','' p)"]
  by (simp add: ResolveClientIP_def Let_def split_on_append)

lemma split_on_single: "c \<notin> set s \<Longrightarrow> split_on c s = [s]"
  by (induction s) auto

text \<open>Resolving an address that was itself taken from a chain gives it back.\<close>

lemma resolve_loop_plain:
  assumes "resolve_loop peer tr hops \<noteq> peer"
  shows "parse_ip (resolve_loop peer tr hops) \<noteq> None" "\<not> IPInNetworks (resolve_loop peer tr hops) tr"
  using resolve_loop_cases [of peer tr hops] assms by auto

lemma ResolveClientIP_idem:
  "ResolveClientIP addr xff tr \<noteq> PeerHost addr \<Longrightarrow>
   ResolveClientIP addr (ResolveClientIP addr xff tr) tr = ResolveClientIP addr xff tr"
proof -
  assume ne: "ResolveClientIP addr xff tr \<noteq> PeerHost addr"
  define ip where "ip = ResolveClientIP addr xff tr"
  have tr: "IPInNetworks (PeerHost addr) tr" and
    ip: "ip = resolve_loop (PeerHost addr) tr (rev (split_on CHR '','' xff))"
    using ne by (auto simp: ResolveClientIP_def Let_def ip_def split: if_splits)
  have "parse_ip ip \<noteq> None" "\<not> IPInNetworks ip tr"
    using resolve_loop_plain ne ip ip_def by metis+
  then show ?thesis
    using tr parse_ip_plain [of ip] unfolding ip_def [symmetric]
    by (auto simp: ResolveClientIP_def Let_def split_on_single)
qed

lemma ResolveClientIP_Nil [simp]: "ResolveClientIP addr [] tr = PeerHost addr"
  by (simp add: ResolveClientIP_def)

section \<open>What sanitising does to the forwarding headers\<close>

lemma canonical_xff: "canonical_key ''X-Forwarded-For'' = ''X-Forwarded-For''"
  by code_simp

lemma canonical_xri: "canonical_key ''X-Real-Ip'' = ''X-Real-Ip''"
  by code_simp

lemmas sfh_defs = SanitizeForwardHeaders_def Let_def forwardedFor_def canonical_xff canonical_xri

lemma SanitizeForwardHeaders_frame [frame]:
  "RemoteAddress (SanitizeForwardHeaders tr req) = RemoteAddress req"
  "Method (SanitizeForwardHeaders tr req) = Method req"
  "URLPath (SanitizeForwardHeaders tr req) = URLPath req"
  by (simp_all add: sfh_defs)

lemma SanitizeForwardHeaders_ctx [frame]:
  "Ctx (SanitizeForwardHeaders tr req) =
     (if forwardedFor (Header req) = [] then Ctx req
      else (Ctx req)\<lparr>originalForwardedForKey := Some (forwardedFor (Header req))\<rparr>)"
  by (simp add: sfh_defs)

lemma SanitizeForwardHeaders_xff:
  "forwardedFor (Header req) \<noteq> [] \<Longrightarrow>
   hdr_values (Header (SanitizeForwardHeaders tr req)) ''X-Forwarded-For'' =
     (let ip = ResolveClientIP (RemoteAddress req) (forwardedFor (Header req)) tr in
      if ip = PeerHost (RemoteAddress req) then [] else [ip])"
  by (simp add: sfh_defs hdr_simps)

lemma SanitizeForwardHeaders_get_xri:
  "hdr_get (Header (SanitizeForwardHeaders tr req)) ''X-Real-Ip'' = []"
  by (simp add: sfh_defs hdr_simps)

lemma SanitizeForwardHeaders_other:
  "canonical_key k \<noteq> ''X-Forwarded-For'' \<Longrightarrow> canonical_key k \<noteq> ''X-Real-Ip'' \<Longrightarrow>
   hdr_values (Header (SanitizeForwardHeaders tr req)) k = hdr_values (Header req) k"
  by (simp add: sfh_defs hdr_simps)

lemma SanitizeForwardHeaders_wf:
  "wf_header (Header req) \<Longrightarrow> wf_header (Header (SanitizeForwardHeaders tr req))"
  by (simp add: sfh_defs hdr_simps)

lemma hdr_get_values: "hdr_get h k = (case hdr_values h k of [] \<Rightarrow> [] | v # _ \<Rightarrow> v)"
  by (simp add: hdr_get_def)

lemma SanitizeForwardHeaders_resolve:
  "ResolveClientIP (RemoteAddress req) (forwardedFor (Header (SanitizeForwardHeaders tr req))) tr =
   ResolveClientIP (RemoteAddress req) (forwardedFor (Header req)) tr"
proof (cases "forwardedFor (Header req) = []")
  case True
  then have "forwardedFor (Header (SanitizeForwardHeaders tr req)) = []"
    by (simp add: sfh_defs hdr_simps)
  with True show ?thesis by simp
next
  case False
  have "forwardedFor (Header (SanitizeForwardHeaders tr req)) =
    (let ip = ResolveClientIP (RemoteAddress req) (forwardedFor (Header req)) tr in
     if ip = PeerHost (RemoteAddress req) then [] else ip)"
    using SanitizeForwardHeaders_xff [OF False, of tr]
    by (simp add: forwardedFor_def [of "Header (SanitizeForwardHeaders tr req)"] hdr_get_values Let_def)
  then show ?thesis by (simp add: Let_def ResolveClientIP_idem)
qed

section \<open>The resolved address is stable along a request\<close>

lemma RemoteAddr_addr:
  "clientAddressKey (Ctx req) = None \<Longrightarrow>
   snd (RemoteAddr tr req) = ResolveClientIP (RemoteAddress req) (forwardedFor (Header req)) tr"
  by (simp add: RemoteAddr_def Let_def)

lemma RemoteAddr_cached: "clientAddressKey (Ctx (fst (RemoteAddr tr req))) = Some (snd (RemoteAddr tr req))"
  by (simp add: RemoteAddr_def Let_def split: option.splits)

lemma RemoteAddr_frame [frame]:
  "Header (fst (RemoteAddr tr req)) = Header req" "Method (fst (RemoteAddr tr req)) = Method req"
  "URLPath (fst (RemoteAddr tr req)) = URLPath req"
  "RemoteAddress (fst (RemoteAddr tr req)) = RemoteAddress req"
  "\<exists>a. Ctx (fst (RemoteAddr tr req)) = (Ctx req)\<lparr>clientAddressKey := Some a\<rparr>"
  by (auto simp: RemoteAddr_def Let_def split: option.splits)
     (metis ctx.surjective ctx.update_convs(4))

lemma RemoteAddr_ctx [simp]:
  "noImpersonationKey (Ctx (fst (RemoteAddr tr req))) = noImpersonationKey (Ctx req)"
  "impersonationConfigKey (Ctx (fst (RemoteAddr tr req))) = impersonationConfigKey (Ctx req)"
  "bearerTokenKey (Ctx (fst (RemoteAddr tr req))) = bearerTokenKey (Ctx req)"
  "requestIDKey (Ctx (fst (RemoteAddr tr req))) = requestIDKey (Ctx req)"
  "issuerNameKey (Ctx (fst (RemoteAddr tr req))) = issuerNameKey (Ctx req)"
  "decisionKey (Ctx (fst (RemoteAddr tr req))) = decisionKey (Ctx req)"
  "terminationKey (Ctx (fst (RemoteAddr tr req))) = terminationKey (Ctx req)"
  "authMethodKey (Ctx (fst (RemoteAddr tr req))) = authMethodKey (Ctx req)"
  "userKey (Ctx (fst (RemoteAddr tr req))) = userKey (Ctx req)"
  "logRequestIDKey (Ctx (fst (RemoteAddr tr req))) = logRequestIDKey (Ctx req)"
  "loggerKey (Ctx (fst (RemoteAddr tr req))) = loggerKey (Ctx req)"
  by (simp_all add: RemoteAddr_def Let_def split: option.splits)

end
