(* ===== verification/ExpireCache.thy ===== *)
theory ExpireCache
  imports Prelude
begin

text \<open>
  The interface of the two decision caches (TokenReview results, SubjectAccessReview decisions).

  The store underneath is \<open>LRUExpireCache\<close> of k8s.io/apimachinery, code outside the repository: it is
  a parameter of type \<open>'v lru\<close>, what \<open>Get\<close> answers at an instant given the sequence of earlier \<open>Get\<close> and
  \<open>Add\<close> calls. Eviction may depend on that sequence in any way. What the proxy relies on is
  \<open>lru_sound\<close>, the documented behaviour of \<open>Get\<close>: a value returned is the one of the latest \<open>Add\<close> for the
  key, and it has not expired.

  The locale \<open>ttl_store\<close> states what a cache built on such a store promises; its client lemma says that
  a hit is always a verdict that was really given for the key, no older than its time to live.
\<close>

datatype 'v lru_event = LGet int string | LAdd int string 'v int

type_synonym 'v lru = "'v lru_event list \<Rightarrow> int \<Rightarrow> string \<Rightarrow> 'v option"

text \<open>The latest \<open>Add\<close> for a key: its instant, its value and its time to live.\<close>

fun last_add :: "'v lru_event list \<Rightarrow> string \<Rightarrow> (int \<times> 'v \<times> int) option" where
  "last_add [] k = None"
| "last_add (LGet _ _ # h) k = last_add h k"
| "last_add (LAdd t k' v ttl # h) k =
     (case last_add h k of Some a \<Rightarrow> Some a | None \<Rightarrow> if k' = k then Some (t, v, ttl) else None)"

definition lru_sound :: "'v lru \<Rightarrow> bool" where
  "lru_sound lru = (\<forall>h now k v. lru h now k = Some v \<longrightarrow>
     (\<exists>t ttl. last_add h k = Some (t, v, ttl) \<and> now \<le> t + ttl))"

text \<open>A store that never evicts before expiry, used to evaluate the model on concrete inputs.\<close>

definition lru_unbounded :: "'v lru" where
  "lru_unbounded h now k = (case last_add h k of
     Some (t, v, ttl) \<Rightarrow> if now \<le> t + ttl then Some v else None
   | None \<Rightarrow> None)"

lemma lru_unbounded_sound: "lru_sound lru_unbounded"
  by (auto simp: lru_sound_def lru_unbounded_def split: option.splits if_splits)

lemma last_add_snoc [simp]:
  "last_add (h @ [LGet t k']) k = last_add h k"
  "last_add (h @ [LAdd t k' v ttl]) k = (if k' = k then Some (t, v, ttl) else last_add h k)"
  by (induction h k rule: last_add.induct) (auto split: option.splits)

text \<open>A cache is faithful to a log of verdicts when everything written in it is in the log.\<close>

definition faithful_to ::
  "('s \<Rightarrow> string \<Rightarrow> (int \<times> 'v) option) \<Rightarrow> 's \<Rightarrow> (int \<times> string \<times> 'v) set \<Rightarrow> bool" where
  "faithful_to written s log = (\<forall>k t v. written s k = Some (t, v) \<longrightarrow> (t, k, v) \<in> log)"

locale ttl_store =
  fixes invar :: "'s \<Rightarrow> bool"
    and lookup :: "int \<Rightarrow> string \<Rightarrow> 's \<Rightarrow> 'v option \<times> 's"
    and store :: "int \<Rightarrow> string \<Rightarrow> 'v \<Rightarrow> 's \<Rightarrow> 's"
    and written :: "'s \<Rightarrow> string \<Rightarrow> (int \<times> 'v) option"
    and ttl :: "'s \<Rightarrow> 'v \<Rightarrow> int"
  assumes lookup_fresh:
    "invar s \<Longrightarrow> fst (lookup now k s) = Some v \<Longrightarrow> \<exists>t. written s k = Some (t, v) \<and> now \<le> t + ttl s v"
    and invar_lookup: "invar s \<Longrightarrow> invar (snd (lookup now k s))"
    and written_lookup: "written (snd (lookup now k s)) = written s"
    and ttl_after_lookup: "ttl (snd (lookup now k s)) = ttl s"
    and written_store:
    "written (store now k v s) k' = (if k' = k \<and> 0 < ttl s v then Some (now, v) else written s k')"
    and invar_store: "invar s \<Longrightarrow> invar (store now k v s)"
    and ttl_after_store: "ttl (store now k v s) = ttl s"
begin

text \<open>A hit answers with a verdict of the log for the same key, within its time to live.\<close>

lemma lookup_answered:
  assumes "invar s" "faithful_to written s log" "fst (lookup now k s) = Some v"
  shows "\<exists>t. (t, k, v) \<in> log \<and> now \<le> t + ttl s v"
  using lookup_fresh [OF assms(1,3)] assms(2) unfolding faithful_to_def by blast

lemma faithful_lookup: "faithful_to written s log \<Longrightarrow> faithful_to written (snd (lookup now k s)) log"
  by (simp add: faithful_to_def written_lookup)

lemma faithful_store:
  assumes "faithful_to written s log" "(now, k, v) \<in> log"
  shows "faithful_to written (store now k v s) log"
  using assms by (auto simp: faithful_to_def written_store split: if_splits)

lemma faithful_mono: "faithful_to written s log \<Longrightarrow> log \<subseteq> log' \<Longrightarrow> faithful_to written s log'"
  by (auto simp: faithful_to_def)

text \<open>A verdict whose time to live is not positive is never served from the cache.\<close>

lemma store_disabled: "ttl s v \<le> 0 \<Longrightarrow> written (store now k v s) = written s"
  by (rule ext) (simp add: written_store)

end

end
