(* ===== verification/TokenReview.thy ===== *)
theory TokenReview
  imports RequestContext ExpireCache
begin

text \<open>
  The TokenReview authenticator of \<^verbatim>\<open>pkg/proxy/tokenreview/tokenreview.go\<close> and its result cache, and the
  bearer-token parser of \<^verbatim>\<open>pkg/util/token/token.go\<close>.

  Outside code: the API server's answer (\<open>tr_create\<close>, which may depend on how many reviews were sent
  before and takes time), the keyed hash (\<open>tr_hmac\<close>) and the expiring store (\<open>'v lru\<close>). The state
  \<open>tr_state\<close> extends \<open>rstate\<close> with the cache and with the log of reviews sent, each with the instant it was
  answered at. The theorems: key encoding is injective; a token is accepted only on an authenticated
  answer of the API server for that token and those audiences, at most the success TTL old; failures
  are never cached and never accepted.
\<close>

section \<open>Bearer tokens\<close>

text \<open>\<open>ParseFromRequest\<close>; \<open>None\<close> stands for not found.\<close>

definition ParseFromRequest :: "header \<Rightarrow> string option" where
  "ParseFromRequest h =
     (let auth = trim_space (hdr_get h ''Authorization'') in
      if auth = [] then None
      else let parts = split_on CHR '' '' auth in
        if length parts < 2 \<or> to_lower (parts ! 0) \<noteq> ''bearer'' then None
        else let token = parts ! 1 in
          if token = [] then None else Some token)"

section \<open>The live reviewer\<close>

record tr_spec =
  s_token :: string
  s_audiences :: "string list"

record tr_status =
  st_Authenticated :: bool
  st_Error :: string
  st_Audiences :: "string list"
  st_User :: user_info

record tr_response =
  rp_Audiences :: "string list"
  rp_User :: user_info

text \<open>What \<open>authenticator.Token\<close> returns: the response, whether it accepted, the error.\<close>

type_synonym auth_result = "tr_response option \<times> bool \<times> err option"

record cached_review =
  cr_resp :: "tr_response option"
  cr_ok :: bool

record tr_cache =
  tc_lru :: "cached_review lru"
  tc_hist :: "cached_review lru_event list"
  tc_successTTL :: int
  tc_failureTTL :: int

record tr_state = rstate +
  tr_store :: tr_cache
  tr_calls :: "(int \<times> tr_spec \<times> (err + tr_status)) list"

record token_review =
  tr_logger :: "logger option"
  tr_audiences :: "string list"
  tr_timeout :: int
  tr_metrics :: recorder

text \<open>
  \<open>tr_create n timeout spec\<close> is the answer to the review sent after \<open>n\<close> others, under a context bounded by
  \<open>timeout\<close>, and how long it took; \<open>tr_isTimeout\<close> is \<open>apierrors.IsTimeout\<close>.
\<close>

record tr_env =
  tr_create :: "nat \<Rightarrow> int \<Rightarrow> tr_spec \<Rightarrow> nat \<times> (err + tr_status)"
  tr_hmac :: "string \<Rightarrow> string"
  tr_isTimeout :: "err \<Rightarrow> bool"

definition defaultTimeout :: int where
  "defaultTimeout = 10 * 1000000000"

definition reviewTimeout :: "token_review \<Rightarrow> int" where
  "reviewTimeout t = (if tr_timeout t > 0 then tr_timeout t else defaultTimeout)"

definition tr_log :: "token_review \<Rightarrow> logger" where
  "tr_log t = (case tr_logger t of Some l \<Rightarrow> l | None \<Rightarrow> Discard)"

definition buildReview :: "token_review \<Rightarrow> string \<Rightarrow> tr_spec" where
  "buildReview t token = \<lparr>s_token = token, s_audiences = tr_audiences t\<rparr>"

text \<open>\<open>userInfoFrom\<close> copies the extra map entry by entry.\<close>

definition userInfoFrom :: "user_info \<Rightarrow> user_info" where
  "userInfoFrom ui = \<lparr>u_name = u_name ui, u_uid = u_uid ui, u_groups = u_groups ui,
     u_extra = (if u_extra ui \<noteq> [] then fold (\<lambda>(k, v) m. AList.update k v m) (u_extra ui) [] else [])\<rparr>"

definition millis :: "nat \<Rightarrow> int" where
  "millis ns = int ns div 1000000"

text \<open>Sending the review: the call is logged with the instant its answer arrived.\<close>

definition tr_send ::
  "tr_env \<Rightarrow> token_review \<Rightarrow> tr_spec \<Rightarrow> 'a tr_state_scheme \<Rightarrow> (nat \<times> (err + tr_status)) \<times> 'a tr_state_scheme" where
  "tr_send env t spec s =
     (let (el, r) = tr_create env (length (tr_calls s)) (reviewTimeout t) spec; now = t_now s + int el in
      ((el, r), s\<lparr>t_now := now, tr_calls := tr_calls s @ [(now, spec, r)]\<rparr>))"

definition TokenReview_AuthenticateToken ::
  "tr_env \<Rightarrow> token_review \<Rightarrow> string \<Rightarrow> string \<Rightarrow> 'a tr_state_scheme \<Rightarrow> auth_result \<times> 'a tr_state_scheme" where
  "TokenReview_AuthenticateToken env t rid token s0 =
     (let ((el, r), s) = tr_send env t (buildReview t token) s0 in
      case r of
        Inl e \<Rightarrow>
          ((None, False, Some e),
           ReviewRequest (tr_metrics t) ''tokenreview'' (ReviewOutcomeFor (tr_isTimeout env) (Some e) False) (int el) s)
      | Inr st \<Rightarrow>
          if length (st_Error st) > 0 then
            ((None, False, Some (NewError (''error authenticating using token review: '' @ st_Error st))),
             ReviewRequest (tr_metrics t) ''tokenreview'' ''error'' (int el) s)
          else
            let s1 = ReviewRequest (tr_metrics t) ''tokenreview''
                       (ReviewOutcomeFor (tr_isTimeout env) None (st_Authenticated st)) (int el) s;
                s2 = Emit rid (tr_log t) EventAuthnTokenReviewCompleted
                       [(''authenticated'', ABool (st_Authenticated st)), (''duration_ms'', AInt (millis el))] s1 in
            if \<not> st_Authenticated st then ((None, False, None), s2)
            else ((Some \<lparr>rp_Audiences = st_Audiences st, rp_User = userInfoFrom (st_User st)\<rparr>, True, None), s2))"

section \<open>The cache\<close>

text \<open>\<open>binary.BigEndian.PutUint64\<close>: eight bytes, the most significant first.\<close>

definition put_uint64 :: "nat \<Rightarrow> string" where
  "put_uint64 n = map (\<lambda>i. char_of (n div 256 ^ i mod 256)) (rev [0..<8])"

definition writeLengthPrefixed :: "string \<Rightarrow> string" where
  "writeLengthPrefixed s = put_uint64 (length s) @ s"

text \<open>The bytes fed to the hash: token, number of audiences, audiences.\<close>

definition cache_key_bytes :: "string \<Rightarrow> string list \<Rightarrow> string" where
  "cache_key_bytes token audiences =
     writeLengthPrefixed token @ put_uint64 (length audiences) @ concat (map writeLengthPrefixed audiences)"

definition cacheKey :: "(string \<Rightarrow> string) \<Rightarrow> string \<Rightarrow> string list \<Rightarrow> string" where
  "cacheKey hmac token audiences = hmac (cache_key_bytes token audiences)"

definition tr_cache_Get :: "int \<Rightarrow> string \<Rightarrow> tr_cache \<Rightarrow> cached_review option \<times> tr_cache" where
  "tr_cache_Get now k c = (tc_lru c (tc_hist c) now k, c\<lparr>tc_hist := tc_hist c @ [LGet now k]\<rparr>)"

text \<open>The switch at the end of the cached \<open>AuthenticateToken\<close>: which results are stored, and for how long.\<close>

definition tr_cache_put :: "int \<Rightarrow> string \<Rightarrow> cached_review \<Rightarrow> tr_cache \<Rightarrow> tr_cache" where
  "tr_cache_put now k v c =
     (if cr_ok v \<and> tc_successTTL c > 0 then
        c\<lparr>tc_hist := tc_hist c @ [LAdd now k v (tc_successTTL c)]\<rparr>
      else if \<not> cr_ok v \<and> tc_failureTTL c > 0 then
        c\<lparr>tc_hist := tc_hist c @ [LAdd now k v (tc_failureTTL c)]\<rparr>
      else c)"

definition cached_AuthenticateToken ::
  "tr_env \<Rightarrow> token_review \<Rightarrow> string \<Rightarrow> string \<Rightarrow> 'a tr_state_scheme \<Rightarrow> auth_result \<times> 'a tr_state_scheme" where
  "cached_AuthenticateToken env t rid token s0 =
     (let key = cacheKey (tr_hmac env) token (tr_audiences t);
          (hit, c) = tr_cache_Get (t_now s0) key (tr_store s0);
          s = s0\<lparr>tr_store := c\<rparr> in
      case hit of
        Some rec \<Rightarrow>
          ((cr_resp rec, cr_ok rec, None),
           CacheLookup (tr_metrics t) ''tokenreview'' ''hit''
             (Emit rid (tr_log t) EventCacheTokenReviewLookup
                [(''cache_result'', AStr ''hit''), (''authenticated'', ABool (cr_ok rec))] s))
      | None \<Rightarrow>
          let s1 = CacheLookup (tr_metrics t) ''tokenreview'' ''miss''
                     (Emit rid (tr_log t) EventCacheTokenReviewLookup [(''cache_result'', AStr ''miss'')] s);
              ((resp, ok, er), s2) = TokenReview_AuthenticateToken env t rid token s1 in
          case er of
            Some e \<Rightarrow> ((None, False, Some e), s2)
          | None \<Rightarrow>
              ((resp, ok, None),
               s2\<lparr>tr_store := tr_cache_put (t_now s2) key
                    \<lparr>cr_resp = (if ok then resp else None), cr_ok = ok\<rparr> (tr_store s2)\<rparr>))"

text \<open>\<open>NewCached\<close>: the cache layer exists only when one of the lifetimes is positive.\<close>

definition NewCached ::
  "tr_env \<Rightarrow> token_review \<Rightarrow> int \<Rightarrow> int \<Rightarrow> string \<Rightarrow> string \<Rightarrow> 'a tr_state_scheme \<Rightarrow> auth_result \<times> 'a tr_state_scheme" where
  "NewCached env t successTTL failureTTL =
     (if successTTL \<le> 0 \<and> failureTTL \<le> 0 then TokenReview_AuthenticateToken env t
      else cached_AuthenticateToken env t)"

definition newTokenCache :: "cached_review lru \<Rightarrow> int \<Rightarrow> int \<Rightarrow> tr_cache" where
  "newTokenCache lru successTTL failureTTL =
     \<lparr>tc_lru = lru, tc_hist = [], tc_successTTL = successTTL, tc_failureTTL = failureTTL\<rparr>"

section \<open>The key encoding is injective\<close>

definition get_uint :: "nat \<Rightarrow> string \<Rightarrow> nat" where
  "get_uint acc s = foldl (\<lambda>a c. a * 256 + byte_of c) acc s"

lemma get_put:
  "get_uint acc (map (\<lambda>i. char_of (n div 256 ^ i mod 256)) (rev [0..<k])) = acc * 256 ^ k + n mod 256 ^ k"
proof (induction k arbitrary: acc)
  case (Suc k)
  have "n mod (256 ^ k * 256) = 256 ^ k * (n div 256 ^ k mod 256) + n mod 256 ^ k"
    by (simp add: mod_mult2_eq)
  with Suc show ?case by (simp add: get_uint_def algebra_simps)
qed (simp add: get_uint_def)

lemma length_put_uint64 [simp]: "length (put_uint64 n) = 8"
  by (simp add: put_uint64_def)

lemma put_uint64_inj:
  assumes "put_uint64 a = put_uint64 b" "a < 2 ^ 64" "b < 2 ^ 64"
  shows "a = b"
proof -
  have g: "get_uint 0 (put_uint64 n) = n mod 256 ^ 8" for n
    unfolding put_uint64_def get_put by (simp only: mult_zero_left add_0)
  have w: "(2::nat) ^ 64 = 256 ^ 8" by simp
  have "a mod 256 ^ 8 = b mod 256 ^ 8"
    using g [of a] g [of b] assms(1) by metis
  then show ?thesis using assms(2,3) unfolding w by (simp only: mod_less)
qed

definition fits :: "string \<Rightarrow> bool" where
  "fits s = (length s < 2 ^ 64)"

lemma writeLengthPrefixed_prefix:
  assumes "writeLengthPrefixed a @ x = writeLengthPrefixed b @ y" "fits a" "fits b"
  shows "a = b \<and> x = y"
proof -
  have "put_uint64 (length a) = put_uint64 (length b)" and rest: "a @ x = b @ y"
    using assms(1) by (auto simp: writeLengthPrefixed_def append_eq_append_conv)
  then have "length a = length b"
    using put_uint64_inj assms(2,3) by (simp add: fits_def)
  then show ?thesis using rest by simp
qed

lemma concat_prefixed_inj:
  assumes "length xs = length ys" "concat (map writeLengthPrefixed xs) = concat (map writeLengthPrefixed ys)"
    "list_all fits xs" "list_all fits ys"
  shows "xs = ys"
  using assms
proof (induction xs ys rule: list_induct2)
  case (Cons x xs y ys)
  then show ?case using writeLengthPrefixed_prefix [of x _ y] by simp
qed simp

lemma cache_key_bytes_inj:
  assumes "cache_key_bytes tok auds = cache_key_bytes tok' auds'"
    "fits tok" "fits tok'" "list_all fits auds" "list_all fits auds'"
    "length auds < 2 ^ 64" "length auds' < 2 ^ 64"
  shows "tok = tok' \<and> auds = auds'"
proof -
  have h: "tok = tok'" "put_uint64 (length auds) @ concat (map writeLengthPrefixed auds) =
      put_uint64 (length auds') @ concat (map writeLengthPrefixed auds')"
    using writeLengthPrefixed_prefix [of tok _ tok'] assms(1-3) by (auto simp: cache_key_bytes_def)
  then have "put_uint64 (length auds) = put_uint64 (length auds')"
    and r: "concat (map writeLengthPrefixed auds) = concat (map writeLengthPrefixed auds')"
    by (auto simp: append_eq_append_conv)
  then have "length auds = length auds'" using put_uint64_inj assms(6,7) by blast
  then show ?thesis using concat_prefixed_inj r h(1) assms(4,5) by blast
qed

section \<open>The cache keeps the contract of an expiring store\<close>

definition tr_ttl :: "tr_cache \<Rightarrow> cached_review \<Rightarrow> int" where
  "tr_ttl c v = (if cr_ok v then tc_successTTL c else tc_failureTTL c)"

definition tr_written :: "tr_cache \<Rightarrow> string \<Rightarrow> (int \<times> cached_review) option" where
  "tr_written c k = map_option (\<lambda>(t, v, _). (t, v)) (last_add (tc_hist c) k)"

definition tr_cache_invar :: "tr_cache \<Rightarrow> bool" where
  "tr_cache_invar c = (lru_sound (tc_lru c) \<and>
     (\<forall>k t v ttl. last_add (tc_hist c) k = Some (t, v, ttl) \<longrightarrow> ttl = tr_ttl c v))"

interpretation token_cache: ttl_store tr_cache_invar tr_cache_Get tr_cache_put tr_written tr_ttl
proof
  fix s now k v
  assume "tr_cache_invar s" "fst (tr_cache_Get now k s) = Some v"
  then show "\<exists>t. tr_written s k = Some (t, v) \<and> now \<le> t + tr_ttl s v"
    unfolding tr_cache_invar_def lru_sound_def tr_cache_Get_def tr_written_def by fastforce
qed (auto simp: tr_cache_invar_def tr_cache_Get_def tr_cache_put_def tr_written_def tr_ttl_def fun_eq_iff
      split: if_splits)

section \<open>Only the API server's answers are accepted\<close>

definition verdict_of :: "tr_status \<Rightarrow> cached_review" where
  "verdict_of st =
     \<lparr>cr_resp = (if st_Authenticated st
        then Some \<lparr>rp_Audiences = st_Audiences st, rp_User = userInfoFrom (st_User st)\<rparr> else None),
      cr_ok = st_Authenticated st\<rparr>"

definition tr_answers ::
  "tr_env \<Rightarrow> (int \<times> tr_spec \<times> (err + tr_status)) list \<Rightarrow> (int \<times> string \<times> cached_review) set" where
  "tr_answers env calls = {(tm, cacheKey (tr_hmac env) (s_token sp) (s_audiences sp), verdict_of st) |
     tm sp st. (tm, sp, Inr st) \<in> set calls \<and> st_Error st = []}"

definition tr_inv :: "tr_env \<Rightarrow> 'a tr_state_scheme \<Rightarrow> bool" where
  "tr_inv env s = (tr_cache_invar (tr_store s) \<and>
     faithful_to tr_written (tr_store s) (tr_answers env (tr_calls s)))"

lemma tr_more_eq:
  assumes "tele.more s = tele.more s'"
  shows "tr_store s = tr_store s'" "tr_calls s = tr_calls s'"
  using assms by (cases s; cases s'; simp)+

lemmas tr_frame = Emit_frame(3) [THEN tr_more_eq(1)] Emit_frame(3) [THEN tr_more_eq(2)]
  record_ops_frame(3) [THEN tr_more_eq(1)] record_ops_frame(3) [THEN tr_more_eq(2)]

lemmas tr_live_defs = TokenReview_AuthenticateToken_def tr_send_def Let_def ReviewRequest_def case_prod_beta

text \<open>The API server's reply to the review a call sends, and what the call makes of it.\<close>

definition tr_reply :: "tr_env \<Rightarrow> token_review \<Rightarrow> string \<Rightarrow> 'a tr_state_scheme \<Rightarrow> err + tr_status" where
  "tr_reply env t token s = snd (tr_create env (length (tr_calls s)) (reviewTimeout t) (buildReview t token))"

definition tr_result :: "err + tr_status \<Rightarrow> auth_result" where
  "tr_result r = (case r of Inl e \<Rightarrow> (None, False, Some e)
     | Inr st \<Rightarrow> if st_Error st = [] then (cr_resp (verdict_of st), cr_ok (verdict_of st), None)
        else (None, False, Some (NewError (''error authenticating using token review: '' @ st_Error st))))"

lemma tr_live_calls:
  assumes "TokenReview_AuthenticateToken env t rid token s = (res, s')"
  shows "tr_calls s' = tr_calls s @ [(t_now s', buildReview t token, tr_reply env t token s)]"
    and "res = tr_result (tr_reply env t token s)"
    and "tr_store s' = tr_store s" and "t_now s \<le> t_now s'"
  using assms
  by (auto simp: tr_live_defs tr_frame frame verdict_of_def tr_reply_def tr_result_def split: sum.splits if_splits)

lemma tr_answers_mono: "tr_answers env calls \<subseteq> tr_answers env (calls @ later)"
  by (auto simp: tr_answers_def)

lemma tr_answers_snoc:
  "st_Error st = [] \<Longrightarrow> (now, cacheKey (tr_hmac env) token (tr_audiences t), verdict_of st) \<in>
     tr_answers env (calls @ [(now, buildReview t token, Inr st)])"
  unfolding tr_answers_def buildReview_def by force

text \<open>The cached authenticator, by whether the store answers.\<close>

lemma cached_hit:
  assumes "tr_cache_Get (t_now s) (cacheKey (tr_hmac env) token (tr_audiences t)) (tr_store s) = (Some v, c)"
    and "cached_AuthenticateToken env t rid token s = (res, s')"
  shows "tr_calls s' = tr_calls s" "res = (cr_resp v, cr_ok v, None)" "t_now s' = t_now s" "tr_store s' = c"
  using assms by (auto simp: cached_AuthenticateToken_def Let_def CacheLookup_def tr_frame frame)

lemma cached_miss:
  assumes get: "tr_cache_Get (t_now s) (cacheKey (tr_hmac env) token (tr_audiences t)) (tr_store s) = (None, c)"
    and run: "cached_AuthenticateToken env t rid token s = (res, s')"
  shows "tr_calls s' = tr_calls s @ [(t_now s', buildReview t token, tr_reply env t token s)]"
    and "res = tr_result (tr_reply env t token s)" and "t_now s \<le> t_now s'"
    and "tr_store s' = (case tr_reply env t token s of
          Inr st \<Rightarrow> if st_Error st = []
            then tr_cache_put (t_now s') (cacheKey (tr_hmac env) token (tr_audiences t)) (verdict_of st) c else c
        | Inl _ \<Rightarrow> c)"
proof -
  define s1 where "s1 = CacheLookup (tr_metrics t) ''tokenreview'' ''miss''
    (Emit rid (tr_log t) EventCacheTokenReviewLookup [(''cache_result'', AStr ''miss'')] (s\<lparr>tr_store := c\<rparr>))"
  have s1: "tr_calls s1 = tr_calls s" "tr_store s1 = c" "t_now s1 = t_now s"
    by (simp_all add: s1_def CacheLookup_def tr_frame frame)
  obtain resp ok er s2 where live: "TokenReview_AuthenticateToken env t rid token s1 = ((resp, ok, er), s2)"
    by (cases "TokenReview_AuthenticateToken env t rid token s1") auto
  note l = tr_live_calls [OF live, unfolded s1]
  have rep: "tr_reply env t token s1 = tr_reply env t token s" by (simp add: tr_reply_def s1)
  have run': "(case er of
        Some e \<Rightarrow> ((None, False, Some e), s2)
      | None \<Rightarrow> ((resp, ok, None),
          s2\<lparr>tr_store := tr_cache_put (t_now s2) (cacheKey (tr_hmac env) token (tr_audiences t))
             \<lparr>cr_resp = (if ok then resp else None), cr_ok = ok\<rparr> (tr_store s2)\<rparr>)) = (res, s')"
    using run live unfolding cached_AuthenticateToken_def Let_def get s1_def by simp
  show "tr_calls s' = tr_calls s @ [(t_now s', buildReview t token, tr_reply env t token s)]"
    "res = tr_result (tr_reply env t token s)" "t_now s \<le> t_now s'"
    "tr_store s' = (case tr_reply env t token s of
          Inr st \<Rightarrow> if st_Error st = []
            then tr_cache_put (t_now s') (cacheKey (tr_hmac env) token (tr_audiences t)) (verdict_of st) c else c
        | Inl _ \<Rightarrow> c)"
    using run' l unfolding rep
    by (auto simp: tr_result_def verdict_of_def split: sum.splits if_splits)
qed

lemma cached_preserves:
  assumes inv: "tr_inv env s" and run: "cached_AuthenticateToken env t rid token s = (res, s')"
  shows "tr_inv env s'" "t_now s \<le> t_now s'" "tr_ttl (tr_store s') = tr_ttl (tr_store s)"
proof -
  let ?k = "cacheKey (tr_hmac env) token (tr_audiences t)"
  obtain h c where get: "tr_cache_Get (t_now s) ?k (tr_store s) = (h, c)" by (meson surj_pair)
  have c: "tr_cache_invar c" "faithful_to tr_written c (tr_answers env (tr_calls s))" "tr_ttl c = tr_ttl (tr_store s)"
    using inv token_cache.invar_lookup [of "tr_store s" "t_now s" ?k]
      token_cache.faithful_lookup [of "tr_store s" _ "t_now s" ?k]
      token_cache.ttl_after_lookup [of "t_now s" ?k "tr_store s"] get
    by (auto simp: tr_inv_def)
  have "tr_inv env s' \<and> t_now s \<le> t_now s' \<and> tr_ttl (tr_store s') = tr_ttl (tr_store s)"
  proof (cases h)
    case (Some v)
    with cached_hit [OF get [unfolded Some] run] c show ?thesis by (simp add: tr_inv_def)
  next
    case None
    note m = cached_miss [OF get [unfolded None] run]
    have f: "faithful_to tr_written c (tr_answers env (tr_calls s'))"
      unfolding m(1) by (rule token_cache.faithful_mono [OF c(2) tr_answers_mono])
    show ?thesis
    proof (cases "\<exists>st. tr_reply env t token s = Inr st \<and> st_Error st = []")
      case True
      then obtain st where st: "tr_reply env t token s = Inr st" "st_Error st = []" by blast
      have "(t_now s', ?k, verdict_of st) \<in> tr_answers env (tr_calls s')"
        using tr_answers_snoc [OF st(2)] m(1) st(1) by metis
      then show ?thesis
        using f c m(3,4) st token_cache.faithful_store token_cache.invar_store token_cache.ttl_after_store
        by (simp add: tr_inv_def)
    next
      case False
      then have "tr_store s' = c" using m(4) by (auto split: sum.splits)
      then show ?thesis using f c m(3) by (simp add: tr_inv_def)
    qed
  qed
  then show "tr_inv env s'" "t_now s \<le> t_now s'" "tr_ttl (tr_store s') = tr_ttl (tr_store s)" by auto
qed

text \<open>An accepted token was authenticated by the API server, not longer ago than the success TTL.\<close>

lemma cached_accepts:
  assumes inv: "tr_inv env s" and run: "cached_AuthenticateToken env t rid token s = ((resp, True, er), s')"
  shows "er = None \<and> (\<exists>tm sp st. (tm, sp, Inr st) \<in> set (tr_calls s') \<and>
    cacheKey (tr_hmac env) (s_token sp) (s_audiences sp) = cacheKey (tr_hmac env) token (tr_audiences t) \<and>
    st_Authenticated st \<and> st_Error st = [] \<and> resp = cr_resp (verdict_of st) \<and>
    t_now s' \<le> tm + max 0 (tc_successTTL (tr_store s)))"
proof -
  let ?k = "cacheKey (tr_hmac env) token (tr_audiences t)"
  obtain h c where get: "tr_cache_Get (t_now s) ?k (tr_store s) = (h, c)" by (meson surj_pair)
  show ?thesis
  proof (cases h)
    case (Some v)
    note hit = cached_hit [OF get [unfolded Some] run]
    obtain tm where "(tm, ?k, v) \<in> tr_answers env (tr_calls s)" "t_now s \<le> tm + tr_ttl (tr_store s) v"
      using token_cache.lookup_answered [of "tr_store s" _ "t_now s" ?k v] inv get Some by (auto simp: tr_inv_def)
    moreover have "cr_ok v" "er = None" "resp = cr_resp v" using hit(2) by auto
    ultimately show ?thesis
      using hit(1,3) by (auto simp: tr_answers_def tr_ttl_def verdict_of_def) force
  next
    case None
    note m = cached_miss [OF get [unfolded None] run]
    obtain st where st: "tr_reply env t token s = Inr st" "st_Error st = []" "st_Authenticated st"
      "resp = cr_resp (verdict_of st)" "er = None"
      using m(2) by (auto simp: tr_result_def verdict_of_def split: sum.splits if_splits)
    have "(t_now s', buildReview t token, Inr st) \<in> set (tr_calls s')" unfolding m(1) st(1) by simp
    then show ?thesis using st by (intro conjI exI) (auto simp: buildReview_def)
  qed
qed

section \<open>Runs of the cached authenticator\<close>

text \<open>A run: the clock advances and tokens are presented, in any order.\<close>

datatype tr_op = Tick nat | Present string string

fun tr_step :: "tr_env \<Rightarrow> token_review \<Rightarrow> tr_op \<Rightarrow> 'a tr_state_scheme \<Rightarrow> 'a tr_state_scheme" where
  "tr_step env t (Tick n) s = s\<lparr>t_now := t_now s + int n\<rparr>"
| "tr_step env t (Present rid token) s = snd (cached_AuthenticateToken env t rid token s)"

definition tr_run :: "tr_env \<Rightarrow> token_review \<Rightarrow> tr_op list \<Rightarrow> 'a tr_state_scheme \<Rightarrow> 'a tr_state_scheme" where
  "tr_run env t ops s = fold (tr_step env t) ops s"

fun op_fits :: "tr_op \<Rightarrow> bool" where
  "op_fits (Tick _) = True"
| "op_fits (Present _ token) = fits token"

text \<open>Every review sent asks for the configured audiences, about a token of a representable length.\<close>

definition tr_calls_ok :: "token_review \<Rightarrow> 'a tr_state_scheme \<Rightarrow> bool" where
  "tr_calls_ok t s = (\<forall>(tm, sp, r) \<in> set (tr_calls s). s_audiences sp = tr_audiences t \<and> fits (s_token sp))"

lemma cached_calls_ok:
  assumes "tr_calls_ok t s" "fits token" "cached_AuthenticateToken env t rid token s = (res, s')"
  shows "tr_calls_ok t s'"
proof -
  obtain h c where get: "tr_cache_Get (t_now s) (cacheKey (tr_hmac env) token (tr_audiences t)) (tr_store s) = (h, c)"
    by (meson surj_pair)
  show ?thesis
  proof (cases h)
    case (Some v)
    show ?thesis using cached_hit(1) [OF get [unfolded Some] assms(3)] assms(1) by (simp add: tr_calls_ok_def)
  next
    case None
    show ?thesis using cached_miss(1) [OF get [unfolded None] assms(3)] assms(1,2)
      by (auto simp: tr_calls_ok_def buildReview_def)
  qed
qed

lemma tr_step_preserves:
  assumes "tr_inv env s" "tr_calls_ok t s" "op_fits op"
  shows "tr_inv env (tr_step env t op s) \<and> tr_calls_ok t (tr_step env t op s) \<and>
    tr_ttl (tr_store (tr_step env t op s)) = tr_ttl (tr_store s)"
proof (cases op)
  case (Tick n)
  then show ?thesis using assms by (simp add: tr_inv_def tr_calls_ok_def)
next
  case (Present rid token)
  obtain res s' where run: "cached_AuthenticateToken env t rid token s = (res, s')" by (meson surj_pair)
  then show ?thesis
    using Present cached_preserves [OF assms(1) run] cached_calls_ok [OF assms(2) _ run] assms(3) by simp
qed

lemma tr_run_preserves:
  assumes "tr_inv env s" "tr_calls_ok t s" "list_all op_fits ops"
  shows "tr_inv env (tr_run env t ops s) \<and> tr_calls_ok t (tr_run env t ops s) \<and>
    tr_ttl (tr_store (tr_run env t ops s)) = tr_ttl (tr_store s)"
  using assms
proof (induction ops arbitrary: s)
  case (Cons op ops)
  then show ?case using tr_step_preserves [of env s t op] by (simp add: tr_run_def)
qed (simp add: tr_run_def)

lemma tr_inv_new:
  "lru_sound lru \<Longrightarrow> tr_store s = newTokenCache lru a b \<Longrightarrow> tr_inv env s"
  by (simp add: tr_inv_def tr_cache_invar_def newTokenCache_def faithful_to_def tr_written_def)

lemma tr_ttl_success: "tr_ttl c = tr_ttl c' \<Longrightarrow> tc_successTTL c = tc_successTTL c'"
  by (drule fun_cong [of _ _ "\<lparr>cr_resp = None, cr_ok = True\<rparr>"]) (simp add: tr_ttl_def)

text \<open>
  C12. Revocation lag of the TokenReview cache. Start from an empty cache and let the clock advance and
  tokens be presented in any order. Whenever a token is then accepted, the API server itself
  authenticated exactly this token for exactly the configured audiences, and it did so no longer ago
  than the success TTL; the response returned is the one of that review. The keyed hash is assumed
  collision-free and the store to honour expiry.
\<close>

theorem token_review_revocation_lag:
  assumes "lru_sound lru" and "inj (tr_hmac env)"
    and "tr_store s0 = newTokenCache lru successTTL failureTTL" and "tr_calls s0 = []"
    and "list_all fits (tr_audiences t)" and "length (tr_audiences t) < 2 ^ 64"
    and "list_all op_fits ops" and "fits token"
    and "s = tr_run env t ops s0"
    and "fst (snd (fst (cached_AuthenticateToken env t rid token s)))"
  shows "\<exists>tm st. (tm, buildReview t token, Inr st) \<in> set (tr_calls (snd (cached_AuthenticateToken env t rid token s))) \<and>
    st_Authenticated st \<and> st_Error st = [] \<and>
    fst (cached_AuthenticateToken env t rid token s) = (cr_resp (verdict_of st), True, None) \<and>
    t_now (snd (cached_AuthenticateToken env t rid token s)) \<le> tm + max 0 successTTL"
proof -
  obtain resp er s' where run: "cached_AuthenticateToken env t rid token s = ((resp, True, er), s')"
    using assms(10) by (cases "cached_AuthenticateToken env t rid token s") auto
  have inv: "tr_inv env s" "tr_calls_ok t s" and ttl: "tc_successTTL (tr_store s) = successTTL"
    using tr_run_preserves [OF tr_inv_new [OF assms(1,3)] _ assms(7), of t] assms(3,4,9) tr_ttl_success
    by (auto simp: tr_calls_ok_def newTokenCache_def dest!: tr_ttl_success)
  obtain tm sp st where *: "(tm, sp, Inr st) \<in> set (tr_calls s')"
    "cacheKey (tr_hmac env) (s_token sp) (s_audiences sp) = cacheKey (tr_hmac env) token (tr_audiences t)"
    "st_Authenticated st" "st_Error st = []" "resp = cr_resp (verdict_of st)" "er = None"
    "t_now s' \<le> tm + max 0 successTTL"
    using cached_accepts [OF inv(1) run] ttl by metis
  have sp: "s_audiences sp = tr_audiences t" "fits (s_token sp)"
    using cached_calls_ok [OF inv(2) assms(8) run] *(1) by (auto simp: tr_calls_ok_def)
  have "cache_key_bytes (s_token sp) (s_audiences sp) = cache_key_bytes token (tr_audiences t)"
    using *(2) assms(2) by (simp add: cacheKey_def inj_eq)
  then have "sp = buildReview t token"
    using cache_key_bytes_inj [of "s_token sp" _ token] sp assms(5,6,8) by (simp add: buildReview_def)
  then show ?thesis using * run by auto
qed

definition demo_env :: tr_env where
  "demo_env = \<lparr>tr_create = (\<lambda>n _ sp. (5, if n = 0 \<and> s_token sp = ''abc''
      then Inr \<lparr>st_Authenticated = True, st_Error = [], st_Audiences = [],
        st_User = \<lparr>u_name = ''jane'', u_uid = [], u_groups = [], u_extra = []\<rparr>\<rparr>
      else Inl (Sentinel ErrDeadlineExceeded))),
     tr_hmac = id, tr_isTimeout = (\<lambda>_. False)\<rparr>"

definition demo_reviewer :: token_review where
  "demo_reviewer = \<lparr>tr_logger = None, tr_audiences = [''kubernetes''], tr_timeout = 0, tr_metrics = Recorder\<rparr>"

definition demo_state :: "tr_cache \<Rightarrow> tr_state" where
  "demo_state c = \<lparr>t_now = 0, t_log = [], t_met = [], rs_recorded = False, rs_termination = ([], []),
     tr_store = c, tr_calls = []\<rparr>"

lemmas demo_eval = demo_env_def demo_reviewer_def demo_state_def newTokenCache_def lru_unbounded_def tr_run_def
  cached_AuthenticateToken_def tr_cache_Get_def tr_cache_put_def TokenReview_AuthenticateToken_def tr_send_def
  buildReview_def tr_log_def Let_def CacheLookup_def ReviewRequest_def record_ops_def

theorem token_review_revocation_lag_witness:
  "\<exists>tm st. (tm, buildReview demo_reviewer ''abc'', Inr st) \<in> set (tr_calls (snd (cached_AuthenticateToken
       demo_env demo_reviewer [] ''abc''
       (tr_run demo_env demo_reviewer [Present [] ''abc'', Tick 7] (demo_state (newTokenCache lru_unbounded 10 0)))))) \<and>
    st_Authenticated st"
proof -
  have hit: "fst (snd (fst (cached_AuthenticateToken demo_env demo_reviewer [] ''abc''
    (tr_run demo_env demo_reviewer [Present [] ''abc'', Tick 7] (demo_state (newTokenCache lru_unbounded 10 0))))))"
    by (simp add: demo_eval)
  show ?thesis
    using token_review_revocation_lag [OF lru_unbounded_sound _ _ _ _ _ _ _ refl hit, of 10 0]
    by (auto simp: demo_env_def demo_state_def demo_reviewer_def fits_def)
qed

text \<open>
  C13. A review that fails is never an acceptance and never cached: whenever the cached authenticator
  returns an error, it returns no response and no acceptance, and what the cache holds for every key
  is what it held before.
\<close>

theorem token_review_fail_closed:
  assumes "cached_AuthenticateToken env t rid token s = ((resp, ok, Some e), s')"
  shows "resp = None \<and> \<not> ok \<and> tr_written (tr_store s') = tr_written (tr_store s)"
proof -
  obtain h c where get: "tr_cache_Get (t_now s) (cacheKey (tr_hmac env) token (tr_audiences t)) (tr_store s) = (h, c)"
    by (meson surj_pair)
  have c: "tr_written c = tr_written (tr_store s)"
    using token_cache.written_lookup [of "t_now s" "cacheKey (tr_hmac env) token (tr_audiences t)" "tr_store s"] get by simp
  show ?thesis
  proof (cases h)
    case (Some v)
    then show ?thesis using cached_hit(2) [OF get [unfolded Some] assms] by simp
  next
    case None
    then show ?thesis using cached_miss(2,4) [OF get [unfolded None] assms] c
      by (auto simp: tr_result_def split: sum.splits if_splits)
  qed
qed

theorem token_review_fail_closed_witness:
  "let (res, s') = cached_AuthenticateToken demo_env demo_reviewer [] ''xyz'' (demo_state (newTokenCache lru_unbounded 10 10))
   in res = (None, False, Some (Sentinel ErrDeadlineExceeded)) \<and> tr_written (tr_store s') = tr_written (newTokenCache lru_unbounded 10 10)"
proof -
  let ?s = "demo_state (newTokenCache lru_unbounded 10 10)"
  have f: "fst (cached_AuthenticateToken demo_env demo_reviewer [] ''xyz'' ?s) = (None, False, Some (Sentinel ErrDeadlineExceeded))"
    by (simp add: demo_eval)
  then have run: "cached_AuthenticateToken demo_env demo_reviewer [] ''xyz'' ?s =
    ((None, False, Some (Sentinel ErrDeadlineExceeded)), snd (cached_AuthenticateToken demo_env demo_reviewer [] ''xyz'' ?s))"
    by (metis prod.collapse)
  show ?thesis
    using token_review_fail_closed [OF run] f by (simp add: case_prod_beta demo_state_def)
qed

text \<open>
  Two different questions never share a cache key: with a collision-free hash, equal keys mean
  the same token and the same audiences, in the same order, however the bytes of one could be read as
  the other's.
\<close>

theorem cache_key_injective:
  assumes "inj hmac" "cacheKey hmac tok auds = cacheKey hmac tok' auds'"
    "fits tok" "fits tok'" "list_all fits auds" "list_all fits auds'"
    "length auds < 2 ^ 64" "length auds' < 2 ^ 64"
  shows "tok = tok' \<and> auds = auds'"
  using assms cache_key_bytes_inj [of tok auds tok' auds'] by (simp add: cacheKey_def inj_eq)

theorem cache_key_injective_witness:
  "cacheKey id ''x'' [''yz''] \<noteq> cacheKey id ''xy'' [''z'']"
  using cache_key_injective [of id "''x''" "[''yz'']" "''xy''" "[''z'']"] by (auto simp: fits_def)

end
