(* ===== verification/SubjectAccessReview.thy ===== *)
theory SubjectAccessReview
  imports TokenReview
begin

text \<open>
  The impersonation authorizer of \<^verbatim>\<open>pkg/proxy/subjectaccessreview\<close>: \<^verbatim>\<open>cache.go\<close> and
  \<^verbatim>\<open>subjectaccessreview.go\<close>.

  Outside code: the API server's verdict (\<open>sar_create\<close>), \<open>json.Marshal\<close> of a review spec
  (\<open>sar_marshal\<close>), the expiring store, and the scheduler. The scheduler says, for each question, how the
  call-sharing group (\<open>singleflight\<close>) and the request's context behave: whether this caller leads the
  flight or joined one, whether the result was shared, whether the context finished first. A flight is
  one API call whose verdict is cached; joining one observes the same transition. Flights led by
  concurrent requests, and flights whose caller stopped waiting, finish as separate steps of a run.

  The theorems: a target identity is returned only when the API server allowed each of its
  components for this requester, at most the allow TTL before the check began; errors are never
  cached; over-wide requests are refused without any review; on success the impersonation headers
  are gone and all others are kept.
\<close>

section \<open>The decision cache\<close>

record sar_spec =
  sp_User :: string
  sp_UID :: string
  sp_Groups :: "string list"
  sp_Extra :: "(string \<times> string list) list"
  sp_Verb :: string
  sp_Group :: string
  sp_Resource :: string
  sp_Subresource :: string
  sp_Name :: string

record decision_cache =
  dc_lru :: "bool lru"
  dc_hist :: "bool lru_event list"
  dc_allowTTL :: int
  dc_denyTTL :: int

definition maxCacheKeySize :: int where
  "maxCacheKeySize = 10000"

text \<open>A nil cache is \<open>None\<close>.\<close>

definition newDecisionCache :: "bool lru \<Rightarrow> int \<Rightarrow> int \<Rightarrow> decision_cache option" where
  "newDecisionCache lru allowTTL denyTTL =
     (if allowTTL \<le> 0 \<and> denyTTL \<le> 0 then None
      else Some \<lparr>dc_lru = lru, dc_hist = [], dc_allowTTL = allowTTL, dc_denyTTL = denyTTL\<rparr>)"

definition cache_key :: "(sar_spec \<Rightarrow> string option) \<Rightarrow> sar_spec \<Rightarrow> decision_cache option \<Rightarrow> string option" where
  "cache_key marshal spec c =
     (if c = None then None
      else case marshal spec of
        None \<Rightarrow> None
      | Some b \<Rightarrow> if int (length b) > maxCacheKeySize then None else Some b)"

definition cache_get :: "int \<Rightarrow> string \<Rightarrow> decision_cache option \<Rightarrow> bool option \<times> decision_cache option" where
  "cache_get now key co = (case co of
     None \<Rightarrow> (None, None)
   | Some c \<Rightarrow> (dc_lru c (dc_hist c) now key, Some (c\<lparr>dc_hist := dc_hist c @ [LGet now key]\<rparr>)))"

definition cache_put :: "int \<Rightarrow> string \<Rightarrow> bool \<Rightarrow> decision_cache option \<Rightarrow> decision_cache option" where
  "cache_put now key allowed co = (case co of
     None \<Rightarrow> None
   | Some c \<Rightarrow>
       let ttl = (if allowed then dc_allowTTL c else dc_denyTTL c) in
       if ttl \<le> 0 then Some c
       else Some (c\<lparr>dc_hist := dc_hist c @ [LAdd now key allowed ttl]\<rparr>))"

section \<open>The reviewer\<close>

record sar =
  sar_logger :: "logger option"
  sar_metrics :: recorder
  sar_timeout :: int
  sar_maxHeaderValues :: int

datatype flight = Lead | Join sar_spec

record schedule =
  q_flight :: flight
  q_shared :: bool
  q_ctxDone :: "err option"
  q_ctxErr :: "err option"
  q_requesterDone :: bool

record sar_env =
  sar_create :: "nat \<Rightarrow> sar_spec \<Rightarrow> nat \<times> (err + bool)"
  sar_marshal :: "sar_spec \<Rightarrow> string option"
  sar_isTimeout :: "err \<Rightarrow> bool"
  sar_sched :: "nat \<Rightarrow> schedule"

record sar_state = tr_state +
  sar_cache :: "decision_cache option"
  sar_calls :: "(int \<times> sar_spec \<times> (err + bool)) list"
  sar_asked :: nat

text \<open>\<open>New\<close>: a cap that is not positive is refused.\<close>

definition sar_New :: "int \<Rightarrow> int \<Rightarrow> logger option \<Rightarrow> err + sar" where
  "sar_New sarTimeout maxHeaderValues lg =
     (if maxHeaderValues \<le> 0
      then Inl (NewError (''maxHeaderValues must be greater than 0, got '' @ itoa maxHeaderValues))
      else Inr \<lparr>sar_logger = Some (case lg of Some l \<Rightarrow> l | None \<Rightarrow> Discard), sar_metrics = NilRecorder,
         sar_timeout = sarTimeout, sar_maxHeaderValues = maxHeaderValues\<rparr>)"

definition sar_log :: "sar \<Rightarrow> logger" where
  "sar_log s = (case sar_logger s of Some l \<Rightarrow> l | None \<Rightarrow> Discard)"

definition targetKind :: "string \<Rightarrow> string" where
  "targetKind resource =
     (if resource = ''users'' then ''user''
      else if resource = ''groups'' then ''group''
      else if resource = ''uids'' then ''uid''
      else if has_prefix resource ''userextras/'' then ''extra''
      else ''unknown'')"

definition decision_text :: "bool \<Rightarrow> string" where
  "decision_text allowed = (if allowed then ''allow'' else ''deny'')"

definition impersonationReviewSpec :: "string \<Rightarrow> string \<Rightarrow> user_info \<Rightarrow> sar_spec" where
  "impersonationReviewSpec resource0 name requester =
     (let extras = fold (\<lambda>(k, v) m. AList.update k v m) (u_extra requester) [];
          slash = (case index_char CHR ''/'' resource0 of Some i \<Rightarrow> i > 0 | None \<Rightarrow> False);
          parts = split_on CHR ''/'' resource0;
          resource = (if slash then parts ! 0 else resource0);
          subresource = (if slash then parts ! 1 else []);
          grp = (if slash \<or> resource = ''uids'' then ''authentication.k8s.io'' else []) in
      \<lparr>sp_User = u_name requester, sp_UID = u_uid requester, sp_Groups = u_groups requester,
       sp_Extra = extras, sp_Verb = ''impersonate'', sp_Group = grp, sp_Resource = resource,
       sp_Subresource = subresource, sp_Name = name\<rparr>)"

text \<open>A check returns whether it allowed and the error.\<close>

type_synonym check = "bool \<times> err option"

definition liveCheck ::
  "sar_env \<Rightarrow> sar \<Rightarrow> sar_spec \<Rightarrow> 'a sar_state_scheme \<Rightarrow> check \<times> 'a sar_state_scheme" where
  "liveCheck env sr spec s0 =
     (let (el, r) = sar_create env (length (sar_calls s0)) spec; now = t_now s0 + int el;
          s = s0\<lparr>t_now := now, sar_calls := sar_calls s0 @ [(now, spec, r)]\<rparr>;
          er = (case r of Inl e \<Rightarrow> Some e | Inr _ \<Rightarrow> None);
          allowed = (r = Inr True);
          s1 = ReviewRequest (sar_metrics sr) ''sar'' (ReviewOutcomeFor (sar_isTimeout env) er allowed) (int el) s in
      case er of
        Some e \<Rightarrow> ((False, Some (wrap_err ErrCreateSubjectAccessReview e)), s1)
      | None \<Rightarrow> ((allowed, None), s1))"

definition is_ctx_error :: "err \<Rightarrow> bool" where
  "is_ctx_error e = (err_is e ErrCanceled \<or> err_is e ErrDeadlineExceeded)"

definition observeLiveCheck ::
  "sar \<Rightarrow> bool \<Rightarrow> string \<Rightarrow> string \<Rightarrow> int \<Rightarrow> bool \<Rightarrow> bool \<Rightarrow> err option \<Rightarrow>
   'a sar_state_scheme \<Rightarrow> 'a sar_state_scheme" where
  "observeLiveCheck sr requesterDone rid kind start coalesced allowed er s = (case er of
     Some e \<Rightarrow>
       let gone = is_ctx_error e \<and> requesterDone;
           reason = (if gone then ''client_canceled'' else ''authorization_dependency_error'');
           level = (if gone then LevelDebug else LevelError);
           logged = (if is_ctx_error e \<and> \<not> requesterDone
             then Errorf (''subject access review timed out after '' @ duration_string (sar_timeout sr) @ '': '' @ err_text e) [e]
             else e) in
       EmitLevel rid (sar_log sr) EventAuthzSARFailed level [(''reason'', AStr reason), ErrAttr (Some logged)] s
   | None \<Rightarrow>
       Emit rid (sar_log sr) EventAuthzSARCompleted
         [(''decision'', AStr (decision_text allowed)),
          (''duration_ms'', AInt (millis (nat (t_now s - start)))),
          (''request_coalesced'', ABool coalesced),
          (''target_kind'', AStr kind)] s)"

definition timedLiveCheck ::
  "sar_env \<Rightarrow> sar \<Rightarrow> schedule \<Rightarrow> string \<Rightarrow> string \<Rightarrow> bool \<Rightarrow> sar_spec \<Rightarrow>
   'a sar_state_scheme \<Rightarrow> check \<times> 'a sar_state_scheme" where
  "timedLiveCheck env sr q rid kind coalesced spec s =
     (let start = t_now s; ((allowed, er), s1) = liveCheck env sr spec s in
      ((allowed, er), observeLiveCheck sr (q_requesterDone q) rid kind start coalesced allowed er s1))"

text \<open>The function a flight runs: one live check, its verdict cached when it is definitive.\<close>

definition flight_fn ::
  "sar_env \<Rightarrow> sar \<Rightarrow> string \<Rightarrow> sar_spec \<Rightarrow> 'a sar_state_scheme \<Rightarrow> check \<times> 'a sar_state_scheme" where
  "flight_fn env sr key spec s =
     (let ((allowed, er), s1) = liveCheck env sr spec s in
      case er of
        Some e \<Rightarrow> ((False, Some e), s1)
      | None \<Rightarrow> ((allowed, None), s1\<lparr>sar_cache := cache_put (t_now s1) key allowed (sar_cache s1)\<rparr>))"

definition flight_spec :: "sar_env \<Rightarrow> string \<Rightarrow> sar_spec \<Rightarrow> flight \<Rightarrow> sar_spec" where
  "flight_spec env key spec f = (case f of
     Lead \<Rightarrow> spec
   | Join sp \<Rightarrow> if sar_marshal env sp = Some key then sp else spec)"

definition sharedLiveCheck ::
  "sar_env \<Rightarrow> sar \<Rightarrow> schedule \<Rightarrow> string \<Rightarrow> string \<Rightarrow> string \<Rightarrow> sar_spec \<Rightarrow>
   'a sar_state_scheme \<Rightarrow> check \<times> 'a sar_state_scheme" where
  "sharedLiveCheck env sr q rid kind key spec s =
     (let start = t_now s in
      case q_ctxDone q of
        Some ce \<Rightarrow>
          let e = wrap_err ErrCreateSubjectAccessReview ce in
          ((False, Some e), observeLiveCheck sr (q_requesterDone q) rid kind start False False (Some e) s)
      | None \<Rightarrow>
          let ((allowed, er), s1) = flight_fn env sr key (flight_spec env key spec (q_flight q)) s in
          case er of
            Some e \<Rightarrow>
              if q_shared q \<and> q_ctxErr q = None \<and> is_ctx_error e
              then timedLiveCheck env sr q rid kind False spec s1
              else ((False, Some e), observeLiveCheck sr (q_requesterDone q) rid kind start (q_shared q) False (Some e) s1)
          | None \<Rightarrow>
              ((allowed, None), observeLiveCheck sr (q_requesterDone q) rid kind start (q_shared q) allowed None s1))"

definition checkRbacImpersonationAuthorization ::
  "sar_env \<Rightarrow> sar \<Rightarrow> string \<Rightarrow> string \<Rightarrow> string \<Rightarrow> user_info \<Rightarrow> 'a sar_state_scheme \<Rightarrow> check \<times> 'a sar_state_scheme" where
  "checkRbacImpersonationAuthorization env sr rid resource name requester s00 =
     (let q = sar_sched env (sar_asked s00); s0 = s00\<lparr>sar_asked := Suc (sar_asked s00)\<rparr>;
          spec = impersonationReviewSpec resource name requester; kind = targetKind resource in
      case cache_key (sar_marshal env) spec (sar_cache s0) of
        None \<Rightarrow>
          timedLiveCheck env sr q rid kind False spec
            (CacheLookup (sar_metrics sr) ''sar'' ''bypass''
              (Emit rid (sar_log sr) EventCacheSARLookup [(''cache_result'', AStr ''bypass'')] s0))
      | Some key \<Rightarrow>
          let (hit, c) = cache_get (t_now s0) key (sar_cache s0); s = s0\<lparr>sar_cache := c\<rparr> in
          case hit of
            Some allowed \<Rightarrow>
              ((allowed, None),
               CacheLookup (sar_metrics sr) ''sar'' ''hit''
                 (Emit rid (sar_log sr) EventCacheSARLookup
                    [(''cache_result'', AStr ''hit''), (''decision'', AStr (decision_text allowed))] s))
          | None \<Rightarrow>
              sharedLiveCheck env sr q rid kind key spec
                (CacheLookup (sar_metrics sr) ''sar'' ''miss''
                  (Emit rid (sar_log sr) EventCacheSARLookup [(''cache_result'', AStr ''miss'')] s)))"

section \<open>Authorizing a request's impersonation headers\<close>

definition impersonation_key :: "string \<Rightarrow> bool" where
  "impersonation_key k = has_prefix (to_lower k) ''impersonate-''"

fun countImpersonationHeaderValues :: "header \<Rightarrow> nat" where
  "countImpersonationHeaderValues [] = 0"
| "countImpersonationHeaderValues ((key, values) # h) =
     (if impersonation_key key then length values else 0) + countImpersonationHeaderValues h"

definition quote1 :: "string \<Rightarrow> string" where
  "quote1 s = [char_of (39::nat)] @ s @ [char_of (39::nat)]"

text \<open>
  The loop over the values of one header: each is checked in turn, the first error or denial ends the
  request. \<open>deny\<close> builds the typed denial for a value.
\<close>

fun check_values ::
  "sar_env \<Rightarrow> sar \<Rightarrow> string \<Rightarrow> string \<Rightarrow> user_info \<Rightarrow> (string \<Rightarrow> err) \<Rightarrow> string list \<Rightarrow>
   'a sar_state_scheme \<Rightarrow> err option \<times> 'a sar_state_scheme" where
  "check_values env sr rid resource requester deny [] s = (None, s)"
| "check_values env sr rid resource requester deny (v # vs) s =
     (let ((allowed, er), s1) = checkRbacImpersonationAuthorization env sr rid resource v requester s in
      case er of
        Some e \<Rightarrow> (Some e, s1)
      | None \<Rightarrow> if \<not> allowed then (Some (deny v), s1)
               else check_values env sr rid resource requester deny vs s1)"

definition extra_resource :: "string \<Rightarrow> string" where
  "extra_resource extraName = ''userextras/'' @ extraName"

definition extra_append :: "string \<Rightarrow> string list \<Rightarrow> (string \<times> string list) list \<Rightarrow> (string \<times> string list) list" where
  "extra_append k vs m =
     (if vs = [] then m
      else AList.update k ((case map_of m k of Some old \<Rightarrow> old | None \<Rightarrow> []) @ vs) m)"

text \<open>
  How the whole check ends: an index panic (\<open>values[0]\<close> of an empty slice), an error, or the target
  (\<open>None\<close> when the request asks for no impersonation).
\<close>

datatype sar_result = SarPanic | SarErr err | SarOk "user_info option"

text \<open>One header of the loop: the target so far, or how the request ends.\<close>

definition imp_header ::
  "sar_env \<Rightarrow> sar \<Rightarrow> string \<Rightarrow> user_info \<Rightarrow> string \<Rightarrow> string list \<Rightarrow> user_info \<Rightarrow>
   'a sar_state_scheme \<Rightarrow> (sar_result + user_info) \<times> 'a sar_state_scheme" where
  "imp_header env sr rid requester key values target s =
     (let k = to_lower key; n = u_name requester in
      if k = ''impersonate-user'' then
        (case values of
           [] \<Rightarrow> (Inl SarPanic, s)
         | v # _ \<Rightarrow>
             if v \<noteq> [] then
               (case check_values env sr rid ''users'' requester (\<lambda>v. ImpersonationAuthError n ''user'' (quote1 v)) [v] s of
                  (Some e, s1) \<Rightarrow> (Inl (SarErr e), s1)
                | (None, s1) \<Rightarrow> (Inr (target\<lparr>u_name := v\<rparr>), s1))
             else (Inr target, s))
      else if k = ''impersonate-group'' then
        (case check_values env sr rid ''groups'' requester (\<lambda>v. ImpersonationAuthError n ''group'' (quote1 v)) values s of
           (Some e, s1) \<Rightarrow> (Inl (SarErr e), s1)
         | (None, s1) \<Rightarrow> (Inr (target\<lparr>u_groups := u_groups target @ values\<rparr>), s1))
      else if k = ''impersonate-uid'' then
        (case values of
           [] \<Rightarrow> (Inl SarPanic, s)
         | v # _ \<Rightarrow>
             (case check_values env sr rid ''uids'' requester (\<lambda>v. ImpersonationAuthError n ''uid'' (quote1 v)) [v] s of
                (Some e, s1) \<Rightarrow> (Inl (SarErr e), s1)
              | (None, s1) \<Rightarrow> (Inr (target\<lparr>u_uid := v\<rparr>), s1)))
      else if has_prefix k ''impersonate-extra-'' then
        (let extraName = to_lower (drop 18 key) in
         case check_values env sr rid (extra_resource extraName) requester
                (\<lambda>v. ImpersonationAuthError n ''extra info'' (quote1 extraName @ ''='' @ quote1 v)) values s of
           (Some e, s1) \<Rightarrow> (Inl (SarErr e), s1)
         | (None, s1) \<Rightarrow> (Inr (target\<lparr>u_extra := extra_append extraName values (u_extra target)\<rparr>), s1))
      else (Inl (SarErr (NewError (''unknown impersonation header '' @ quote1 key))), s))"

fun imp_loop ::
  "sar_env \<Rightarrow> sar \<Rightarrow> string \<Rightarrow> user_info \<Rightarrow> bool \<Rightarrow> header \<Rightarrow> user_info \<Rightarrow>
   'a sar_state_scheme \<Rightarrow> (sar_result + user_info) \<times> 'a sar_state_scheme" where
  "imp_loop env sr rid requester hasUser [] target s = (Inr target, s)"
| "imp_loop env sr rid requester hasUser ((key, values) # h) target s =
     (if \<not> impersonation_key key then imp_loop env sr rid requester hasUser h target s
      else if \<not> hasUser then (Inl (SarErr (Sentinel ErrorNoImpersonationUserFound)), s)
      else case imp_header env sr rid requester key values target s of
        (Inl r, s1) \<Rightarrow> (Inl r, s1)
      | (Inr target', s1) \<Rightarrow> imp_loop env sr rid requester hasUser h target' s1)"

text \<open>
  The rebuilt header map: every key not consumed, its values read through \<open>Values\<close> and added one by one.
\<close>

fun kept_headers :: "header \<Rightarrow> header \<Rightarrow> header \<Rightarrow> header" where
  "kept_headers full [] out = out"
| "kept_headers full ((k, _) # h) out =
     (if impersonation_key k then kept_headers full h out
      else kept_headers full h (fold (\<lambda>v o'. hdr_add o' k v) (hdr_values full k) out))"

definition emptyTarget :: user_info where
  "emptyTarget = \<lparr>u_name = [], u_uid = [], u_groups = [], u_extra = []\<rparr>"

definition CheckAuthorizedForImpersonation ::
  "sar_env \<Rightarrow> sar \<Rightarrow> request \<Rightarrow> user_info \<Rightarrow> 'a sar_state_scheme \<Rightarrow> sar_result \<times> request \<times> 'a sar_state_scheme" where
  "CheckAuthorizedForImpersonation env sr req requester s =
     (let count = countImpersonationHeaderValues (Header req); rid = RequestIDFrom req in
      if int count > sar_maxHeaderValues sr then
        (SarErr (wrap_text ErrTooManyImpersonationHeaderValues
           (''request carries '' @ nat_digits count @ '' impersonation header values, the limit is '' @
            itoa (sar_maxHeaderValues sr))), req, s)
      else
        let hasUser = hdr_get (Header req) ''impersonate-user'' \<noteq> [] in
        case imp_loop env sr rid requester hasUser (Header req) emptyTarget s of
          (Inl r, s1) \<Rightarrow> (r, req, s1)
        | (Inr target, s1) \<Rightarrow>
            if \<not> list_ex (impersonation_key \<circ> fst) (Header req) then (SarOk None, req, s1)
            else
              (SarOk (Some target),
               req\<lparr>Header := kept_headers (Header req) (Header req) []\<rparr>,
               Emit rid (sar_log sr) EventAuthzImpersonationResolved
                 [(''target_kind'', AStr ''user''), (''target_name'', AStr (Bound (u_name target) MaxIdentity))] s1))"

section \<open>The decision cache keeps the contract of an expiring store\<close>

definition dc_ttl :: "decision_cache option \<Rightarrow> bool \<Rightarrow> int" where
  "dc_ttl co v = (case co of None \<Rightarrow> 0 | Some c \<Rightarrow> if v then dc_allowTTL c else dc_denyTTL c)"

definition dc_written :: "decision_cache option \<Rightarrow> string \<Rightarrow> (int \<times> bool) option" where
  "dc_written co k = (case co of None \<Rightarrow> None
     | Some c \<Rightarrow> map_option (\<lambda>(t, v, _). (t, v)) (last_add (dc_hist c) k))"

definition dc_invar :: "decision_cache option \<Rightarrow> bool" where
  "dc_invar co = (case co of None \<Rightarrow> True
     | Some c \<Rightarrow> lru_sound (dc_lru c) \<and>
         (\<forall>k t v ttl. last_add (dc_hist c) k = Some (t, v, ttl) \<longrightarrow> ttl = dc_ttl co v))"

interpretation sar_store: ttl_store dc_invar cache_get cache_put dc_written dc_ttl
proof
  fix s now k v
  assume "dc_invar s" "fst (cache_get now k s) = Some v"
  then show "\<exists>t. dc_written s k = Some (t, v) \<and> now \<le> t + dc_ttl s v"
    unfolding dc_invar_def lru_sound_def cache_get_def dc_written_def
    by (auto split: option.splits) fastforce
qed (auto simp: dc_invar_def cache_get_def cache_put_def dc_written_def dc_ttl_def fun_eq_iff Let_def
      split: option.splits if_splits)

lemma dc_invar_new: "lru_sound lru \<Longrightarrow> dc_invar (newDecisionCache lru a d)"
  by (simp add: newDecisionCache_def dc_invar_def)

lemma dc_written_new: "dc_written (newDecisionCache lru a d) = (\<lambda>_. None)"
  by (simp add: newDecisionCache_def dc_written_def fun_eq_iff)

section \<open>Every verdict is an answer of the API server\<close>

definition sar_answers ::
  "sar_env \<Rightarrow> (int \<times> sar_spec \<times> (err + bool)) list \<Rightarrow> (int \<times> string \<times> bool) set" where
  "sar_answers env calls = {(tm, key, v) | tm key v. \<exists>sp. (tm, sp, Inr v) \<in> set calls \<and> sar_marshal env sp = Some key}"

definition sar_inv :: "sar_env \<Rightarrow> 'a sar_state_scheme \<Rightarrow> bool" where
  "sar_inv env s = (dc_invar (sar_cache s) \<and>
     faithful_to dc_written (sar_cache s) (sar_answers env (sar_calls s)))"

text \<open>What every step of the reviewer respects: calls are only added, time does not go back, lifetimes are fixed.\<close>

definition sar_extends :: "'a sar_state_scheme \<Rightarrow> 'a sar_state_scheme \<Rightarrow> bool" where
  "sar_extends s s' = ((\<exists>ext. sar_calls s' = sar_calls s @ ext) \<and> t_now s \<le> t_now s' \<and>
     dc_ttl (sar_cache s') = dc_ttl (sar_cache s))"

lemma sar_extends_refl [simp]: "sar_extends s s"
  by (simp add: sar_extends_def)

lemma sar_extends_trans [trans]: "sar_extends s s' \<Longrightarrow> sar_extends s' s'' \<Longrightarrow> sar_extends s s''"
  by (auto simp: sar_extends_def)

lemma sar_more_eq:
  assumes "tele.more s = tele.more s'"
  shows "sar_cache s = sar_cache s'" "sar_calls s = sar_calls s'" "sar_asked s = sar_asked s'"
    "tr_store s = tr_store s'" "tr_calls s = tr_calls s'"
  using assms by (cases s; cases s'; simp)+

lemmas sar_frame = Emit_frame(3) [THEN sar_more_eq(1)] Emit_frame(3) [THEN sar_more_eq(2)]
  EmitLevel_frame(3) [THEN sar_more_eq(1)] EmitLevel_frame(3) [THEN sar_more_eq(2)]
  record_ops_frame(3) [THEN sar_more_eq(1)] record_ops_frame(3) [THEN sar_more_eq(2)]

text \<open>Two review specs are the same question for the API server: equal, or serialized to the same document.\<close>

definition same_question :: "sar_env \<Rightarrow> sar_spec \<Rightarrow> sar_spec \<Rightarrow> bool" where
  "same_question env sp spec = (sp = spec \<or> (sar_marshal env spec \<noteq> None \<and> sar_marshal env sp = sar_marshal env spec))"

text \<open>The API server allowed the question, and its answer was still valid at instant \<open>t0\<close> under TTL \<open>a\<close>.\<close>

definition granted :: "sar_env \<Rightarrow> int \<Rightarrow> int \<Rightarrow> 'a sar_state_scheme \<Rightarrow> sar_spec \<Rightarrow> bool" where
  "granted env t0 a s spec = (\<exists>tm sp. (tm, sp, Inr True) \<in> set (sar_calls s) \<and> same_question env sp spec \<and>
     t0 \<le> tm + max 0 a)"

lemma granted_extends: "granted env t0 a s sp \<Longrightarrow> sar_extends s s' \<Longrightarrow> granted env t0 a s' sp"
  by (fastforce simp: granted_def sar_extends_def)

lemma granted_earlier: "granted env t1 a s sp \<Longrightarrow> t0 \<le> t1 \<Longrightarrow> granted env t0 a s sp"
  by (fastforce simp: granted_def)

lemma liveCheck_spec:
  assumes "liveCheck env sr spec s = ((allowed, er), s')"
  obtains r where "sar_calls s' = sar_calls s @ [(t_now s', spec, r)]" "sar_cache s' = sar_cache s"
    "t_now s \<le> t_now s'" "allowed = (r = Inr True)" "er = None \<longleftrightarrow> (\<exists>v. r = Inr v)"
proof (rule that [of "snd (sar_create env (length (sar_calls s)) spec)"])
qed (use assms in \<open>auto simp: liveCheck_def Let_def ReviewRequest_def case_prod_beta sar_frame frame split: sum.splits\<close>)

lemma granted_cache_upd [simp]: "granted env t0 a (s\<lparr>sar_cache := c\<rparr>) sp = granted env t0 a s sp"
  by (simp add: granted_def)

lemma faithful_extends:
  "faithful_to dc_written c (sar_answers env calls) \<Longrightarrow> faithful_to dc_written c (sar_answers env (calls @ ext))"
  by (rule sar_store.faithful_mono) (auto simp: sar_answers_def)

lemma observeLiveCheck_frame [frame]:
  "sar_calls (observeLiveCheck sr d rid k st c a er s) = sar_calls s"
  "sar_cache (observeLiveCheck sr d rid k st c a er s) = sar_cache s"
  "t_now (observeLiveCheck sr d rid k st c a er s) = t_now s"
  by (simp_all add: observeLiveCheck_def Let_def sar_frame frame split: option.splits)

text \<open>The shape every check has: it keeps the invariant, only extends the log, and grants only what was allowed.\<close>

definition check_ok :: "sar_env \<Rightarrow> sar_spec \<Rightarrow> 'a sar_state_scheme \<Rightarrow> check \<times> 'a sar_state_scheme \<Rightarrow> bool" where
  "check_ok env spec s out = (case out of ((allowed, er), s') \<Rightarrow>
     sar_inv env s' \<and> sar_extends s s' \<and> (er \<noteq> None \<longrightarrow> \<not> allowed) \<and>
     (allowed \<longrightarrow> granted env (t_now s) (dc_ttl (sar_cache s) True) s' spec))"

lemma liveCheck_ok:
  assumes "sar_inv env s"
  shows "check_ok env spec s (liveCheck env sr spec s)"
proof -
  obtain allowed er s' where run: "liveCheck env sr spec s = ((allowed, er), s')"
    by (cases "liveCheck env sr spec s") auto
  from liveCheck_spec [OF run] obtain r where r: "sar_calls s' = sar_calls s @ [(t_now s', spec, r)]"
    "sar_cache s' = sar_cache s" "t_now s \<le> t_now s'" "allowed = (r = Inr True)" "er = None \<longleftrightarrow> (\<exists>v. r = Inr v)" .
  have "sar_inv env s'" using assms r faithful_extends by (simp add: sar_inv_def)
  moreover have "granted env (t_now s) (dc_ttl (sar_cache s) True) s' spec" if allowed
    using that r(1,3,4) unfolding granted_def same_question_def by force
  ultimately show ?thesis unfolding run check_ok_def using r by (auto simp: sar_extends_def)
qed

lemma check_ok_observe:
  "check_ok env spec s ((a, er), s1) \<Longrightarrow> check_ok env spec s ((a, er), observeLiveCheck sr d rid k st c b er' s1)"
  by (simp add: check_ok_def sar_inv_def sar_extends_def granted_def frame)

lemma timedLiveCheck_ok:
  assumes "sar_inv env s"
  shows "check_ok env spec s (timedLiveCheck env sr q rid kind co spec s)"
  using liveCheck_ok [OF assms, of spec sr]
  by (cases "liveCheck env sr spec s") (auto simp: timedLiveCheck_def Let_def intro: check_ok_observe)

lemma granted_same:
  assumes "granted env t0 a s sp" "sar_marshal env sp = Some key" "sar_marshal env spec = Some key"
  shows "granted env t0 a s spec"
  using assms unfolding granted_def same_question_def by (metis option.distinct(1))

text \<open>A flight caches only what the API server answered, for the key of the question.\<close>

lemma flight_fn_ok:
  assumes inv: "sar_inv env s" and key: "sar_marshal env sp = Some key" "sar_marshal env spec = Some key"
  shows "check_ok env spec s (flight_fn env sr key sp s)"
proof -
  obtain allowed er s1 where run: "liveCheck env sr sp s = ((allowed, er), s1)"
    by (cases "liveCheck env sr sp s") auto
  have ok: "check_ok env sp s ((allowed, er), s1)" using liveCheck_ok [OF inv, of sp sr] run by simp
  from liveCheck_spec [OF run] obtain r where r: "sar_calls s1 = sar_calls s @ [(t_now s1, sp, r)]"
    "allowed = (r = Inr True)" "er = None \<longleftrightarrow> (\<exists>v. r = Inr v)" .
  show ?thesis
  proof (cases er)
    case (Some e)
    then show ?thesis using ok run by (auto simp: flight_fn_def check_ok_def)
  next
    case None
    then obtain v where v: "r = Inr v" "allowed = v" using r by auto
    have "(t_now s1, key, allowed) \<in> sar_answers env (sar_calls s1)"
      using r(1) v key(1) by (auto simp: sar_answers_def)
    then have "sar_inv env (s1\<lparr>sar_cache := cache_put (t_now s1) key allowed (sar_cache s1)\<rparr>)"
      using ok sar_store.faithful_store sar_store.invar_store by (simp add: check_ok_def sar_inv_def)
    moreover have "sar_extends s (s1\<lparr>sar_cache := cache_put (t_now s1) key allowed (sar_cache s1)\<rparr>)"
      using ok sar_store.ttl_after_store by (simp add: check_ok_def sar_extends_def)
    moreover have "granted env (t_now s) (dc_ttl (sar_cache s) True)
        (s1\<lparr>sar_cache := cache_put (t_now s1) key allowed (sar_cache s1)\<rparr>) spec" if allowed
    proof -
      have "granted env (t_now s) (dc_ttl (sar_cache s) True) s1 sp" using ok that by (simp add: check_ok_def)
      from granted_same [OF this key] show ?thesis by simp
    qed
    ultimately show ?thesis using run None by (simp add: flight_fn_def check_ok_def)
  qed
qed

lemma check_ok_later:
  assumes "check_ok env spec s1 out" "sar_extends s s1"
  shows "check_ok env spec s out"
  using assms
  by (cases out) (auto simp: check_ok_def sar_extends_def dest: granted_earlier)

lemma flight_spec_key: "sar_marshal env spec = Some key \<Longrightarrow> sar_marshal env (flight_spec env key spec f) = Some key"
  by (simp add: flight_spec_def split: flight.splits)

lemma sharedLiveCheck_ok:
  assumes inv: "sar_inv env s" and key: "sar_marshal env spec = Some key"
  shows "check_ok env spec s (sharedLiveCheck env sr q rid kind key spec s)"
proof (cases "q_ctxDone q")
  case (Some ce)
  then show ?thesis
    using inv by (simp add: sharedLiveCheck_def Let_def check_ok_def sar_inv_def sar_extends_def frame)
next
  case None
  obtain allowed er s1 where run: "flight_fn env sr key (flight_spec env key spec (q_flight q)) s = ((allowed, er), s1)"
    by (cases "flight_fn env sr key (flight_spec env key spec (q_flight q)) s") auto
  have ok: "check_ok env spec s ((allowed, er), s1)"
    using flight_fn_ok [OF inv flight_spec_key [OF key] key, of sr "q_flight q"] run by simp
  have s1: "sar_inv env s1" "sar_extends s s1" using ok by (simp_all add: check_ok_def)
  have retry: "check_ok env spec s (timedLiveCheck env sr q rid kind False spec s1)"
    by (rule check_ok_later [OF timedLiveCheck_ok [OF s1(1)] s1(2)])
  show ?thesis
  proof (cases er)
    case (Some e)
    have "\<not> allowed" using ok Some by (simp add: check_ok_def)
    then have "check_ok env spec s ((False, Some e), observeLiveCheck sr (q_requesterDone q) rid kind (t_now s) (q_shared q) False (Some e) s1)"
      using check_ok_observe [OF ok] Some by simp
    then show ?thesis using Some None run retry by (simp add: sharedLiveCheck_def Let_def)
  next
    case no_error: None
    then show ?thesis using None run check_ok_observe [OF ok] by (simp add: sharedLiveCheck_def Let_def)
  qed
qed

lemma check_ok_from:
  assumes "check_ok env spec s1 out" "sar_cache s1 = sar_cache s" "sar_calls s1 = sar_calls s" "t_now s1 = t_now s"
  shows "check_ok env spec s out"
  using check_ok_later [OF assms(1), of s] assms(2-4) by (simp add: sar_extends_def)

lemma sar_inv_frame:
  "sar_inv env s \<Longrightarrow> sar_cache s' = sar_cache s \<Longrightarrow> sar_calls s' = sar_calls s \<Longrightarrow> sar_inv env s'"
  by (simp add: sar_inv_def)

lemma checkRbac_ok:
  fixes s :: "'a sar_state_scheme"
  assumes inv: "sar_inv env s"
  shows "check_ok env (impersonationReviewSpec resource name requester) s
    (checkRbacImpersonationAuthorization env sr rid resource name requester s)"
proof -
  define spec where "spec = impersonationReviewSpec resource name requester"
  define s0 where "s0 = s\<lparr>sar_asked := Suc (sar_asked s)\<rparr>"
  have s0: "sar_cache s0 = sar_cache s" "sar_calls s0 = sar_calls s" "t_now s0 = t_now s" "sar_inv env s0"
    using inv by (simp_all add: s0_def sar_inv_def)
  let ?kind = "targetKind resource" and ?q = "sar_sched env (sar_asked s)"
  let ?lk = "\<lambda>res as (x :: 'a sar_state_scheme). CacheLookup (sar_metrics sr) ''sar'' res (Emit rid (sar_log sr) EventCacheSARLookup as x)"
  have lk: "sar_cache (?lk res as x) = sar_cache x" "sar_calls (?lk res as x) = sar_calls x" "t_now (?lk res as x) = t_now x"
    for res as x by (simp_all add: CacheLookup_def sar_frame frame)
  show ?thesis
  proof (cases "cache_key (sar_marshal env) spec (sar_cache s0)")
    case None
    have "check_ok env spec s (timedLiveCheck env sr ?q rid ?kind False spec (?lk ''bypass'' [(''cache_result'', AStr ''bypass'')] s0))"
      by (rule check_ok_from [OF timedLiveCheck_ok [OF sar_inv_frame [OF s0(4)]]]) (simp_all add: lk s0)
    then show ?thesis
      using None unfolding checkRbacImpersonationAuthorization_def Let_def spec_def [symmetric] s0_def [symmetric] by simp
  next
    case (Some key)
    then have key: "sar_marshal env spec = Some key"
      by (auto simp: cache_key_def split: if_splits option.splits)
    obtain hit c where get: "cache_get (t_now s0) key (sar_cache s0) = (hit, c)" by (meson surj_pair)
    define s1 where "s1 = s0\<lparr>sar_cache := c\<rparr>"
    have c: "sar_inv env s1" "dc_ttl c = dc_ttl (sar_cache s)"
      using s0 get sar_store.invar_lookup [of "sar_cache s0" "t_now s0" key]
        sar_store.faithful_lookup [of "sar_cache s0" _ "t_now s0" key]
        sar_store.ttl_after_lookup [of "t_now s0" key "sar_cache s0"]
      by (auto simp: sar_inv_def s1_def)
    have ext: "sar_extends s s1" using s0 c(2) by (simp add: sar_extends_def s1_def)
    show ?thesis
    proof (cases hit)
      case None
      let ?s2 = "?lk ''miss'' [(''cache_result'', AStr ''miss'')] s1"
      have "check_ok env spec s1 (sharedLiveCheck env sr ?q rid ?kind key spec ?s2)"
        by (rule check_ok_from [OF sharedLiveCheck_ok [OF sar_inv_frame [OF c(1)] key]]) (simp_all add: lk)
      then have "check_ok env spec s (sharedLiveCheck env sr ?q rid ?kind key spec ?s2)"
        using ext by (rule check_ok_later)
      then show ?thesis
        using None Some get unfolding checkRbacImpersonationAuthorization_def Let_def spec_def [symmetric] s0_def [symmetric]
        by (simp add: s1_def)
    next
      case (Some v)
      let ?s2 = "?lk ''hit'' [(''cache_result'', AStr ''hit''), (''decision'', AStr (decision_text v))] s1"
      have g: "granted env (t_now s) (dc_ttl (sar_cache s) True) s spec" if v
      proof -
        have "fst (cache_get (t_now s0) key (sar_cache s0)) = Some True" using get Some that by simp
        from sar_store.lookup_answered [OF _ _ this, of "sar_answers env (sar_calls s)"]
        obtain tm where "(tm, key, True) \<in> sar_answers env (sar_calls s)" "t_now s \<le> tm + dc_ttl (sar_cache s) True"
          using s0 inv by (auto simp: sar_inv_def)
        then show ?thesis
          using key unfolding granted_def same_question_def sar_answers_def by fastforce
      qed
      have "check_ok env spec s ((v, None), ?s2)"
        using c ext g unfolding check_ok_def by (simp add: lk sar_inv_def sar_extends_def granted_def s1_def s0)
      then show ?thesis
        using Some \<open>cache_key (sar_marshal env) spec (sar_cache s0) = Some key\<close> get
        unfolding checkRbacImpersonationAuthorization_def Let_def spec_def [symmetric] s0_def [symmetric]
        by (simp add: s1_def)
    qed
  qed
qed

section \<open>What a successful check means\<close>

lemma check_values_ok:
  assumes "sar_inv env s" "check_values env sr rid resource requester deny vs s = (er, s')"
  shows "sar_inv env s' \<and> sar_extends s s' \<and>
    (er = None \<longrightarrow> (\<forall>v \<in> set vs. granted env (t_now s) (dc_ttl (sar_cache s) True) s'
        (impersonationReviewSpec resource v requester)))"
  using assms
proof (induction vs arbitrary: s)
  case (Cons v vs)
  obtain allowed er1 s1 where run:
    "checkRbacImpersonationAuthorization env sr rid resource v requester s = ((allowed, er1), s1)"
    by (cases "checkRbacImpersonationAuthorization env sr rid resource v requester s") auto
  have ok: "check_ok env (impersonationReviewSpec resource v requester) s ((allowed, er1), s1)"
    using checkRbac_ok [OF Cons.prems(1), of resource v requester sr rid] run by simp
  show ?case
  proof (cases "er1 = None \<and> allowed")
    case True
    then have rest: "check_values env sr rid resource requester deny vs s1 = (er, s')"
      using Cons.prems(2) run by simp
    have s1: "sar_inv env s1" "sar_extends s s1"
      "granted env (t_now s) (dc_ttl (sar_cache s) True) s1 (impersonationReviewSpec resource v requester)"
      using ok True by (auto simp: check_ok_def)
    have ih: "sar_inv env s' \<and> sar_extends s1 s' \<and>
      (er = None \<longrightarrow> (\<forall>v \<in> set vs. granted env (t_now s1) (dc_ttl (sar_cache s1) True) s'
        (impersonationReviewSpec resource v requester)))"
      by (rule Cons.IH [OF s1(1) rest])
    have "dc_ttl (sar_cache s1) = dc_ttl (sar_cache s)" "t_now s \<le> t_now s1"
      using s1(2) by (simp_all add: sar_extends_def)
    then show ?thesis
      using ih s1 granted_extends [OF s1(3)] sar_extends_trans [OF s1(2)] granted_earlier by fastforce
  next
    case False
    then have "s' = s1" "er \<noteq> None" using Cons.prems(2) run by (auto split: option.splits if_splits)
    then show ?thesis using ok by (auto simp: check_ok_def)
  qed
qed simp

text \<open>Each component of an identity was allowed to this requester.\<close>

definition target_granted :: "sar_env \<Rightarrow> int \<Rightarrow> int \<Rightarrow> 'a sar_state_scheme \<Rightarrow> user_info \<Rightarrow> user_info \<Rightarrow> bool" where
  "target_granted env t0 a s requester u =
     ((u_name u \<noteq> [] \<longrightarrow> granted env t0 a s (impersonationReviewSpec ''users'' (u_name u) requester)) \<and>
      (u_uid u \<noteq> [] \<longrightarrow> granted env t0 a s (impersonationReviewSpec ''uids'' (u_uid u) requester)) \<and>
      (\<forall>g \<in> set (u_groups u). granted env t0 a s (impersonationReviewSpec ''groups'' g requester)) \<and>
      (\<forall>(k, vs) \<in> set (u_extra u). \<forall>v \<in> set vs.
         granted env t0 a s (impersonationReviewSpec (extra_resource k) v requester)))"

lemma target_granted_extends:
  assumes "target_granted env t0 a s requester u" "sar_extends s s'"
  shows "target_granted env t0 a s' requester u"
  using assms(1) granted_extends [OF _ assms(2)] unfolding target_granted_def by blast

text \<open>The identity the headers ask for: the loop without its checks.\<close>

definition requested_header :: "string \<Rightarrow> string list \<Rightarrow> user_info \<Rightarrow> user_info" where
  "requested_header key values u =
     (let k = to_lower key in
      if k = ''impersonate-user'' then u\<lparr>u_name := if hd values \<noteq> [] then hd values else u_name u\<rparr>
      else if k = ''impersonate-group'' then u\<lparr>u_groups := u_groups u @ values\<rparr>
      else if k = ''impersonate-uid'' then u\<lparr>u_uid := hd values\<rparr>
      else u\<lparr>u_extra := extra_append (to_lower (drop 18 key)) values (u_extra u)\<rparr>)"

fun requested_target :: "header \<Rightarrow> user_info \<Rightarrow> user_info" where
  "requested_target [] u = u"
| "requested_target ((key, values) # h) u =
     requested_target h (if impersonation_key key then requested_header key values u else u)"

lemma extra_append_granted:
  assumes "\<forall>(k, vs) \<in> set m. \<forall>v \<in> set vs. P k v" "\<forall>v \<in> set vs. P k v"
  shows "\<forall>(k, vs) \<in> set (extra_append k vs m). \<forall>v \<in> set vs. P k v"
proof -
  define old where "old = (case map_of m k of Some old \<Rightarrow> old | None \<Rightarrow> [])"
  have "\<forall>v \<in> set old. P k v"
    using assms(1) by (fastforce simp: old_def split: option.splits dest: map_of_SomeD)
  then have new: "\<forall>v \<in> set (old @ vs). P k v" using assms(2) by auto
  have "\<forall>v \<in> set ws. P k' v" if "(k', ws) \<in> set (AList.update k (old @ vs) m)" for k' ws
    using set_update_le [of k "old @ vs" m] that new assms(1) by blast
  then show ?thesis
    using assms(1) unfolding extra_append_def old_def [symmetric] by (auto split: if_splits)
qed

lemma target_granted_upd:
  assumes "target_granted env t0 a s requester u"
  shows "granted env t0 a s (impersonationReviewSpec ''users'' v requester) \<Longrightarrow>
      target_granted env t0 a s requester (u\<lparr>u_name := v\<rparr>)"
    and "granted env t0 a s (impersonationReviewSpec ''uids'' v requester) \<Longrightarrow>
      target_granted env t0 a s requester (u\<lparr>u_uid := v\<rparr>)"
    and "\<forall>v \<in> set vs. granted env t0 a s (impersonationReviewSpec ''groups'' v requester) \<Longrightarrow>
      target_granted env t0 a s requester (u\<lparr>u_groups := u_groups u @ vs\<rparr>)"
    and "\<forall>v \<in> set vs. granted env t0 a s (impersonationReviewSpec (extra_resource k) v requester) \<Longrightarrow>
      target_granted env t0 a s requester (u\<lparr>u_extra := extra_append k vs (u_extra u)\<rparr>)"
  using assms extra_append_granted [of "u_extra u" "\<lambda>k v. granted env t0 a s (impersonationReviewSpec (extra_resource k) v requester)" vs k]
  by (auto simp: target_granted_def)

lemma imp_header_ok:
  assumes inv: "sar_inv env s" and tg: "target_granted env t0 a s requester target"
    and t0: "t0 \<le> t_now s" and a: "a = dc_ttl (sar_cache s) True"
    and run: "imp_header env sr rid requester key values target s = (out, s')"
  shows "sar_inv env s' \<and> sar_extends s s' \<and>
    (\<forall>u. out = Inr u \<longrightarrow> u = requested_header key values target \<and> target_granted env t0 a s' requester u)"
proof -
  have cv: "sar_inv env s1 \<and> sar_extends s s1 \<and> target_granted env t0 a s1 requester target \<and>
      (er = None \<longrightarrow> (\<forall>v \<in> set vs. granted env t0 a s1 (impersonationReviewSpec res v requester)))"
    if "check_values env sr rid res requester deny vs s = (er, s1)" for res deny vs er s1
    using check_values_ok [OF inv that] target_granted_extends [OF tg] granted_earlier t0 a by blast
  note [simp del] = check_values.simps
  consider (user) "to_lower key = ''impersonate-user''" | (group) "to_lower key = ''impersonate-group''"
    | (uid) "to_lower key = ''impersonate-uid''"
    | (other) "to_lower key \<noteq> ''impersonate-user''" "to_lower key \<noteq> ''impersonate-group''" "to_lower key \<noteq> ''impersonate-uid''"
    by blast
  then show ?thesis
  proof cases
    case user
    then show ?thesis
      using run inv tg unfolding imp_header_def Let_def
      by (auto simp: requested_header_def split: list.splits if_splits option.splits prod.splits
          dest!: cv intro: target_granted_upd(1))
  next
    case group
    then show ?thesis
      using run inv tg unfolding imp_header_def Let_def
      by (auto simp: requested_header_def split: option.splits prod.splits dest!: cv intro: target_granted_upd(3))
  next
    case uid
    then show ?thesis
      using run inv tg unfolding imp_header_def Let_def
      by (auto simp: requested_header_def split: list.splits option.splits prod.splits
          dest!: cv intro: target_granted_upd(2))
  next
    case other
    then show ?thesis
      using run inv tg unfolding imp_header_def Let_def
      by (auto simp: requested_header_def split: if_splits option.splits prod.splits
          dest!: cv intro: target_granted_upd(4))
  qed
qed

lemma imp_loop_ok:
  assumes "sar_inv env s" "target_granted env t0 a s requester target" "t0 \<le> t_now s" "a = dc_ttl (sar_cache s) True"
    "imp_loop env sr rid requester hasUser h target s = (out, s')"
  shows "sar_inv env s' \<and> sar_extends s s' \<and>
    (\<forall>u. out = Inr u \<longrightarrow> u = requested_target h target \<and> target_granted env t0 a s' requester u \<and>
       (hasUser \<or> \<not> list_ex (impersonation_key \<circ> fst) h))"
  using assms
proof (induction h arbitrary: target s)
  case (Cons kv h)
  obtain key vals where kv: "kv = (key, vals)" by (cases kv)
  show ?case
  proof (cases "impersonation_key key")
    case False
    then show ?thesis using Cons.IH [OF Cons.prems(1-4)] Cons.prems(5) kv by simp
  next
    case imp: True
    show ?thesis
    proof (cases hasUser)
      case False
      then show ?thesis using imp Cons.prems(1,5) kv by auto
    next
      case True
      obtain r s1 where hd: "imp_header env sr rid requester key vals target s = (r, s1)" by (meson surj_pair)
      note ok = imp_header_ok [OF Cons.prems(1-4) hd]
      show ?thesis
      proof (cases r)
        case (Inl x)
        then show ?thesis using Cons.prems(5) kv imp True hd ok by auto
      next
        case (Inr u)
        have pre: "sar_inv env s1" "target_granted env t0 a s1 requester u" "t0 \<le> t_now s1"
            "a = dc_ttl (sar_cache s1) True"
          using ok Inr Cons.prems(3,4) by (auto simp: sar_extends_def)
        have rest: "imp_loop env sr rid requester hasUser h u s1 = (out, s')"
          using Cons.prems(5) kv imp True hd Inr by simp
        have "sar_inv env s' \<and> sar_extends s1 s' \<and>
          (\<forall>w. out = Inr w \<longrightarrow> w = requested_target h u \<and> target_granted env t0 a s' requester w \<and>
             (hasUser \<or> \<not> list_ex (impersonation_key \<circ> fst) h))"
          by (rule Cons.IH [OF pre rest])
        then show ?thesis using ok Inr kv imp True sar_extends_trans by auto
      qed
    qed
  qed
qed auto

lemma lower_user_imp: "to_lower k = ''impersonate-user'' \<Longrightarrow> impersonation_key k"
  by (simp add: impersonation_key_def has_prefix_def)

lemma requested_name:
  assumes "\<forall>(k, vs) \<in> set h. to_lower k = ''impersonate-user'' \<longrightarrow> hd vs = v" "v \<noteq> []"
  shows "u_name (requested_target h u) =
    (if \<exists>(k, vs) \<in> set h. to_lower k = ''impersonate-user'' then v else u_name u)"
  using assms(1)
proof (induction h arbitrary: u)
  case (Cons kv h)
  obtain key vals where kv: "kv = (key, vals)" by (cases kv)
  have "u_name (requested_header key vals u) = (if to_lower key = ''impersonate-user'' then v else u_name u)"
    using Cons.prems assms(2) kv by (simp add: requested_header_def Let_def)
  then show ?case using Cons.IH Cons.prems kv lower_user_imp [of key] by auto
qed simp

lemma canonical_user: "canonical_key ''impersonate-user'' = ''Impersonate-User''"
  by code_simp

lemma canonical_lower_user:
  assumes "canonical_key k = k" "to_lower k = ''impersonate-user''"
  shows "k = ''Impersonate-User''"
proof -
  have "list_all valid_header_byte ''impersonate-user''" by code_simp
  then have "canonical_key k = canonical_key (to_lower k)"
    unfolding assms(2) [symmetric] by (rule canonical_key_lower)
  then show ?thesis using assms canonical_user by simp
qed

lemma requested_target_name:
  assumes "canonical_header h" "hdr_get h ''impersonate-user'' \<noteq> []"
  shows "u_name (requested_target h u) = hdr_get h ''impersonate-user''"
proof -
  obtain v vs where m: "map_of h ''Impersonate-User'' = Some (v # vs)" "v = hdr_get h ''impersonate-user''"
    using assms(2) by (auto simp: hdr_get_def hdr_values_def canonical_user split: option.splits list.splits)
  have d: "distinct (map fst h)" using assms(1) by (simp add: canonical_header_def wf_header_def)
  have "hd ws = v" if "(k, ws) \<in> set h" "to_lower k = ''impersonate-user''" for k ws
  proof -
    have "k = ''Impersonate-User''" using canonical_lower_user assms(1) that by (auto simp: canonical_header_def)
    then have "map_of h ''Impersonate-User'' = Some ws" using map_of_is_SomeI [OF d that(1)] by simp
    then show ?thesis using m(1) by (metis list.sel(1) option.inject)
  qed
  moreover have "(''Impersonate-User'', v # vs) \<in> set h" using m(1) by (rule map_of_SomeD)
  moreover have "to_lower ''Impersonate-User'' = ''impersonate-user''" by code_simp
  ultimately show ?thesis using requested_name [of h v u] m(2) assms(2) by fastforce
qed

lemma kept_headers_values:
  assumes "distinct (map fst h)" "\<forall>(k, _) \<in> set h. canonical_key k = k"
  shows "hdr_values (kept_headers full h out) k' =
    hdr_values out k' @ (if canonical_key k' \<in> fst ` set h \<and> \<not> impersonation_key (canonical_key k')
                         then hdr_values full k' else [])"
  using assms
proof (induction h arbitrary: out)
  case (Cons kv h)
  obtain k vs where kv: "kv = (k, vs)" by (cases kv)
  have k: "canonical_key k = k" "k \<notin> fst ` set h" using Cons.prems kv by auto
  have full: "canonical_key k' = k \<Longrightarrow> hdr_values full k = hdr_values full k'"
    using k(1) by (simp add: hdr_values_def)
  have IH: "hdr_values (kept_headers full h o') k' = hdr_values o' k' @
    (if canonical_key k' \<in> fst ` set h \<and> \<not> impersonation_key (canonical_key k') then hdr_values full k' else [])" for o'
    using Cons.IH Cons.prems by simp
  show ?case
    using k full by (cases "canonical_key k' = k") (auto simp: kv IH fold_hdr_add)
qed simp

lemma kept_headers_keys:
  assumes "\<forall>(k, _) \<in> set h. canonical_key k = k"
  shows "fst ` set (kept_headers full h out) \<subseteq> fst ` set out \<union> {k \<in> fst ` set h. \<not> impersonation_key k}"
  using assms
proof (induction full h out rule: kept_headers.induct)
  case (2 full k vs h out)
  show ?case
  proof (cases "impersonation_key k")
    case True
    then show ?thesis using 2 by auto
  next
    case False
    have "fst ` set (fold (\<lambda>v o'. hdr_add o' k v) (hdr_values full k) out) \<subseteq> insert k (fst ` set out)"
      using keys_fold_hdr_add [of k "hdr_values full k" out] 2(3) by simp
    moreover have "fst ` set (kept_headers full h (fold (\<lambda>v o'. hdr_add o' k v) (hdr_values full k) out)) \<subseteq>
        fst ` set (fold (\<lambda>v o'. hdr_add o' k v) (hdr_values full k) out) \<union> {k \<in> fst ` set h. \<not> impersonation_key k}"
      using 2(2) [OF False] 2(3) by simp
    ultimately have "fst ` set (kept_headers full ((k, vs) # h) out) \<subseteq>
        insert k (fst ` set out) \<union> {k \<in> fst ` set h. \<not> impersonation_key k}"
      using False by (simp only: kept_headers.simps if_False) blast
    moreover have "insert k (fst ` set out) \<union> {k \<in> fst ` set h. \<not> impersonation_key k} \<subseteq>
        fst ` set out \<union> {k' \<in> fst ` set ((k, vs) # h). \<not> impersonation_key k'}"
      using False by auto
    ultimately show ?thesis by (rule order_trans)
  qed
qed simp

lemma kept_headers_wf: "wf_header out \<Longrightarrow> wf_header (kept_headers full h out)"
  by (induction full h out rule: kept_headers.induct) (auto simp: wf_fold_hdr_add)

text \<open>The rebuilt headers: no impersonation header is left, every other header is as it was.\<close>

lemma kept_headers_clean:
  assumes "canonical_header h"
  shows "hdr_values (kept_headers h h []) k = (if impersonation_key (canonical_key k) then [] else hdr_values h k)"
    and "\<not> list_ex (impersonation_key \<circ> fst) (kept_headers h h [])"
proof -
  have h: "distinct (map fst h)" "\<forall>(k, _) \<in> set h. canonical_key k = k"
    using assms by (auto simp: canonical_header_def wf_header_def)
  have "hdr_values h k = []" if "canonical_key k \<notin> fst ` set h"
    using that by (simp add: hdr_values_def map_of_eq_None_iff [THEN iffD2])
  then show "hdr_values (kept_headers h h []) k = (if impersonation_key (canonical_key k) then [] else hdr_values h k)"
    using kept_headers_values [OF h, of h "[]" k] by auto
  show "\<not> list_ex (impersonation_key \<circ> fst) (kept_headers h h [])"
    using kept_headers_keys [OF h(2), of h "[]"] by (auto simp: list_ex_iff)
qed

lemma imp_header_Inl:
  "imp_header env sr rid requester key vals target s = (Inl r, s') \<Longrightarrow>
   (\<exists>e. r = SarErr e) \<or> (r = SarPanic \<and> vals = [])"
  by (auto simp: imp_header_def Let_def simp del: check_values.simps
      split: if_splits list.splits option.splits prod.splits)

lemma imp_loop_Inl:
  "imp_loop env sr rid requester hasUser h target s = (Inl r, s') \<Longrightarrow>
   (\<exists>e. r = SarErr e) \<or> (r = SarPanic \<and> (\<exists>(k, vs) \<in> set h. vs = []))"
proof (induction h arbitrary: target s)
  case (Cons kv h)
  then show ?case
    by (cases kv) (fastforce split: if_splits prod.splits sum.splits dest: imp_header_Inl)
qed simp

lemma Check_ok:
  assumes inv: "sar_inv env s" and run: "CheckAuthorizedForImpersonation env sr req requester s = (res, req', s')"
  shows "sar_inv env s' \<and> sar_extends s s' \<and>
    (\<forall>target. res = SarOk (Some target) \<longrightarrow>
       target = requested_target (Header req) emptyTarget \<and> hdr_get (Header req) ''impersonate-user'' \<noteq> [] \<and>
       target_granted env (t_now s) (dc_ttl (sar_cache s) True) s' requester target \<and>
       Header req' = kept_headers (Header req) (Header req) [])"
proof (cases "int (countImpersonationHeaderValues (Header req)) > sar_maxHeaderValues sr")
  case True
  then show ?thesis using run inv by (auto simp: CheckAuthorizedForImpersonation_def Let_def)
next
  case False
  obtain out s1 where loop: "imp_loop env sr (RequestIDFrom req) requester
      (hdr_get (Header req) ''impersonate-user'' \<noteq> []) (Header req) emptyTarget s = (out, s1)"
    by (meson surj_pair)
  have "target_granted env (t_now s) (dc_ttl (sar_cache s) True) s requester emptyTarget"
    by (simp add: target_granted_def emptyTarget_def)
  note ok = imp_loop_ok [OF inv this _ refl loop]
  have fr: "sar_inv env (Emit r l e as s1) = sar_inv env s1" "sar_extends s (Emit r l e as s1) = sar_extends s s1"
    "target_granted env t0 a (Emit r l e as s1) requester u = target_granted env t0 a s1 requester u"
    for r l e as t0 a u
    by (simp_all add: sar_inv_def sar_extends_def target_granted_def granted_def sar_frame frame)
  show ?thesis
    using ok run False loop imp_loop_Inl
    by (auto simp: CheckAuthorizedForImpersonation_def Let_def fr split: sum.splits if_splits dest: imp_loop_Inl)
qed

section \<open>Errors are never cached\<close>

lemma liveCheck_cache: "sar_cache (snd (liveCheck env sr spec s)) = sar_cache s"
  by (cases "liveCheck env sr spec s") (auto elim: liveCheck_spec)

lemma timedLiveCheck_cache: "sar_cache (snd (timedLiveCheck env sr q rid k co spec s)) = sar_cache s"
  using liveCheck_cache [of env sr spec s] by (simp add: timedLiveCheck_def Let_def case_prod_beta frame)

lemma flight_fn_error_cache:
  "flight_fn env sr key sp s = ((a, Some e), s') \<Longrightarrow> sar_cache s' = sar_cache s"
  using liveCheck_cache [of env sr sp s]
  by (auto simp: flight_fn_def Let_def case_prod_beta split: option.splits)

lemma sharedLiveCheck_error_cache:
  assumes "sharedLiveCheck env sr q rid k key spec s = ((a, Some e), s')"
  shows "sar_cache s' = sar_cache s"
proof -
  obtain al er s1 where f: "flight_fn env sr key (flight_spec env key spec (q_flight q)) s = ((al, er), s1)"
    by (cases "flight_fn env sr key (flight_spec env key spec (q_flight q)) s") auto
  have "sar_cache s1 = sar_cache s" if "er \<noteq> None" using f that flight_fn_error_cache by fastforce
  then show ?thesis
    using assms f timedLiveCheck_cache [of env sr q rid k False spec s1]
    by (auto simp: sharedLiveCheck_def Let_def frame split: option.splits if_splits)
qed

lemma checkRbac_error_cache:
  assumes "checkRbacImpersonationAuthorization env sr rid resource name requester s = ((a, Some e), s')"
  shows "dc_written (sar_cache s') = dc_written (sar_cache s)"
proof -
  let ?spec = "impersonationReviewSpec resource name requester"
  show ?thesis
  proof (cases "cache_key (sar_marshal env) ?spec (sar_cache s)")
    case None
    then have "sar_cache s' = sar_cache s"
      using assms
      by (auto simp: checkRbacImpersonationAuthorization_def Let_def CacheLookup_def sar_frame
          dest!: arg_cong [of _ _ snd] simp del: prod.collapse) (simp add: timedLiveCheck_cache sar_frame)
    then show ?thesis by simp
  next
    case (Some key)
    then show ?thesis
      using assms sar_store.written_lookup [of "t_now s" key "sar_cache s"]
      by (auto simp: checkRbacImpersonationAuthorization_def Let_def CacheLookup_def sar_frame case_prod_beta
          split: option.splits dest!: sharedLiveCheck_error_cache)
  qed
qed

section \<open>Runs of the reviewer\<close>

text \<open>
  A run of the process as the reviewer sees it: time passes, requests are checked, and flights led by
  concurrent requests finish, in any order.
\<close>

datatype sar_op = SarTick nat | SarCheck request user_info | SarFlight sar_spec

fun sar_step :: "sar_env \<Rightarrow> sar \<Rightarrow> sar_op \<Rightarrow> 'a sar_state_scheme \<Rightarrow> 'a sar_state_scheme" where
  "sar_step env sr (SarTick n) s = s\<lparr>t_now := t_now s + int n\<rparr>"
| "sar_step env sr (SarCheck req requester) s = snd (snd (CheckAuthorizedForImpersonation env sr req requester s))"
| "sar_step env sr (SarFlight sp) s =
     (case sar_marshal env sp of None \<Rightarrow> s | Some key \<Rightarrow> snd (flight_fn env sr key sp s))"

definition sar_run :: "sar_env \<Rightarrow> sar \<Rightarrow> sar_op list \<Rightarrow> 'a sar_state_scheme \<Rightarrow> 'a sar_state_scheme" where
  "sar_run env sr ops s = fold (sar_step env sr) ops s"

lemma sar_step_inv:
  assumes "sar_inv env s"
  shows "sar_inv env (sar_step env sr op s) \<and> dc_ttl (sar_cache (sar_step env sr op s)) = dc_ttl (sar_cache s)"
proof (cases op)
  case (SarTick n)
  then show ?thesis using assms by (simp add: sar_inv_def)
next
  case (SarCheck req requester)
  obtain res req' s' where "CheckAuthorizedForImpersonation env sr req requester s = (res, req', s')"
    by (metis prod_cases3)
  then show ?thesis using Check_ok [OF assms] SarCheck by (fastforce simp: sar_extends_def)
next
  case (SarFlight sp)
  then show ?thesis
    using assms flight_fn_ok [OF assms, of sp _ sp sr]
    by (auto simp: check_ok_def sar_extends_def case_prod_beta split: option.splits)
qed

lemma sar_run_inv:
  assumes "sar_inv env s"
  shows "sar_inv env (sar_run env sr ops s) \<and> dc_ttl (sar_cache (sar_run env sr ops s)) = dc_ttl (sar_cache s)"
  using assms
proof (induction ops arbitrary: s)
  case (Cons op ops)
  then show ?case using sar_step_inv [OF Cons.prems, of sr op] by (simp add: sar_run_def)
qed (simp add: sar_run_def)

lemma sar_inv_new:
  "lru_sound lru \<Longrightarrow> sar_cache s = newDecisionCache lru a d \<Longrightarrow> sar_inv env s"
  by (simp add: sar_inv_def dc_invar_new faithful_to_def dc_written_new)

lemma dc_ttl_new: "max 0 (dc_ttl (newDecisionCache lru a d) True) = max 0 a"
  by (simp add: newDecisionCache_def dc_ttl_def)

lemma target_granted_max:
  "max 0 a = max 0 b \<Longrightarrow> target_granted env t0 a s r u \<Longrightarrow> target_granted env t0 b s r u"
  by (simp add: target_granted_def granted_def)

text \<open>
  C14. Impersonation is granted only by the API server. Start from an empty decision cache, let time
  pass and any requests be checked and any concurrent flights finish. If the check of a request then
  returns a target identity, the request names a user, the target is exactly the identity its
  headers ask for, and for the user name, the uid, every group and every extra value of it the API
  server answered "allowed" to a SubjectAccessReview for this requester that serializes to the same
  document, no longer than the allow TTL before the check began: the bound on revocation lag.
\<close>

theorem impersonation_only_when_allowed:
  assumes "lru_sound lru" and "sar_cache s0 = newDecisionCache lru allowTTL denyTTL"
    and "s = sar_run env sr ops s0"
    and "canonical_header (Header req)"
    and "CheckAuthorizedForImpersonation env sr req requester s = (SarOk (Some target), req', s')"
  shows "u_name target = hdr_get (Header req) ''impersonate-user'' \<and> u_name target \<noteq> [] \<and>
    target = requested_target (Header req) emptyTarget \<and>
    target_granted env (t_now s) allowTTL s' requester target"
proof -
  have inv: "sar_inv env s" "dc_ttl (sar_cache s) = dc_ttl (newDecisionCache lru allowTTL denyTTL)"
    using sar_run_inv [OF sar_inv_new [OF assms(1,2)]] assms(2,3) by simp_all
  have ok: "target = requested_target (Header req) emptyTarget" "hdr_get (Header req) ''impersonate-user'' \<noteq> []"
    "target_granted env (t_now s) (dc_ttl (newDecisionCache lru allowTTL denyTTL) True) s' requester target"
    using Check_ok [OF inv(1) assms(5)] unfolding inv(2) by auto
  then show ?thesis
    using requested_target_name [OF assms(4) ok(2), of emptyTarget] target_granted_max [OF dc_ttl_new] by simp
qed

text \<open>A requester \<open>alice\<close>, a reviewer, and an API server that lets \<open>alice\<close> be \<open>bob\<close> in group \<open>devs\<close>.\<close>

definition demo_sar :: sar where
  "demo_sar = \<lparr>sar_logger = None, sar_metrics = Recorder, sar_timeout = 5000000000, sar_maxHeaderValues = 64\<rparr>"

definition demo_sar_env :: sar_env where
  "demo_sar_env = \<lparr>sar_create = (\<lambda>n sp. (7, if sp_Name sp = ''down'' then Inl (Sentinel ErrDeadlineExceeded)
       else Inr (sp_User sp = ''alice'' \<and> sp_Name sp \<in> {''bob'', ''devs''}))),
     sar_marshal = (\<lambda>sp. Some (sp_User sp @ ''/'' @ sp_Resource sp @ ''/'' @ sp_Name sp)),
     sar_isTimeout = (\<lambda>_. False),
     sar_sched = (\<lambda>_. \<lparr>q_flight = Lead, q_shared = False, q_ctxDone = None, q_ctxErr = None, q_requesterDone = False\<rparr>)\<rparr>"

definition demo_sar_state :: sar_state where
  "demo_sar_state = \<lparr>t_now = 0, t_log = [], t_met = [], rs_recorded = False, rs_termination = ([], []),
     tr_store = newTokenCache lru_unbounded 0 0, tr_calls = [],
     sar_cache = newDecisionCache lru_unbounded 10 10, sar_calls = [], sar_asked = 0\<rparr>"

definition demo_user :: "string \<Rightarrow> user_info" where
  "demo_user n = \<lparr>u_name = n, u_uid = [], u_groups = [], u_extra = []\<rparr>"

definition demo_request :: "header \<Rightarrow> request" where
  "demo_request h = \<lparr>Method = ''GET'', URLPath = Some ''/api'', RemoteAddress = ''192.0.2.7:443'', Header = h, Ctx = background\<rparr>"

definition demo_as_bob :: request where
  "demo_as_bob = demo_request [(''Impersonate-Group'', [''devs'']), (''Accept'', [''*/*'']), (''Impersonate-User'', [''bob''])]"

lemma lower_names:
  "to_lower ''Impersonate-User'' = ''impersonate-user''" "to_lower ''Impersonate-Group'' = ''impersonate-group''"
  "to_lower ''Impersonate-Uid'' = ''impersonate-uid''" "to_lower ''Accept'' = ''accept''"
  by code_simp+

lemmas demo_sar_eval = demo_sar_def demo_sar_env_def demo_sar_state_def demo_user_def demo_request_def demo_as_bob_def
  sar_run_def CheckAuthorizedForImpersonation_def imp_header_def checkRbacImpersonationAuthorization_def
  sharedLiveCheck_def timedLiveCheck_def flight_fn_def flight_spec_def liveCheck_def observeLiveCheck_def cache_key_def
  cache_get_def cache_put_def newDecisionCache_def lru_unbounded_def impersonationReviewSpec_def impersonation_key_def
  maxCacheKeySize_def sar_log_def CacheLookup_def ReviewRequest_def record_ops_def Let_def has_prefix_def emptyTarget_def
  lower_names hdr_get_def hdr_values_def canonical_user

lemma demo_as_bob_runs:
  "fst (CheckAuthorizedForImpersonation demo_sar_env demo_sar demo_as_bob (demo_user ''alice'')
     (sar_run demo_sar_env demo_sar [SarCheck demo_as_bob (demo_user ''alice''), SarTick 2] demo_sar_state)) =
   SarOk (Some \<lparr>u_name = ''bob'', u_uid = [], u_groups = [''devs''], u_extra = []\<rparr>)"
  by (simp add: demo_sar_eval)

theorem impersonation_only_when_allowed_witness:
  "\<exists>s s'. target_granted demo_sar_env (t_now s) 10 (s' :: sar_state) (demo_user ''alice'')
     \<lparr>u_name = ''bob'', u_uid = [], u_groups = [''devs''], u_extra = []\<rparr> \<and> t_now (s :: sar_state) > 0"
proof -
  let ?s = "sar_run demo_sar_env demo_sar [SarCheck demo_as_bob (demo_user ''alice''), SarTick 2] demo_sar_state"
  obtain req' s' where run: "CheckAuthorizedForImpersonation demo_sar_env demo_sar demo_as_bob (demo_user ''alice'') ?s =
      (SarOk (Some \<lparr>u_name = ''bob'', u_uid = [], u_groups = [''devs''], u_extra = []\<rparr>), req', s')"
    using demo_as_bob_runs by (metis prod.collapse)
  have can: "canonical_header (Header demo_as_bob)" by code_simp
  have now: "t_now ?s > 0" by (simp add: demo_sar_eval)
  have c: "sar_cache demo_sar_state = newDecisionCache lru_unbounded 10 10" by (simp add: demo_sar_state_def)
  from impersonation_only_when_allowed [OF lru_unbounded_sound c refl can run] now show ?thesis by blast
qed

text \<open>
  What is forwarded after an authorized impersonation carries none of the client's impersonation
  headers, under any spelling, and every other header unchanged; a request that asks for no
  impersonation is not touched at all.
\<close>

theorem impersonation_headers_consumed:
  assumes "canonical_header (Header req)"
    and "CheckAuthorizedForImpersonation env sr req requester s = (SarOk t, req', s')"
  shows "\<not> list_ex (impersonation_key \<circ> fst) (Header req') \<and>
    (\<forall>k. hdr_values (Header req') k = (if impersonation_key (canonical_key k) then [] else hdr_values (Header req) k)) \<and>
    req' = req\<lparr>Header := Header req'\<rparr> \<and> (t = None \<longrightarrow> req' = req)"
proof -
  have none: "hdr_values h k = []" if "\<not> list_ex (impersonation_key \<circ> fst) h" "impersonation_key (canonical_key k)" for h k
  proof -
    have "canonical_key k \<notin> fst ` set h" using that by (auto simp: list_ex_iff)
    then show ?thesis by (simp add: hdr_values_def map_of_eq_None_iff [THEN iffD2])
  qed
  have "(t = None \<and> req' = req \<and> \<not> list_ex (impersonation_key \<circ> fst) (Header req)) \<or>
    (t \<noteq> None \<and> req' = req\<lparr>Header := kept_headers (Header req) (Header req) []\<rparr>)"
    using assms(2)
    by (auto simp: CheckAuthorizedForImpersonation_def Let_def split: if_splits prod.splits sum.splits dest: imp_loop_Inl)
  then show ?thesis
    using kept_headers_clean [OF assms(1)] none [of "Header req"] by auto
qed

theorem impersonation_headers_consumed_witness:
  "\<exists>req' s'. CheckAuthorizedForImpersonation demo_sar_env demo_sar demo_as_bob (demo_user ''alice'') demo_sar_state =
      (SarOk (Some \<lparr>u_name = ''bob'', u_uid = [], u_groups = [''devs''], u_extra = []\<rparr>), req', s') \<and>
    hdr_values (Header req') ''Impersonate-User'' = [] \<and> hdr_values (Header req') ''Accept'' = [''*/*'']"
proof -
  have "fst (CheckAuthorizedForImpersonation demo_sar_env demo_sar demo_as_bob (demo_user ''alice'') demo_sar_state) =
      SarOk (Some \<lparr>u_name = ''bob'', u_uid = [], u_groups = [''devs''], u_extra = []\<rparr>)"
    by (simp add: demo_sar_eval)
  then obtain req' s' where run: "CheckAuthorizedForImpersonation demo_sar_env demo_sar demo_as_bob (demo_user ''alice'') demo_sar_state =
      (SarOk (Some \<lparr>u_name = ''bob'', u_uid = [], u_groups = [''devs''], u_extra = []\<rparr>), req', s')"
    by (metis prod.collapse)
  have can: "canonical_header (Header demo_as_bob)" by code_simp
  have k: "impersonation_key (canonical_key ''Impersonate-User'')" "\<not> impersonation_key (canonical_key ''Accept'')"
    "hdr_values (Header demo_as_bob) ''Accept'' = [''*/*'']"
    by code_simp+
  from impersonation_headers_consumed [OF can run] run k show ?thesis by auto
qed

text \<open>
  A request with more impersonation header values than the cap is refused with the typed error
  that selects status 431, and costs nothing: no review is sent and no state of the proxy changes.
\<close>

theorem too_many_header_values_refused:
  assumes "sar_maxHeaderValues sr < int (countImpersonationHeaderValues (Header req))"
  shows "\<exists>e. CheckAuthorizedForImpersonation env sr req requester s = (SarErr e, req, s) \<and>
    err_is e ErrTooManyImpersonationHeaderValues \<and> \<not> err_is e ErrImpersonationNotAllowed"
  using assms by (simp add: CheckAuthorizedForImpersonation_def Let_def)

theorem too_many_header_values_refused_witness:
  "\<exists>e. CheckAuthorizedForImpersonation demo_sar_env (demo_sar\<lparr>sar_maxHeaderValues := 1\<rparr>) demo_as_bob (demo_user ''alice'')
      demo_sar_state = (SarErr e, demo_as_bob, demo_sar_state) \<and> err_is e ErrTooManyImpersonationHeaderValues"
proof -
  have "sar_maxHeaderValues (demo_sar\<lparr>sar_maxHeaderValues := 1\<rparr>) < int (countImpersonationHeaderValues (Header demo_as_bob))"
    by code_simp
  from too_many_header_values_refused [OF this, of demo_sar_env "demo_user ''alice''" demo_sar_state] show ?thesis by blast
qed

lemma asked_frame:
  "sar_asked (Emit r l e as s) = sar_asked s" "sar_asked (EmitLevel r l e lv as s) = sar_asked s"
  "sar_asked (record_ops m ops s) = sar_asked s"
  by (simp_all add: Emit_frame(3) [THEN sar_more_eq(3)] EmitLevel_frame(3) [THEN sar_more_eq(3)]
      record_ops_frame(3) [THEN sar_more_eq(3)])

lemma asked_live: "sar_asked (snd (liveCheck env sr spec s)) = sar_asked s"
  by (simp add: liveCheck_def Let_def ReviewRequest_def case_prod_beta asked_frame split: option.splits)

lemma asked_observe: "sar_asked (observeLiveCheck sr d rid k st c a er s) = sar_asked s"
  by (simp add: observeLiveCheck_def Let_def asked_frame split: option.splits)

lemma asked_timed: "sar_asked (snd (timedLiveCheck env sr q rid k co spec s)) = sar_asked s"
  by (simp add: timedLiveCheck_def Let_def case_prod_beta asked_live asked_observe)

lemma asked_flight: "sar_asked (snd (flight_fn env sr key sp s)) = sar_asked s"
  by (simp add: flight_fn_def Let_def case_prod_beta asked_live split: option.splits)

lemma asked_shared: "sar_asked (snd (sharedLiveCheck env sr q rid k key spec s)) = sar_asked s"
  using asked_flight [of env sr key "flight_spec env key spec (q_flight q)" s]
  by (auto simp: sharedLiveCheck_def Let_def case_prod_beta asked_timed asked_observe split: option.splits)

lemma asked_check:
  "sar_asked (snd (checkRbacImpersonationAuthorization env sr rid res n requester s)) = Suc (sar_asked s)"
  by (simp add: checkRbacImpersonationAuthorization_def Let_def case_prod_beta asked_timed asked_shared CacheLookup_def
      asked_frame split: option.splits)

lemma asked_values:
  "sar_asked (snd (check_values env sr rid res requester deny vs s)) \<le> sar_asked s + length vs"
proof (induction vs arbitrary: s)
  case (Cons v vs)
  obtain a er s1 where c: "checkRbacImpersonationAuthorization env sr rid res v requester s = ((a, er), s1)"
    by (cases "checkRbacImpersonationAuthorization env sr rid res v requester s") auto
  then have "sar_asked s1 = Suc (sar_asked s)" using asked_check [of env sr rid res v requester s] by simp
  then show ?case using c Cons.IH [of s1] by (auto split: option.splits)
qed simp

lemma snd_case_check:
  "snd (case p of (None, s1) \<Rightarrow> (g, s1) | (Some e, s1) \<Rightarrow> (f e, s1)) = snd p"
  by (cases p) (simp split: option.splits)

lemma asked_header:
  "sar_asked (snd (imp_header env sr rid requester key vals target s)) \<le> sar_asked s + length vals"
proof -
  have one: "sar_asked (snd (check_values env sr rid res requester deny [v] s)) \<le> Suc (sar_asked s + n)" for res deny v n
    using asked_values [of env sr rid res requester deny "[v]" s] by simp
  show ?thesis
    unfolding imp_header_def Let_def
    by (simp add: snd_case_check asked_values one del: check_values.simps split: list.splits)
qed

lemma asked_loop:
  "sar_asked (snd (imp_loop env sr rid requester hasUser h target s)) \<le> sar_asked s + countImpersonationHeaderValues h"
proof (induction h arbitrary: target s)
  case (Cons kv h)
  obtain key vals where kv: "kv = (key, vals)" by (cases kv)
  obtain r s1 where hd: "imp_header env sr rid requester key vals target s = (r, s1)" by (meson surj_pair)
  have s1: "sar_asked s1 \<le> sar_asked s + length vals"
    using asked_header [of env sr rid requester key vals target s] hd by simp
  have rest: "sar_asked (snd (imp_loop env sr rid requester hasUser h u s1)) \<le>
      sar_asked s + (length vals + countImpersonationHeaderValues h)" for u
    using Cons.IH [of u s1] s1 by linarith
  show ?case
    using Cons.IH [of target s] rest s1 by (cases r; cases hasUser) (auto simp: kv hd)
qed simp

lemma asked_Check:
  assumes "CheckAuthorizedForImpersonation env sr req requester s = (res, req', s')"
  shows "sar_asked s' \<le> sar_asked s + countImpersonationHeaderValues (Header req) \<and>
    (sar_maxHeaderValues sr < int (countImpersonationHeaderValues (Header req)) \<longrightarrow> s' = s)"
proof -
  let ?l = "imp_loop env sr (RequestIDFrom req) requester (hdr_get (Header req) ''impersonate-user'' \<noteq> []) (Header req) emptyTarget s"
  have "sar_asked (snd ?l) \<le> sar_asked s + countImpersonationHeaderValues (Header req)" by (rule asked_loop)
  then show ?thesis
    using assms
    by (cases ?l) (auto simp: CheckAuthorizedForImpersonation_def Let_def asked_frame split: if_splits sum.splits)
qed

text \<open>
  C15. The cap bounds the work of one request: whatever the outcome, the number of authorization
  questions asked is at most the number of impersonation header values the request carries, and at
  most the configured cap.
\<close>

theorem questions_bounded:
  assumes "CheckAuthorizedForImpersonation env sr req requester s = (res, req', s')" "0 < sar_maxHeaderValues sr"
  shows "sar_asked s' \<le> sar_asked s + countImpersonationHeaderValues (Header req) \<and>
    int (sar_asked s') \<le> int (sar_asked s) + sar_maxHeaderValues sr"
  using asked_Check [OF assms(1)] assms(2)
  by (cases "sar_maxHeaderValues sr < int (countImpersonationHeaderValues (Header req))") auto

theorem questions_bounded_witness:
  "\<exists>res req' s'. CheckAuthorizedForImpersonation demo_sar_env demo_sar demo_as_bob (demo_user ''alice'') demo_sar_state = (res, req', s') \<and>
     int (sar_asked s') \<le> 64"
proof -
  obtain res req' s' where run:
    "CheckAuthorizedForImpersonation demo_sar_env demo_sar demo_as_bob (demo_user ''alice'') demo_sar_state = (res, req', s')"
    by (metis prod_cases3)
  from questions_bounded [OF run] run show ?thesis by (simp add: demo_sar_def demo_sar_state_def)
qed

text \<open>
  C16. Errors are never cached: when an authorization question ends in an error -- the API server
  unreachable, the budget spent, the client gone -- what the decision cache holds is unchanged, and
  the question is not answered with an allow.
\<close>

theorem sar_errors_never_cached:
  assumes "sar_inv env s"
    and "checkRbacImpersonationAuthorization env sr rid resource name requester s = ((allowed, Some e), s')"
  shows "\<not> allowed \<and> dc_written (sar_cache s') = dc_written (sar_cache s)"
  using checkRbac_error_cache [OF assms(2)] checkRbac_ok [OF assms(1), of resource name requester sr rid] assms(2)
  by (simp add: check_ok_def)

theorem sar_errors_never_cached_witness:
  "\<exists>e s'. checkRbacImpersonationAuthorization demo_sar_env demo_sar [] ''users'' ''down'' (demo_user ''alice'') demo_sar_state =
     ((False, Some e), s') \<and> dc_written (sar_cache s') = (\<lambda>_. None)"
proof -
  have inv: "sar_inv demo_sar_env demo_sar_state"
    by (rule sar_inv_new [OF lru_unbounded_sound, of _ 10 10]) (simp add: demo_sar_state_def)
  have "snd (fst (checkRbacImpersonationAuthorization demo_sar_env demo_sar [] ''users'' ''down'' (demo_user ''alice'') demo_sar_state)) \<noteq> None"
    by (simp add: demo_sar_eval is_ctx_error_def)
  then obtain a e s' where run:
    "checkRbacImpersonationAuthorization demo_sar_env demo_sar [] ''users'' ''down'' (demo_user ''alice'') demo_sar_state = ((a, Some e), s')"
    by (metis option.exhaust prod.collapse)
  from sar_errors_never_cached [OF inv run] run show ?thesis
    by (auto simp: dc_written_new demo_sar_state_def)
qed

lemma imp_loop_no_user:
  "list_ex (impersonation_key \<circ> fst) h \<Longrightarrow>
   imp_loop env sr rid requester False h target s = (Inl (SarErr (Sentinel ErrorNoImpersonationUserFound)), s)"
  by (induction h) auto

text \<open>
  A request that carries an impersonation header but names no user is refused with the dedicated
  error before any review is sent, whatever order its headers are visited in.
\<close>

theorem no_user_header_refused:
  assumes "list_ex (impersonation_key \<circ> fst) (Header req)" "hdr_get (Header req) ''impersonate-user'' = []"
    "int (countImpersonationHeaderValues (Header req)) \<le> sar_maxHeaderValues sr"
  shows "CheckAuthorizedForImpersonation env sr req requester s =
    (SarErr (Sentinel ErrorNoImpersonationUserFound), req, s)"
  using assms by (simp add: CheckAuthorizedForImpersonation_def Let_def imp_loop_no_user)

theorem no_user_header_refused_witness:
  "CheckAuthorizedForImpersonation demo_sar_env demo_sar (demo_request [(''Impersonate-Group'', [''devs''])]) (demo_user ''alice'') demo_sar_state =
    (SarErr (Sentinel ErrorNoImpersonationUserFound), demo_request [(''Impersonate-Group'', [''devs''])], demo_sar_state)"
proof (rule no_user_header_refused)
  show "list_ex (impersonation_key \<circ> fst) (Header (demo_request [(''Impersonate-Group'', [''devs''])]))" by code_simp
  show "hdr_get (Header (demo_request [(''Impersonate-Group'', [''devs''])])) ''impersonate-user'' = []" by code_simp
  show "int (countImpersonationHeaderValues (Header (demo_request [(''Impersonate-Group'', [''devs''])]))) \<le> sar_maxHeaderValues demo_sar"
    by code_simp
qed

lemma Check_no_panic:
  assumes "wf_header (Header req)"
  shows "fst (CheckAuthorizedForImpersonation env sr req requester s) \<noteq> SarPanic"
proof -
  let ?l = "imp_loop env sr (RequestIDFrom req) requester (hdr_get (Header req) ''impersonate-user'' \<noteq> []) (Header req) emptyTarget s"
  have "fst ?l \<noteq> Inl SarPanic"
    using imp_loop_Inl [of env sr "RequestIDFrom req" requester _ "Header req" emptyTarget s SarPanic] assms
    by (cases ?l) (fastforce simp: wf_header_def)
  then show ?thesis
    by (cases ?l) (auto simp: CheckAuthorizedForImpersonation_def Let_def split: if_splits sum.splits)
qed

end
