(* ===== verification/Response.thy ===== *)
theory Response
  imports SubjectAccessReview
begin

text \<open>
  Serving a request: the state of the process while one request is in flight, the response writer and
  its recorder (the first half of \<^verbatim>\<open>pkg/proxy/lifecycle.go\<close>), and the type of handlers.

  The state \<open>world\<close> extends the reviewers' state by the warning limiter, the calls sent to the API
  server, the response headers and what went over the client's connection (\<open>w_wire\<close>), and the fields of
  the \<open>responseRecorder\<close>. The server's own \<open>ResponseWriter\<close> is \<open>Raw\<close>: what it implements and how much of a
  write its connection takes is in \<open>w_conn\<close>. The closures \<open>onStart\<close> and \<open>onHijack\<close> capture the values in
  \<open>life\<close>. A handler returns whether it panicked.

  The theorem: over any use of the recorder, the connection carries at most one final status, it is
  the recorded one, and the recorded byte count is what the connection took.
\<close>

section \<open>The state while serving\<close>

datatype wire = WHeader int | WBody nat | WFlush | WHijack

record conn =
  cn_flusher :: bool
  cn_hijacker :: bool
  cn_hijackErr :: "err option"
  cn_write :: "wire list \<Rightarrow> nat \<Rightarrow> nat \<times> err option"

text \<open>A call to the API server: over the transport without credentials, or impersonating.\<close>

datatype up_call =
    UpNoAuth request
  | UpImpersonated imp_config request

record world = sar_state +
  w_limiter :: "limiter option"
  w_uuids :: nat
  w_respHeader :: header
  w_conn :: conn
  w_wire :: "wire list"
  w_upstream :: "up_call list"
  w_audit :: "string list"
  rec_status :: int
  rec_bytes :: int
  rec_wrote :: bool
  rec_hijacked :: bool
  rec_established :: bool

datatype panic = PanicError err | PanicValue string

record life =
  lf_rid :: string
  lf_logger :: logger
  lf_start :: int
  lf_verb :: string
  lf_scope :: string
  lf_longRunning :: bool
  lf_metrics :: recorder

datatype rwriter = Raw | Rec life

type_synonym handler = "rwriter \<Rightarrow> request \<Rightarrow> world \<Rightarrow> panic option \<times> world"

definition ms_since :: "int \<Rightarrow> world \<Rightarrow> int" where
  "ms_since start s = (t_now s - start) div 1000000"

section \<open>The server's response writer\<close>

definition raw_WriteHeader :: "int \<Rightarrow> world \<Rightarrow> world" where
  "raw_WriteHeader code s = s\<lparr>w_wire := w_wire s @ [WHeader code]\<rparr>"

definition raw_Write :: "nat \<Rightarrow> world \<Rightarrow> (nat \<times> err option) \<times> world" where
  "raw_Write len s = (let (n, er) = cn_write (w_conn s) (w_wire s) len in
     ((n, er), s\<lparr>w_wire := w_wire s @ [WBody n]\<rparr>))"

definition raw_Flush :: "world \<Rightarrow> world" where
  "raw_Flush s = s\<lparr>w_wire := w_wire s @ [WFlush]\<rparr>"

definition raw_Hijack :: "world \<Rightarrow> err option \<times> world" where
  "raw_Hijack s = (case cn_hijackErr (w_conn s) of
     Some e \<Rightarrow> (Some e, s)
   | None \<Rightarrow> (None, s\<lparr>w_wire := w_wire s @ [WHijack]\<rparr>))"

section \<open>The recorder\<close>

definition informational :: "int \<Rightarrow> bool" where
  "informational code = (code \<ge> 100 \<and> code \<le> 199 \<and> code \<noteq> 101)"

text \<open>The closures of \<open>withRequestLifecycle\<close>, set for long-running requests only.\<close>

definition establish :: "life \<Rightarrow> world \<Rightarrow> world" where
  "establish lf s =
     (if \<not> rec_established s
      then LongRunningEstablished (lf_metrics lf) (lf_verb lf) (lf_scope lf) (s\<lparr>rec_established := True\<rparr>)
      else s)"

definition onStart :: "life \<Rightarrow> int \<Rightarrow> world \<Rightarrow> world" where
  "onStart lf code s =
     (let s1 = Emit (lf_rid lf) (lf_logger lf) EventRequestResponseStarted
                 [(''http_status'', AInt code), (''time_to_headers_ms'', AInt (ms_since (lf_start lf) s))] s in
      if code = 101 \<or> (code \<ge> 200 \<and> code < 300) then establish lf s1 else s1)"

definition recorder_WriteHeader :: "life \<Rightarrow> int \<Rightarrow> world \<Rightarrow> world" where
  "recorder_WriteHeader lf code s =
     (if informational code then raw_WriteHeader code s
      else if rec_wrote s then s
      else
        let s1 = raw_WriteHeader code (s\<lparr>rec_wrote := True, rec_status := code\<rparr>) in
        if lf_longRunning lf then onStart lf code s1 else s1)"

definition recorder_Write :: "life \<Rightarrow> nat \<Rightarrow> world \<Rightarrow> (nat \<times> err option) \<times> world" where
  "recorder_Write lf len s =
     (let s1 = (if \<not> rec_wrote s then recorder_WriteHeader lf 200 s else s);
          ((n, er), s2) = raw_Write len s1 in
      ((n, er), s2\<lparr>rec_bytes := rec_bytes s2 + int n\<rparr>))"

definition recorder_Flush :: "life \<Rightarrow> world \<Rightarrow> world" where
  "recorder_Flush lf s =
     (if \<not> cn_flusher (w_conn s) then s
      else
        let s1 = (if \<not> rec_wrote s then recorder_WriteHeader lf 200 s else s) in
        raw_Flush s1)"

definition recorder_Hijack :: "life \<Rightarrow> world \<Rightarrow> err option \<times> world" where
  "recorder_Hijack lf s =
     (if \<not> cn_hijacker (w_conn s) then (Some (Sentinel ErrNotSupported), s)
      else
        let (er, s1) = raw_Hijack s in
        case er of
          Some e \<Rightarrow> (Some e, s1)
        | None \<Rightarrow>
            let s2 = s1\<lparr>rec_hijacked := True\<rparr> in
            (None, if lf_longRunning lf then establish lf s2 else s2))"

section \<open>Writing through either writer\<close>

fun rw_WriteHeader :: "rwriter \<Rightarrow> int \<Rightarrow> world \<Rightarrow> world" where
  "rw_WriteHeader Raw code = raw_WriteHeader code"
| "rw_WriteHeader (Rec lf) code = recorder_WriteHeader lf code"

fun rw_Write :: "rwriter \<Rightarrow> nat \<Rightarrow> world \<Rightarrow> (nat \<times> err option) \<times> world" where
  "rw_Write Raw len = raw_Write len"
| "rw_Write (Rec lf) len = recorder_Write lf len"

fun rw_Flush :: "rwriter \<Rightarrow> world \<Rightarrow> world" where
  "rw_Flush Raw s = (if cn_flusher (w_conn s) then raw_Flush s else s)"
| "rw_Flush (Rec lf) s = recorder_Flush lf s"

fun rw_Hijack :: "rwriter \<Rightarrow> world \<Rightarrow> err option \<times> world" where
  "rw_Hijack Raw s = (if cn_hijacker (w_conn s) then raw_Hijack s else (Some (Sentinel ErrNotSupported), s))"
| "rw_Hijack (Rec lf) s = recorder_Hijack lf s"

text \<open>\<open>http.Error\<close>: the headers it sets, the status, the message and a newline.\<close>

definition http_Error :: "rwriter \<Rightarrow> string \<Rightarrow> int \<Rightarrow> world \<Rightarrow> world" where
  "http_Error w msg code s =
     (let h1 = hdr_del (w_respHeader s) ''Content-Length'';
          h2 = hdr_set h1 ''Content-Type'' ''text/plain; charset=utf-8'';
          h3 = hdr_set h2 ''X-Content-Type-Options'' ''nosniff'' in
      snd (rw_Write w (length msg + 1) (rw_WriteHeader w code (s\<lparr>w_respHeader := h3\<rparr>))))"

section \<open>What writing leaves alone\<close>

lemma world_more_eq:
  assumes "tele.more s = tele.more (s' :: world)"
  shows "w_limiter s = w_limiter s'" "w_uuids s = w_uuids s'" "w_respHeader s = w_respHeader s'"
    "w_conn s = w_conn s'" "w_wire s = w_wire s'" "w_upstream s = w_upstream s'" "w_audit s = w_audit s'"
    "rec_status s = rec_status s'" "rec_bytes s = rec_bytes s'" "rec_wrote s = rec_wrote s'"
    "rec_hijacked s = rec_hijacked s'" "rec_established s = rec_established s'"
  using assms by (cases s; cases s'; simp)+

lemmas Emit_world [frame] = world_more_eq [OF Emit_frame(3)]
lemmas EmitLevel_world [frame] = world_more_eq [OF EmitLevel_frame(3)]
lemmas record_ops_world [frame] = world_more_eq [OF record_ops_frame(3)]

text \<open>
  The part of the state that says what was decided about the request and what was asked of others:
  writing a response does not touch it.
\<close>

definition decided :: "world \<Rightarrow>
  up_call list \<times> bool \<times> (tr_cache \<times> (int \<times> tr_spec \<times> (err + tr_status)) list) \<times>
  (decision_cache option \<times> (int \<times> sar_spec \<times> (err + bool)) list \<times> nat) \<times> int \<times> nat" where
  "decided s = (w_upstream s, rs_recorded s, (tr_store s, tr_calls s),
     (sar_cache s, sar_calls s, sar_asked s), t_now s, w_uuids s)"

lemma decided_more:
  "tele.more s = tele.more s' \<Longrightarrow> t_now s = t_now s' \<Longrightarrow> decided s = decided s'"
  by (cases s; cases s') (simp add: decided_def)

lemma decided_Emit [simp]: "decided (Emit rid l e as s) = decided s"
  "decided (EmitLevel rid l e lv as s) = decided s" "decided (record_ops r ops s) = decided s"
  by (rule decided_more; simp add: frame)+

lemma decided_upd [simp]:
  "decided (s\<lparr>w_wire := w\<rparr>) = decided s" "decided (s\<lparr>w_respHeader := h\<rparr>) = decided s"
  "decided (s\<lparr>rec_wrote := b\<rparr>) = decided s" "decided (s\<lparr>rec_status := c\<rparr>) = decided s"
  "decided (s\<lparr>rec_bytes := c\<rparr>) = decided s" "decided (s\<lparr>rec_hijacked := b\<rparr>) = decided s"
  "decided (s\<lparr>rec_established := b\<rparr>) = decided s" "decided (s\<lparr>w_audit := a\<rparr>) = decided s"
  "decided (s\<lparr>rs_termination := t\<rparr>) = decided s" "decided (s\<lparr>w_limiter := li\<rparr>) = decided s"
  by (simp_all add: decided_def)

lemmas raw_defs = raw_WriteHeader_def raw_Write_def raw_Flush_def raw_Hijack_def
lemmas recorder_writer_defs = recorder_WriteHeader_def recorder_Write_def recorder_Flush_def recorder_Hijack_def
  establish_def onStart_def LongRunningEstablished_def

lemma decided_raw [simp]:
  "decided (raw_WriteHeader c s) = decided s" "decided (snd (raw_Write n s)) = decided s"
  "decided (raw_Flush s) = decided s" "decided (snd (raw_Hijack s)) = decided s"
  by (simp_all add: raw_defs case_prod_beta Let_def split: option.splits)

lemma decided_recorder [simp]:
  "decided (establish lf s) = decided s"
  "decided (onStart lf c s) = decided s"
  "decided (recorder_WriteHeader lf c s) = decided s"
  "decided (snd (recorder_Write lf n s)) = decided s"
  "decided (recorder_Flush lf s) = decided s"
  "decided (snd (recorder_Hijack lf s)) = decided s"
  by (simp_all add: recorder_writer_defs case_prod_beta Let_def split: option.splits)

lemma decided_rw [simp]:
  "decided (rw_WriteHeader w c s) = decided s" "decided (snd (rw_Write w n s)) = decided s"
  "decided (rw_Flush w s) = decided s" "decided (snd (rw_Hijack w s)) = decided s"
  by (cases w; simp)+

lemma decided_http_Error [simp]: "decided (http_Error w msg code s) = decided s"
  by (simp add: http_Error_def Let_def)

section \<open>The recorder describes the connection\<close>

text \<open>Any use a handler makes of the writer.\<close>

datatype rw_op = OpHeader int | OpWrite nat | OpFlush | OpHijack

fun rec_op :: "life \<Rightarrow> rw_op \<Rightarrow> world \<Rightarrow> world" where
  "rec_op lf (OpHeader c) s = recorder_WriteHeader lf c s"
| "rec_op lf (OpWrite n) s = snd (recorder_Write lf n s)"
| "rec_op lf OpFlush s = recorder_Flush lf s"
| "rec_op lf OpHijack s = snd (recorder_Hijack lf s)"

definition final_statuses :: "wire list \<Rightarrow> int list" where
  "final_statuses ws = concat (map (\<lambda>w. case w of WHeader c \<Rightarrow> if informational c then [] else [c] | _ \<Rightarrow> []) ws)"

definition body_bytes :: "wire list \<Rightarrow> nat" where
  "body_bytes ws = sum_list (map (\<lambda>w. case w of WBody n \<Rightarrow> n | _ \<Rightarrow> 0) ws)"

text \<open>No body byte before the final status.\<close>

fun body_after_status :: "wire list \<Rightarrow> bool" where
  "body_after_status [] = True"
| "body_after_status (WHeader c # ws) = (if informational c then body_after_status ws else True)"
| "body_after_status (WBody n # ws) = False"
| "body_after_status (_ # ws) = body_after_status ws"

definition success_status :: "int \<Rightarrow> bool" where
  "success_status code = (code = 101 \<or> (code \<ge> 200 \<and> code < 300))"

definition rec_ok :: "life \<Rightarrow> wire list \<Rightarrow> int \<Rightarrow> world \<Rightarrow> bool" where
  "rec_ok lf w0 g0 s =
     (\<exists>ws. w_wire s = w0 @ ws \<and>
        final_statuses ws = (if rec_wrote s then [rec_status s] else []) \<and>
        rec_bytes s = int (body_bytes ws) \<and> body_after_status ws \<and>
        rec_hijacked s = (WHijack \<in> set ws) \<and>
        rec_established s = (lf_longRunning lf \<and> (rec_hijacked s \<or> (rec_wrote s \<and> success_status (rec_status s)))) \<and>
        (lf_metrics lf = Recorder \<longrightarrow>
           gauge nameLongRunningRequests [projectVerb (lf_verb lf), projectScope (lf_scope lf)] s =
             g0 + (if rec_established s then 1 else 0)))"

lemma final_statuses_append [simp]: "final_statuses (a @ b) = final_statuses a @ final_statuses b"
  by (simp add: final_statuses_def)

lemma body_bytes_append [simp]: "body_bytes (a @ b) = body_bytes a + body_bytes b"
  by (simp add: body_bytes_def)

lemma final_statuses_1 [simp]:
  "final_statuses [WHeader c] = (if informational c then [] else [c])"
  "final_statuses [WBody n] = []" "final_statuses [WFlush] = []" "final_statuses [WHijack] = []" "final_statuses [] = []"
  by (simp_all add: final_statuses_def)

lemma body_bytes_1 [simp]:
  "body_bytes [WHeader c] = 0" "body_bytes [WBody n] = n" "body_bytes [WFlush] = 0" "body_bytes [WHijack] = 0"
  "body_bytes [] = 0"
  by (simp_all add: body_bytes_def)

lemma body_after_status_append:
  "body_after_status (ws @ ws') = (body_after_status ws \<and> (final_statuses ws \<noteq> [] \<or> body_after_status ws'))"
  by (induction ws rule: body_after_status.induct) (auto simp: final_statuses_def)

lemma gauge_more: "t_met s = t_met s' \<Longrightarrow> gauge n ls s = gauge n ls s'"
  by (simp add: gauge_def)

lemma gauge_upd [simp]:
  "gauge n ls (s\<lparr>w_wire := w\<rparr>) = gauge n ls s" "gauge n ls (s\<lparr>rec_wrote := b\<rparr>) = gauge n ls s"
  "gauge n ls (s\<lparr>rec_status := c\<rparr>) = gauge n ls s" "gauge n ls (s\<lparr>rec_bytes := c\<rparr>) = gauge n ls s"
  "gauge n ls (s\<lparr>rec_hijacked := b\<rparr>) = gauge n ls s" "gauge n ls (s\<lparr>rec_established := b\<rparr>) = gauge n ls s"
  "gauge n ls (s\<lparr>w_respHeader := h\<rparr>) = gauge n ls s"
  by (simp_all add: gauge_def)

lemma gauge_Emit [simp]:
  "gauge n ls (Emit rid l e as s) = gauge n ls s" "gauge n ls (EmitLevel rid l e lv as s) = gauge n ls s"
  by (simp_all add: gauge_def frame)

lemma gauge_establish:
  "lf_metrics lf = Recorder \<Longrightarrow> ls = [projectVerb (lf_verb lf), projectScope (lf_scope lf)] \<Longrightarrow>
   gauge nameLongRunningRequests ls (establish lf s) =
     gauge nameLongRunningRequests ls s + (if rec_established s then 0 else 1)"
  by (simp add: establish_def LongRunningEstablished_def gauge_record_ops)

lemma establish_fields [simp]:
  "rec_established (establish lf s)" "w_wire (establish lf s) = w_wire s" "rec_wrote (establish lf s) = rec_wrote s"
  "rec_status (establish lf s) = rec_status s" "rec_bytes (establish lf s) = rec_bytes s"
  "rec_hijacked (establish lf s) = rec_hijacked s"
  by (simp_all add: establish_def LongRunningEstablished_def frame)

lemma rec_ok_WriteHeader:
  assumes "rec_ok lf w0 g0 s"
  shows "rec_ok lf w0 g0 (recorder_WriteHeader lf c s)"
proof -
  obtain ws where ws: "w_wire s = w0 @ ws" "final_statuses ws = (if rec_wrote s then [rec_status s] else [])"
    "rec_bytes s = int (body_bytes ws)" "body_after_status ws" "rec_hijacked s = (WHijack \<in> set ws)"
    "rec_established s = (lf_longRunning lf \<and> (rec_hijacked s \<or> (rec_wrote s \<and> success_status (rec_status s))))"
    "lf_metrics lf = Recorder \<longrightarrow>
       gauge nameLongRunningRequests [projectVerb (lf_verb lf), projectScope (lf_scope lf)] s =
         g0 + (if rec_established s then 1 else 0)"
    using assms unfolding rec_ok_def by blast
  show ?thesis
  proof (cases "informational c \<or> \<not> rec_wrote s")
    case False
    then show ?thesis using assms by (simp add: recorder_WriteHeader_def)
  next
    case True
    then have "w_wire (recorder_WriteHeader lf c s) = w0 @ (ws @ [WHeader c])"
      using ws(1) by (auto simp: recorder_WriteHeader_def raw_defs onStart_def Let_def frame)
    moreover have "\<not> informational c \<Longrightarrow> rec_wrote (recorder_WriteHeader lf c s) \<and> rec_status (recorder_WriteHeader lf c s) = c"
      using True by (simp add: recorder_WriteHeader_def raw_defs onStart_def Let_def frame)
    ultimately show ?thesis
      unfolding rec_ok_def using True ws
      by (intro exI [of _ "ws @ [WHeader c]"])
         (auto simp: body_after_status_append recorder_WriteHeader_def raw_defs onStart_def Let_def frame success_status_def
            gauge_establish)
  qed
qed

lemma recorder_WriteHeader_wrote: "\<not> informational c \<Longrightarrow> rec_wrote (recorder_WriteHeader lf c s)"
  by (simp add: recorder_WriteHeader_def raw_defs onStart_def Let_def frame)

lemma not_informational_200 [simp]: "\<not> informational 200"
  by (simp add: informational_def)

lemma rec_ok_append:
  assumes "rec_ok lf w0 g0 s" "final_statuses [w] = []" "rec_wrote s \<or> body_after_status [w]"
    "w_wire s' = w_wire s @ [w]" "rec_bytes s' = rec_bytes s + int (body_bytes [w])"
    "rec_wrote s' = rec_wrote s" "rec_status s' = rec_status s"
    "rec_hijacked s' = (rec_hijacked s \<or> w = WHijack)"
    "rec_established s' = (rec_established s \<or> (lf_longRunning lf \<and> w = WHijack))"
    "lf_metrics lf = Recorder \<Longrightarrow>
       gauge nameLongRunningRequests [projectVerb (lf_verb lf), projectScope (lf_scope lf)] s' =
       gauge nameLongRunningRequests [projectVerb (lf_verb lf), projectScope (lf_scope lf)] s +
         (if rec_established s' \<and> \<not> rec_established s then 1 else 0)"
  shows "rec_ok lf w0 g0 s'"
proof -
  obtain ws where "w_wire s = w0 @ ws" "final_statuses ws = (if rec_wrote s then [rec_status s] else [])"
    "rec_bytes s = int (body_bytes ws)" "body_after_status ws" "rec_hijacked s = (WHijack \<in> set ws)"
    "rec_established s = (lf_longRunning lf \<and> (rec_hijacked s \<or> (rec_wrote s \<and> success_status (rec_status s))))"
    "lf_metrics lf = Recorder \<longrightarrow>
       gauge nameLongRunningRequests [projectVerb (lf_verb lf), projectScope (lf_scope lf)] s =
         g0 + (if rec_established s then 1 else 0)"
    using assms(1) unfolding rec_ok_def by blast
  then show ?thesis
    unfolding rec_ok_def using assms(2-10)
    by (intro exI [of _ "ws @ [w]"]) (auto simp: body_after_status_append)
qed

lemma rec_ok_implicit:
  "rec_ok lf w0 g0 s \<Longrightarrow> rec_ok lf w0 g0 (if \<not> rec_wrote s then recorder_WriteHeader lf 200 s else s)"
  by (simp add: rec_ok_WriteHeader)

lemma implicit_wrote: "rec_wrote (if \<not> rec_wrote s then recorder_WriteHeader lf 200 s else s)"
  by (simp add: recorder_WriteHeader_wrote)

lemma rec_ok_op:
  assumes "rec_ok lf w0 g0 s"
  shows "rec_ok lf w0 g0 (rec_op lf op s)"
proof (cases op)
  case (OpHeader c)
  then show ?thesis using assms by (simp add: rec_ok_WriteHeader)
next
  case (OpWrite n)
  define s1 where "s1 = (if \<not> rec_wrote s then recorder_WriteHeader lf 200 s else s)"
  have s1: "rec_ok lf w0 g0 s1" "rec_wrote s1"
    using rec_ok_implicit [OF assms] implicit_wrote [of s lf] by (simp_all only: s1_def)
  have "snd (recorder_Write lf n s) =
      (let s2 = snd (raw_Write n s1) in s2\<lparr>rec_bytes := rec_bytes s2 + int (fst (cn_write (w_conn s1) (w_wire s1) n))\<rparr>)"
    unfolding s1_def recorder_Write_def raw_Write_def by (simp add: Let_def case_prod_beta)
  then have "rec_ok lf w0 g0 (snd (recorder_Write lf n s))"
    using s1(2)
    by (intro rec_ok_append [OF s1(1), where w = "WBody (fst (cn_write (w_conn s1) (w_wire s1) n))"])
       (simp_all add: raw_Write_def Let_def case_prod_beta)
  then show ?thesis using OpWrite by simp
next
  case OpFlush
  define s1 where "s1 = (if \<not> rec_wrote s then recorder_WriteHeader lf 200 s else s)"
  have "rec_ok lf w0 g0 s1" using rec_ok_implicit [OF assms] by (simp only: s1_def)
  then have "rec_ok lf w0 g0 (raw_Flush s1)"
    by (rule rec_ok_append [where w = WFlush]) (simp_all add: raw_Flush_def)
  then show ?thesis using OpFlush assms by (simp add: recorder_Flush_def s1_def)
next
  case OpHijack
  show ?thesis
  proof (cases "cn_hijacker (w_conn s) \<and> cn_hijackErr (w_conn s) = None")
    case True
    then have "rec_ok lf w0 g0 (snd (recorder_Hijack lf s))"
      by (intro rec_ok_append [OF assms, where w = WHijack])
         (auto simp: recorder_Hijack_def raw_Hijack_def Let_def gauge_establish)
    then show ?thesis using OpHijack by simp
  next
    case False
    then show ?thesis using assms OpHijack by (auto simp: recorder_Hijack_def raw_Hijack_def)
  qed
qed

lemma rec_ok_ops: "rec_ok lf w0 g0 s \<Longrightarrow> rec_ok lf w0 g0 (fold (rec_op lf) ops s)"
  by (induction ops arbitrary: s) (auto simp: rec_ok_op)


definition demo_conn :: conn where
  "demo_conn = \<lparr>cn_flusher = True, cn_hijacker = True, cn_hijackErr = None, cn_write = (\<lambda>_ n. (n, None))\<rparr>"

definition demo_world :: world where
  "demo_world = \<lparr>t_now = 0, t_log = [], t_met = [], rs_recorded = False, rs_termination = ([], []),
     tr_store = newTokenCache lru_unbounded 0 0, tr_calls = [],
     sar_cache = newDecisionCache lru_unbounded 10 10, sar_calls = [], sar_asked = 0,
     w_limiter = None, w_uuids = 0, w_respHeader = [], w_conn = demo_conn, w_wire = [], w_upstream = [], w_audit = [],
     rec_status = 0, rec_bytes = 0, rec_wrote = False, rec_hijacked = False, rec_established = False\<rparr>"

definition demo_life :: life where
  "demo_life = \<lparr>lf_rid = ''r1'', lf_logger = logger_for 0 ComponentRequest, lf_start = 0, lf_verb = ''watch'',
     lf_scope = ''cluster'', lf_longRunning = True, lf_metrics = Recorder\<rparr>"


end
