(* ===== verification/Hooks.thy ===== *)
theory Hooks
  imports Metrics
begin

text \<open>
  The pre-shutdown hook registry of \<^verbatim>\<open>pkg/proxy/hooks/hooks.go\<close>: an ordered list of named hooks with an
  index from name to position. The lock makes each method atomic; \<open>RunPreShutdownHooks\<close> works on a
  snapshot, so it is a function of the entries at its start. A hook acts on the state and may fail.

  The locale \<open>ordered_registry\<close> is the contract of the registry -- registration order, replacement in
  place -- and its interpretation shows that the slice with its index map keeps it.
\<close>

type_synonym 's hook = "'s \<Rightarrow> err option \<times> 's"

record 's hooks =
  h_logger :: logger
  h_entries :: "(string \<times> 's hook) list"
  h_indexOf :: "(string \<times> nat) list"

definition hooks_New :: "logger option \<Rightarrow> 's hooks" where
  "hooks_New l = \<lparr>h_logger = (case l of Some l \<Rightarrow> l | None \<Rightarrow> Discard), h_entries = [], h_indexOf = []\<rparr>"

definition AddPreShutdownHook :: "string \<Rightarrow> 's hook \<Rightarrow> 's hooks \<Rightarrow> 's hooks" where
  "AddPreShutdownHook name hook h = (case map_of (h_indexOf h) name of
     Some i \<Rightarrow> h\<lparr>h_entries := (h_entries h)[i := (fst (h_entries h ! i), hook)]\<rparr>
   | None \<Rightarrow> h\<lparr>h_indexOf := AList.update name (length (h_entries h)) (h_indexOf h),
              h_entries := h_entries h @ [(name, hook)]\<rparr>)"

definition hook_error :: "string \<Rightarrow> err \<Rightarrow> err" where
  "hook_error name e = Errorf (''PreShutdownHook '' @ go_quote name @ '' failed: '' @ err_text e) [e]"

text \<open>
  \<open>NewAggregate\<close> of k8s.io/apimachinery is a parameter. It documents: nil for an empty list, otherwise
  an error for which \<open>errors.Is\<close> holds when it holds of one of the aggregated errors.
\<close>

type_synonym aggregator = "err list \<Rightarrow> err option"

definition aggregates :: "aggregator \<Rightarrow> bool" where
  "aggregates agg = (agg [] = None \<and>
     (\<forall>es. es \<noteq> [] \<longrightarrow> (\<exists>a. agg es = Some a \<and> (\<forall>t. err_is a t \<longleftrightarrow> (\<exists>e \<in> set es. err_is e t)))))"

definition ms :: "int \<Rightarrow> int" where
  "ms d = d div 1000000"

fun run_hooks :: "logger \<Rightarrow> (string \<times> 'a tele_scheme hook) list \<Rightarrow> 'a tele_scheme \<Rightarrow> err list \<times> 'a tele_scheme" where
  "run_hooks l [] s = ([], s)"
| "run_hooks l ((name, hook) # es) s =
     (let start = t_now s; (er, s1) = hook s; elapsed = t_now s1 - start in
      case er of
        Some e \<Rightarrow>
          let s2 = Emit [] l EventProxyHookFailed
                [(''hook'', AStr (Bound name MaxIdentity)), (''duration_ms'', AInt (ms elapsed)), ErrAttr (Some e)] s1;
              (errs, s3) = run_hooks l es s2 in
          (hook_error name e # errs, s3)
      | None \<Rightarrow>
          run_hooks l es (Emit [] l EventProxyHookCompleted
            [(''hook'', AStr (Bound name MaxIdentity)), (''duration_ms'', AInt (ms elapsed))] s1))"

definition RunPreShutdownHooks ::
  "aggregator \<Rightarrow> 'a tele_scheme hooks \<Rightarrow> 'a tele_scheme \<Rightarrow> err option \<times> 'a tele_scheme" where
  "RunPreShutdownHooks agg h s = (let (errs, s1) = run_hooks (h_logger h) (h_entries h) s in (agg errs, s1))"

section \<open>The registry contract\<close>

locale ordered_registry =
  fixes invar :: "'r \<Rightarrow> bool"
    and items :: "'r \<Rightarrow> (string \<times> 'v) list"
    and add :: "string \<Rightarrow> 'v \<Rightarrow> 'r \<Rightarrow> 'r"
  assumes invar_add: "invar r \<Longrightarrow> invar (add n v r)"
    and distinct_items: "invar r \<Longrightarrow> distinct (map fst (items r))"
    and names_add: "invar r \<Longrightarrow>
      map fst (items (add n v r)) = (if n \<in> fst ` set (items r) then map fst (items r) else map fst (items r) @ [n])"
    and lookup_add: "invar r \<Longrightarrow> map_of (items (add n v r)) m = (if m = n then Some v else map_of (items r) m)"
begin

text \<open>Registering a sequence of hooks: names stay distinct, every name is there, the last write wins.\<close>

lemma invar_fold: "invar r \<Longrightarrow> invar (fold (\<lambda>(n, v). add n v) nvs r)"
  by (induction nvs arbitrary: r) (auto simp: invar_add)

lemma lookup_fold:
  "invar r \<Longrightarrow> map_of (items (fold (\<lambda>(n, v). add n v) nvs r)) m =
     (case map_of (rev nvs) m of Some v \<Rightarrow> Some v | None \<Rightarrow> map_of (items r) m)"
proof (induction nvs arbitrary: r)
  case (Cons nv nvs)
  obtain n v where nv: "nv = (n, v)" by (cases nv)
  have "map_of (items (fold (\<lambda>(n, v). add n v) nvs (add n v r))) m =
      (case map_of (rev nvs) m of Some v \<Rightarrow> Some v | None \<Rightarrow> map_of (items (add n v r)) m)"
    using Cons invar_add by simp
  then show ?case
    using lookup_add [OF Cons.prems, of n v m] nv by (auto simp: map_add_def split: option.splits)
qed simp

lemma names_fold:
  assumes "invar r" "items r = []"
  shows "map fst (items (fold (\<lambda>(n, v). add n v) nvs r)) = rev (remdups (rev (map fst nvs)))"
proof (induction nvs rule: rev_induct)
  case (snoc nv nvs)
  define q where "q = fold (\<lambda>(n, v). add n v) nvs r"
  obtain n v where nv: "nv = (n, v)" by (cases nv)
  have "fst ` set (items q) = set (rev (remdups (rev (map fst nvs))))"
    using snoc unfolding q_def by (metis list.set_map)
  then have "fst ` set (items q) = fst ` set nvs" by simp
  then show ?case
    using snoc names_add [OF invar_fold [OF assms(1)], of n v nvs] nv by (simp add: q_def)
qed (simp add: assms)

lemma items_fold:
  assumes "invar r" "items r = []"
  shows "items (fold (\<lambda>(n, v). add n v) nvs r) =
    map (\<lambda>n. (n, the (map_of (rev nvs) n))) (rev (remdups (rev (map fst nvs))))"
proof -
  define q where "q = fold (\<lambda>(n, v). add n v) nvs r"
  have d: "distinct (map fst (items q))"
    using distinct_items [OF invar_fold [OF assms(1)]] q_def by simp
  have "snd x = the (map_of (rev nvs) (fst x))" if "x \<in> set (items q)" for x
  proof -
    have "map_of (items q) (fst x) = Some (snd x)" using that d by (simp add: map_of_is_SomeI)
    then show ?thesis
      using lookup_fold [OF assms(1), of nvs "fst x"] assms(2) by (auto simp: q_def split: option.splits)
  qed
  then have "items q = map (\<lambda>n. (n, the (map_of (rev nvs) n))) (map fst (items q))"
    by (intro nth_equalityI) (auto simp: prod_eq_iff)
  then show ?thesis using names_fold [OF assms, of nvs] by (simp add: q_def)
qed

end

text \<open>The index map names exactly the positions of the entries.\<close>

definition hooks_invar :: "'s hooks \<Rightarrow> bool" where
  "hooks_invar h = (distinct (map fst (h_entries h)) \<and>
     (\<forall>n i. map_of (h_indexOf h) n = Some i \<longleftrightarrow> (i < length (h_entries h) \<and> fst (h_entries h ! i) = n)))"

lemma hooks_invar_New: "hooks_invar (hooks_New l)"
  by (simp add: hooks_invar_def hooks_New_def)

lemma hooks_index_None:
  assumes "hooks_invar h"
  shows "map_of (h_indexOf h) n = None \<longleftrightarrow> n \<notin> fst ` set (h_entries h)"
proof -
  have "n \<in> fst ` set (h_entries h) \<longleftrightarrow> (\<exists>i. i < length (h_entries h) \<and> fst (h_entries h ! i) = n)"
    by (metis (no_types, lifting) imageE image_eqI in_set_conv_nth nth_mem)
  then show ?thesis using assms unfolding hooks_invar_def by (metis not_None_eq)
qed

lemma map_of_list_update:
  assumes "distinct (map fst xs)" "i < length xs" "fst (xs ! i) = n"
  shows "map_of (xs[i := (n, v)]) m = (if m = n then Some v else map_of xs m)"
  using assms
proof (induction xs arbitrary: i)
  case (Cons x xs)
  then show ?case
  proof (cases i)
    case (Suc j)
    then have "n \<in> fst ` set xs" using Cons.prems by auto
    moreover have "fst x \<notin> fst ` set xs" using Cons.prems by simp
    ultimately have "n \<noteq> fst x" by metis
    then show ?thesis using Cons Suc by (cases x) auto
  qed (cases x; simp)
qed simp

lemma map_fst_update: "i < length xs \<Longrightarrow> fst (xs ! i) = n \<Longrightarrow> map fst (xs[i := (n, v)]) = map fst xs"
  by (metis fst_conv list_update_id map_update nth_map)

lemma hooks_add_cases:
  assumes "hooks_invar h"
  obtains (replace) i where "i < length (h_entries h)" "fst (h_entries h ! i) = n"
      "AddPreShutdownHook n v h = h\<lparr>h_entries := (h_entries h)[i := (n, v)]\<rparr>"
  | (fresh) "n \<notin> fst ` set (h_entries h)"
      "AddPreShutdownHook n v h = h\<lparr>h_indexOf := AList.update n (length (h_entries h)) (h_indexOf h),
         h_entries := h_entries h @ [(n, v)]\<rparr>"
proof (cases "map_of (h_indexOf h) n")
  case None
  then have "n \<notin> fst ` set (h_entries h)" using hooks_index_None [OF assms] by blast
  then show ?thesis by (rule fresh) (simp add: AddPreShutdownHook_def None)
next
  case (Some i)
  then have "i < length (h_entries h)" "fst (h_entries h ! i) = n"
    using assms unfolding hooks_invar_def by blast+
  then show ?thesis using Some by (intro replace [of i]) (simp_all add: AddPreShutdownHook_def)
qed

lemma hooks_invar_add:
  assumes "hooks_invar h"
  shows "hooks_invar (AddPreShutdownHook n v h)"
  using assms
proof (cases rule: hooks_add_cases [of _ n v])
  case (replace i)
  then have "map fst ((h_entries h)[i := (n, v)]) = map fst (h_entries h)" by (intro map_fst_update)
  moreover have "fst ((h_entries h)[i := (n, v)] ! j) = fst (h_entries h ! j)" for j
    using replace(1,2) by (cases "i = j") auto
  ultimately show ?thesis using assms replace unfolding hooks_invar_def by simp
next
  case fresh
  then have "distinct (map fst (h_entries h @ [(n, v)]))" using assms by (simp add: hooks_invar_def)
  moreover have "(map_of (AList.update n (length (h_entries h)) (h_indexOf h)) m = Some i) =
      (i < length (h_entries h @ [(n, v)]) \<and> fst ((h_entries h @ [(n, v)]) ! i) = m)" for m i
  proof (cases "i < length (h_entries h)")
    case True
    then have "h_entries h ! i \<in> set (h_entries h)" by simp
    then have "fst (h_entries h ! i) \<noteq> n" using fresh(1) by force
    then show ?thesis
      using assms True unfolding hooks_invar_def by (auto simp: update_conv' nth_append)
  next
    case False
    then have "map_of (h_indexOf h) m \<noteq> Some i" using assms unfolding hooks_invar_def by blast
    then show ?thesis using False by (auto simp: update_conv' nth_append less_Suc_eq)
  qed
  ultimately show ?thesis using fresh unfolding hooks_invar_def by simp
qed

interpretation hook_list: ordered_registry hooks_invar h_entries AddPreShutdownHook
proof
  fix r :: "'s hooks" and n v m
  assume inv: "hooks_invar r"
  then show d: "distinct (map fst (h_entries r))" by (simp add: hooks_invar_def)
  show "hooks_invar (AddPreShutdownHook n v r)" using inv by (rule hooks_invar_add)
  show "map fst (h_entries (AddPreShutdownHook n v r)) =
       (if n \<in> fst ` set (h_entries r) then map fst (h_entries r) else map fst (h_entries r) @ [n])"
    using inv
  proof (cases rule: hooks_add_cases [of _ n v])
    case (replace i)
    then have "n \<in> fst ` set (h_entries r)" by auto
    then show ?thesis using replace map_fst_update by simp
  qed simp
  show "map_of (h_entries (AddPreShutdownHook n v r)) m = (if m = n then Some v else map_of (h_entries r) m)"
    using inv
  proof (cases rule: hooks_add_cases [of _ n v])
    case (replace i)
    then show ?thesis using map_of_list_update [OF d] by simp
  next
    case fresh
    then have "map_of (h_entries r) n = None" by (simp add: map_of_eq_None_iff)
    then show ?thesis using fresh by (auto simp: map_add_def split: option.splits)
  qed
qed

section \<open>A shutdown pass\<close>

text \<open>The runs of a pass: which hook ran, from which state, and what it answered.\<close>

fun hook_runs ::
  "logger \<Rightarrow> (string \<times> 'a tele_scheme hook) list \<Rightarrow> 'a tele_scheme \<Rightarrow> (string \<times> err option) list" where
  "hook_runs l [] s = []"
| "hook_runs l (e # es) s = (fst e, fst (snd e s)) # hook_runs l es (snd (run_hooks l [e] s))"

lemma hook_runs_names: "map fst (hook_runs l es s) = map fst es"
  by (induction es arbitrary: s) auto

lemma run_hooks_errors:
  "fst (run_hooks l es s) = List.map_filter (\<lambda>(n, er). map_option (hook_error n) er) (hook_runs l es s)"
  by (induction l es s rule: run_hooks.induct)
     (auto simp: Let_def map_filter_simps split: prod.splits option.splits)

lemma err_is_hook_error [simp]: "err_is (hook_error n e) t = err_is e t"
  by (simp add: hook_error_def)

lemma failed_runs_mem:
  "e \<in> set (List.map_filter (\<lambda>(n, er). map_option (hook_error n) er) runs) \<longleftrightarrow>
     (\<exists>n e'. (n, Some e') \<in> set runs \<and> e = hook_error n e')"
  by (force simp: List.map_filter_def)

lemma failed_runs_Nil:
  "List.map_filter (\<lambda>(n, er). map_option (hook_error n) er) runs = [] \<longleftrightarrow> (\<forall>r \<in> set runs. snd r = None)"
  by (induction runs) (auto simp: map_filter_simps split: option.splits)

lemma RunPreShutdownHooks_result:
  "fst (RunPreShutdownHooks agg h s) =
     agg (List.map_filter (\<lambda>(n, er). map_option (hook_error n) er) (hook_runs (h_logger h) (h_entries h) s))"
  by (simp add: RunPreShutdownHooks_def case_prod_unfold run_hooks_errors)

lemma pass_nil:
  "aggregates agg \<Longrightarrow> fst (RunPreShutdownHooks agg h s) = None \<longleftrightarrow>
     (\<forall>r \<in> set (hook_runs (h_logger h) (h_entries h) s). snd r = None)"
  unfolding aggregates_def RunPreShutdownHooks_result failed_runs_Nil [symmetric] by (metis option.distinct(1))

lemma pass_causes:
  assumes "aggregates agg" "fst (RunPreShutdownHooks agg h s) = Some a"
  shows "err_is a t = (\<exists>n e. (n, Some e) \<in> set (hook_runs (h_logger h) (h_entries h) s) \<and> err_is e t)"
proof -
  let ?es = "List.map_filter (\<lambda>(n, er). map_option (hook_error n) er) (hook_runs (h_logger h) (h_entries h) s)"
  have "err_is a t = (\<exists>e \<in> set ?es. err_is e t)"
    using assms unfolding aggregates_def RunPreShutdownHooks_result by (metis option.distinct(1) option.inject)
  then show ?thesis using failed_runs_mem by (metis (no_types, lifting) err_is_hook_error)
qed

text \<open>
  C18. After any sequence of registrations, one shutdown pass runs exactly one hook per registered name:
  the names in order of their first registration, each with the hook registered last under it,
  whatever hooks fail on the way. The pass returns nil if and only if every hook succeeded, and
  \<open>errors.Is\<close> on the returned aggregate finds precisely the causes the hooks reported.
\<close>

theorem shutdown_pass_runs_every_hook:
  assumes agg: "aggregates agg"
    and h: "h = fold (\<lambda>(n, v). AddPreShutdownHook n v) nvs (hooks_New lg)"
    and runs: "runs = hook_runs (h_logger h) (h_entries h) s"
  shows "h_entries h = map (\<lambda>n. (n, the (map_of (rev nvs) n))) (rev (remdups (rev (map fst nvs)))) \<and>
    map fst runs = rev (remdups (rev (map fst nvs))) \<and>
    (fst (RunPreShutdownHooks agg h s) = None \<longleftrightarrow> (\<forall>r \<in> set runs. snd r = None)) \<and>
    (\<forall>a t. fst (RunPreShutdownHooks agg h s) = Some a \<longrightarrow>
      err_is a t = (\<exists>n e. (n, Some e) \<in> set runs \<and> err_is e t))"
proof -
  have ents: "h_entries h = map (\<lambda>n. (n, the (map_of (rev nvs) n))) (rev (remdups (rev (map fst nvs))))"
    unfolding h by (intro hook_list.items_fold hooks_invar_New) (simp add: hooks_New_def)
  moreover have "map fst runs = rev (remdups (rev (map fst nvs)))"
    by (simp add: runs hook_runs_names ents comp_def)
  moreover have "fst (RunPreShutdownHooks agg h s) = None \<longleftrightarrow> (\<forall>r \<in> set runs. snd r = None)"
    unfolding runs using agg by (rule pass_nil)
  moreover have "err_is a t = (\<exists>n e. (n, Some e) \<in> set runs \<and> err_is e t)"
    if "fst (RunPreShutdownHooks agg h s) = Some a" for a t
    unfolding runs using agg that by (rule pass_causes)
  ultimately show ?thesis by blast
qed

definition demo_hooks :: "(string \<times> tele hook) list" where
  "demo_hooks = [(''audit'', \<lambda>s. (Some (Sentinel ErrCanceled), s)), (''tokens'', \<lambda>s. (None, s)),
     (''audit'', \<lambda>s. (Some (Sentinel ErrEOF), s))]"

theorem shutdown_pass_runs_every_hook_witness:
  "map fst (h_entries (fold (\<lambda>(n, v). AddPreShutdownHook n v) demo_hooks (hooks_New None))) = [''audit'', ''tokens''] \<and>
   fst (RunPreShutdownHooks (\<lambda>es. if es = [] then None else Some (Errorf [] es))
       (fold (\<lambda>(n, v). AddPreShutdownHook n v) demo_hooks (hooks_New None))
       \<lparr>t_now = 0, t_log = [], t_met = []\<rparr>) \<noteq> None"
proof -
  let ?h = "fold (\<lambda>(n, v). AddPreShutdownHook n v) demo_hooks (hooks_New None)"
  let ?s = "\<lparr>t_now = 0, t_log = [], t_met = []\<rparr> :: tele"
  have "aggregates (\<lambda>es. if es = [] then None else Some (Errorf [] es))"
    by (auto simp: aggregates_def list_ex_iff)
  note all = shutdown_pass_runs_every_hook [OF this refl refl, of demo_hooks None ?s]
  moreover from all have "map fst (h_entries ?h) = [''audit'', ''tokens'']" by (simp add: demo_hooks_def)
  moreover from all have "(''audit'', Some (Sentinel ErrEOF)) \<in> set (hook_runs (h_logger ?h) (h_entries ?h) ?s)"
    by (simp add: demo_hooks_def)
  ultimately show ?thesis by force
qed

end
