(* ===== verification/AuditChain.thy ===== *)
theory AuditChain
  imports Response Hooks
begin

text \<open>
  The audit backend of \<^verbatim>\<open>pkg/proxy/audit\<close> (\<^verbatim>\<open>audit.go\<close>, \<^verbatim>\<open>handler.go\<close>): its construction, its start and its
  flush, which requests are long running, and how the Kubernetes audit filters are composed around
  the proxy's handlers.

  The filters themselves (\<open>WithRequestInfo\<close>, \<open>WithAudit\<close>, \<open>WithAuditInit\<close>, \<open>WithFailedAuthenticationAudit\<close>), the
  backend and \<open>BasicLongRunningRequestCheck\<close> are code of k8s.io/apiserver: they are fields of the
  \<open>auditor\<close>, arguments of every definition that uses them. What the proxy relies on is \<open>transparent\<close>: a
  filter serves the request exactly once through the handler it wraps, adds only the resolved request
  information to its context, writes only audit events and response headers of its own, and passes
  panics on; \<open>transparent_lift\<close> is what follows for a handler behind such a filter.
\<close>

record audit_backend =
  be_Run :: "err option"
  be_String :: string
  be_Shutdown :: "world \<Rightarrow> world"
  be_ShutdownErr :: "(world \<Rightarrow> err option) option"

record auditor =
  au_logger :: logger
  au_metrics :: recorder
  au_AuditBackend :: "audit_backend option"
  au_BasicLongRunningRequestCheck :: "string list \<Rightarrow> string list \<Rightarrow> request \<Rightarrow> request_info \<Rightarrow> bool"
  au_RequestInfoFilter :: "handler \<Rightarrow> handler"
  au_WithAudit :: "handler \<Rightarrow> handler"
  au_WithAuditInit :: "handler \<Rightarrow> handler"
  au_WithFailedAuthenticationAudit :: "handler \<Rightarrow> handler"

definition longRunningRequests :: "auditor \<Rightarrow> request \<Rightarrow> request_info \<Rightarrow> bool" where
  "longRunningRequests a = au_BasicLongRunningRequestCheck a
     [''watch'', ''proxy''] [''attach'', ''exec'', ''proxy'', ''log'', ''portforward'']"

definition IsLongRunning :: "auditor \<Rightarrow> request \<Rightarrow> bool" where
  "IsLongRunning a req = (case requestInfoKey (Ctx req) of
     None \<Rightarrow> False
   | Some info \<Rightarrow> longRunningRequests a req info)"

text \<open>\<open>New\<close>; \<open>applied\<close> is what applying the audit options and completing the configuration gave.\<close>

definition audit_New :: "(err + auditor) \<Rightarrow> logger option \<Rightarrow> err + auditor" where
  "audit_New applied lg = (case applied of
     Inl e \<Rightarrow> Inl e
   | Inr completed \<Rightarrow> Inr (completed\<lparr>au_logger := (case lg of Some l \<Rightarrow> l | None \<Rightarrow> Discard), au_metrics := NilRecorder\<rparr>))"

definition audit_WithMetrics :: "recorder \<Rightarrow> auditor \<Rightarrow> auditor" where
  "audit_WithMetrics r a = a\<lparr>au_metrics := r\<rparr>"

definition backendKind :: "auditor \<Rightarrow> string" where
  "backendKind a = (case au_AuditBackend a of
     None \<Rightarrow> ''none''
   | Some b \<Rightarrow> Bound (be_String b) MaxIdentity)"

definition audit_Run :: "auditor \<Rightarrow> world \<Rightarrow> err option \<times> world" where
  "audit_Run a s = (case au_AuditBackend a of
     None \<Rightarrow> (None, s)
   | Some b \<Rightarrow>
       case be_Run b of
         Some e \<Rightarrow>
           (Some (NewError (''failed to run the audit backend: '' @ err_text e)),
            AuditBackendFailure (au_metrics a) ''run''
              (Emit [] (au_logger a) EventAuditBackendFailed [ErrAttr (Some e)] s))
       | None \<Rightarrow>
           (None, Emit [] (au_logger a) EventAuditBackendStarted [(''backend_kind'', AStr (backendKind a))] s))"

definition audit_Shutdown :: "auditor \<Rightarrow> world \<Rightarrow> err option \<times> world" where
  "audit_Shutdown a s = (case au_AuditBackend a of
     None \<Rightarrow> (None, s)
   | Some backend \<Rightarrow>
       let start = t_now s; s1 = be_Shutdown backend s; elapsed = t_now s1 - start;
           reported = (case be_ShutdownErr backend of Some f \<Rightarrow> f s1 | None \<Rightarrow> None) in
       case reported of
         Some e \<Rightarrow>
           (Some (Errorf (''audit backend failed to flush: '' @ err_text e) [e]),
            AuditBackendFailure (au_metrics a) ''shutdown''
              (Emit [] (au_logger a) EventAuditFlushFailed [ErrAttr (Some e)] s1))
       | None \<Rightarrow>
           (None, Emit [] (au_logger a) EventAuditFlushCompleted [(''duration_ms'', AInt (ms elapsed))] s1))"

section \<open>The filter chains\<close>

definition WithRequestInfo :: "auditor \<Rightarrow> handler \<Rightarrow> handler" where
  "WithRequestInfo a h = au_RequestInfoFilter a h"

definition WithRequest :: "auditor \<Rightarrow> handler \<Rightarrow> handler" where
  "WithRequest a h = au_RequestInfoFilter a (au_WithAuditInit a (au_WithAudit a h))"

definition WithUnauthorized :: "auditor \<Rightarrow> handler \<Rightarrow> handler" where
  "WithUnauthorized a h = au_RequestInfoFilter a (au_WithAuditInit a (au_WithFailedAuthenticationAudit a h))"

text \<open>\<open>funcHandler\<close> and its two constructors; a nil auditor (\<open>None\<close>) leaves the handler unwrapped.\<close>

type_synonym serve_func = "rwriter \<Rightarrow> request \<Rightarrow> world \<Rightarrow> world"

definition funcHandler :: "serve_func \<Rightarrow> handler" where
  "funcHandler f w req s = (None, f w req s)"

definition NewUnauthenticatedHandler :: "auditor option \<Rightarrow> serve_func \<Rightarrow> handler" where
  "NewUnauthenticatedHandler ao f = (case ao of None \<Rightarrow> funcHandler f | Some a \<Rightarrow> WithUnauthorized a (funcHandler f))"

definition NewForbiddenHandler :: "auditor option \<Rightarrow> serve_func \<Rightarrow> handler" where
  "NewForbiddenHandler ao f = (case ao of None \<Rightarrow> funcHandler f | Some a \<Rightarrow> WithRequest a (funcHandler f))"

section \<open>What the proxy relies on of a filter\<close>

definition with_info :: "request_info option \<Rightarrow> request \<Rightarrow> request" where
  "with_info ri req = req\<lparr>Ctx := (Ctx req)\<lparr>requestInfoKey := ri\<rparr>\<rparr>"

text \<open>Only audit events and response headers differ.\<close>

definition audit_only :: "world \<Rightarrow> world \<Rightarrow> bool" where
  "audit_only s s' = (\<exists>a h. s' = s\<lparr>w_audit := a, w_respHeader := h\<rparr>)"

definition transparent :: "(handler \<Rightarrow> handler) \<Rightarrow> bool" where
  "transparent F = (\<forall>h w req s. \<exists>ri s1 r s2 s3.
     audit_only s s1 \<and> h w (with_info ri req) s1 = (r, s2) \<and> audit_only s2 s3 \<and> F h w req s = (r, s3))"

definition transparent_audit :: "auditor \<Rightarrow> bool" where
  "transparent_audit a = (transparent (au_RequestInfoFilter a) \<and> transparent (au_WithAudit a) \<and>
     transparent (au_WithAuditInit a) \<and> transparent (au_WithFailedAuthenticationAudit a))"

lemma audit_only_refl [simp]: "audit_only s s"
  unfolding audit_only_def by (rule exI [of _ "w_audit s"], rule exI [of _ "w_respHeader s"]) simp

lemma audit_only_trans [trans]: "audit_only s s' \<Longrightarrow> audit_only s' s'' \<Longrightarrow> audit_only s s''"
  unfolding audit_only_def by (elim exE) (simp, blast)

lemma audit_only_fields:
  assumes "audit_only s s'"
  shows "decided s' = decided s" "t_log s' = t_log s" "t_met s' = t_met s" "w_wire s' = w_wire s"
    "rs_termination s' = rs_termination s" "w_limiter s' = w_limiter s" "w_conn s' = w_conn s"
    "rec_status s' = rec_status s" "rec_bytes s' = rec_bytes s" "rec_wrote s' = rec_wrote s"
    "rec_hijacked s' = rec_hijacked s" "rec_established s' = rec_established s"
  using assms by (auto simp: audit_only_def)

lemma with_info_twice [simp]: "with_info ri (with_info ri' req) = with_info ri req"
  by (simp add: with_info_def)

lemma transparentE:
  assumes "transparent F"
  obtains ri s1 r s2 s3 where "audit_only s s1" "h w (with_info ri req) s1 = (r, s2)" "audit_only s2 s3" "F h w req s = (r, s3)"
  using assms unfolding transparent_def by blast

text \<open>
  A client of a filter: a relation between the state a request arrives in and what serving it gives,
  insensitive to audit events, holds of the filtered handler when it holds of the handler.
\<close>

lemma transparent_lift:
  assumes F: "transparent F"
    and inner: "\<And>ri s1 r s2. h w (with_info ri req) s1 = (r, s2) \<Longrightarrow> audit_only s s1 \<Longrightarrow> R s1 r s2"
    and entry: "\<And>s1 r s2. audit_only s s1 \<Longrightarrow> R s1 r s2 \<Longrightarrow> R s r s2"
    and leave: "\<And>r s2 s3. R s r s2 \<Longrightarrow> audit_only s2 s3 \<Longrightarrow> R s r s3"
  shows "R s (fst (F h w req s)) (snd (F h w req s))"
proof -
  obtain ri s1 r s2 s3 where *: "audit_only s s1" "h w (with_info ri req) s1 = (r, s2)" "audit_only s2 s3"
    "F h w req s = (r, s3)"
    using transparentE [OF F] .
  have "R s r s3" using inner [OF *(2) *(1)] entry [OF *(1)] leave *(3) by blast
  then show ?thesis using *(4) by simp
qed

lemma transparent_comp:
  assumes "transparent F" "transparent G"
  shows "transparent (F \<circ> G)"
  unfolding transparent_def
proof (intro allI)
  fix h w req s
  obtain ri s1 r s2 s3 where 1: "audit_only s s1" "G h w (with_info ri req) s1 = (r, s2)" "audit_only s2 s3"
    "F (G h) w req s = (r, s3)"
    using transparentE [OF assms(1), of s "G h" w req] .
  obtain ri' s1' r' s2' s3' where 2: "audit_only s1 s1'" "h w (with_info ri' (with_info ri req)) s1' = (r', s2')"
    "audit_only s2' s3'" "G h w (with_info ri req) s1 = (r', s3')"
    using transparentE [OF assms(2), of s1 h w "with_info ri req"] .
  have "r = r'" "s2 = s3'" using 1(2) 2(4) by simp_all
  then have "audit_only s s1' \<and> h w (with_info ri' req) s1' = (r, s2') \<and> audit_only s2' s3 \<and> (F \<circ> G) h w req s = (r, s3)"
    using 1 2 audit_only_trans by auto
  then show "\<exists>ri s1 r s2 s3. audit_only s s1 \<and> h w (with_info ri req) s1 = (r, s2) \<and> audit_only s2 s3 \<and>
      (F \<circ> G) h w req s = (r, s3)" by blast
qed

text \<open>The two chains the proxy builds are transparent.\<close>

lemma transparent_chains:
  assumes "transparent_audit a"
  shows "transparent (WithRequestInfo a)" "transparent (WithRequest a)" "transparent (WithUnauthorized a)"
proof -
  have eq: "WithRequest a = au_RequestInfoFilter a \<circ> (au_WithAuditInit a \<circ> au_WithAudit a)"
    "WithUnauthorized a = au_RequestInfoFilter a \<circ> (au_WithAuditInit a \<circ> au_WithFailedAuthenticationAudit a)"
    "WithRequestInfo a = au_RequestInfoFilter a"
    by (simp_all add: WithRequest_def WithUnauthorized_def WithRequestInfo_def fun_eq_iff)
  show "transparent (WithRequestInfo a)" "transparent (WithRequest a)" "transparent (WithUnauthorized a)"
    using assms unfolding eq transparent_audit_def by (blast intro: transparent_comp)+
qed

end
