(* ===== verification/Lifecycle.thy ===== *)
theory Lifecycle
  imports AuditChain
begin

text \<open>
  The lifecycle filter of \<^verbatim>\<open>pkg/proxy/lifecycle.go\<close>: \<open>withRequestLifecycle\<close> installs the two holders and
  the recorder, counts the request, serves it, and in its deferred function classifies how the request
  ended, writes the terminal record and releases the gauges, whether or not the handler panicked.

  \<open>ctxErr\<close> is what \<open>ctx.Err()\<close> answers when the handler is done. The theorem: for a handler that writes
  only through the recorder, the gauges are balanced, the terminal record and the terminal
  observation are written exactly once with the same status and termination, and the panic is passed
  on.
\<close>

definition isAbortHandler :: "panic \<Rightarrow> bool" where
  "isAbortHandler p = (case p of PanicError e \<Rightarrow> err_is e ErrAbortHandler | PanicValue _ \<Rightarrow> False)"

text \<open>The switch of the deferred function.\<close>

definition termination_of :: "panic option \<Rightarrow> bool \<Rightarrow> err option \<Rightarrow> string \<Rightarrow> string" where
  "termination_of panicked hijacked ctxErr classified =
     (if (case panicked of Some p \<Rightarrow> \<not> isAbortHandler p | None \<Rightarrow> False) then ''panic''
      else if hijacked then ''hijacked''
      else if ctxErr \<noteq> None then ''client_cancel''
      else if panicked \<noteq> None then ''upstream_reset''
      else if classified \<noteq> [] then classified
      else ''normal'')"

text \<open>The status of the terminal record.\<close>

definition final_status :: "panic option \<Rightarrow> world \<Rightarrow> int" where
  "final_status panicked s =
     (if \<not> rec_wrote s \<and> \<not> rec_hijacked s \<and> panicked = None then 200 else rec_status s)"

definition terminal_attrs :: "int \<Rightarrow> int \<Rightarrow> string \<Rightarrow> string \<times> string \<Rightarrow> world \<Rightarrow> attr list" where
  "terminal_attrs start status term classified s =
     [(''http_status'', AInt status), (''duration_ms'', AInt (ms_since start s)), (''termination'', AStr term)] @
     (if \<not> rec_hijacked s then [(''response_bytes'', AInt (rec_bytes s))] else []) @
     (if term = fst classified \<and> snd classified \<noteq> [] then [(''reason'', AStr (snd classified))] else [])"

definition new_responseRecorder :: "world \<Rightarrow> world" where
  "new_responseRecorder s = s\<lparr>rec_status := 0, rec_bytes := 0, rec_wrote := False, rec_hijacked := False,
     rec_established := False\<rparr>"

definition lifecycle_defer :: "recorder \<Rightarrow> (world \<Rightarrow> err option) \<Rightarrow> life \<Rightarrow> request \<Rightarrow> panic option \<Rightarrow> world \<Rightarrow> world" where
  "lifecycle_defer r ctxErr lf req panicked s =
     (let classified = TerminationFrom req s;
          term = termination_of panicked (rec_hijacked s) (ctxErr s) (fst classified);
          status = final_status panicked s;
          s1 = Emit (lf_rid lf) (lf_logger lf) EventRequestResponseCompleted
                 (terminal_attrs (lf_start lf) status term classified s) s in
      RequestFinished r
        \<lparr>o_Verb = lf_verb lf, o_Scope = lf_scope lf, o_Status = status, o_Termination = term,
         o_Duration = t_now s1 - lf_start lf, o_LongRunning = lf_longRunning lf,
         o_Established = rec_established s1, o_Hijacked = rec_hijacked s1\<rparr> s1)"

definition lifecycle_entry :: "auditor \<Rightarrow> recorder \<Rightarrow> request \<Rightarrow> world \<Rightarrow> life \<times> request \<times> world" where
  "lifecycle_entry a r req0 s0 =
     (let start = t_now s0;
          (req1, s1) = WithTerminationHolder req0 s0;
          (req, s2) = WithDecisionHolder req1 s1;
          info = requestInfoKey (Ctx req);
          lf = \<lparr>lf_rid = RequestIDFrom req, lf_logger = FromContext req, lf_start = start,
                lf_verb = VerbFor info, lf_scope = ScopeFor info, lf_longRunning = IsLongRunning a req,
                lf_metrics = r\<rparr> in
      (lf, req, RequestStarted r (new_responseRecorder s2)))"

definition withRequestLifecycle :: "auditor \<Rightarrow> recorder \<Rightarrow> (world \<Rightarrow> err option) \<Rightarrow> handler \<Rightarrow> handler" where
  "withRequestLifecycle a r ctxErr next w req0 s0 =
     (let (lf, req, s) = lifecycle_entry a r req0 s0;
          (panicked, s') = next (Rec lf) req s in
      (panicked, lifecycle_defer r ctxErr lf req panicked s'))"

section \<open>Exactly one terminal record and one observation\<close>

definition ops_of :: "string \<Rightarrow> metric_op list \<Rightarrow> metric_op list" where
  "ops_of n ops = filter (\<lambda>op. family op = n) ops"

lemma ops_of_append [simp]: "ops_of n (a @ b) = ops_of n a @ ops_of n b"
  by (simp add: ops_of_def)

text \<open>
  What a handler leaves to the lifecycle filter: the terminal record, the request totals and the
  in-flight gauge are not its to write, and it uses the long-running gauge through the recorder only.
\<close>

definition long_labels :: "life \<Rightarrow> string list" where
  "long_labels lf = [projectVerb (lf_verb lf), projectScope (lf_scope lf)]"

definition long_net :: "life \<Rightarrow> string list \<Rightarrow> world \<Rightarrow> int" where
  "long_net lf ls s = gauge nameLongRunningRequests ls s - (if ls = long_labels lf \<and> rec_established s then 1 else 0)"

definition steady :: "life \<Rightarrow> world \<Rightarrow> world \<Rightarrow> bool" where
  "steady lf s s' =
     (records_of EventRequestResponseCompleted (t_log s') = records_of EventRequestResponseCompleted (t_log s) \<and>
      ops_of nameRequestsTotal (t_met s') = ops_of nameRequestsTotal (t_met s) \<and>
      ops_of nameRequestsInFlight (t_met s') = ops_of nameRequestsInFlight (t_met s) \<and>
      (lf_metrics lf = Recorder \<longrightarrow>
         (\<forall>ls. long_net lf ls s' = long_net lf ls s)) \<and>
      (rec_established s \<longrightarrow> rec_established s'))"

lemma steady_refl [simp]: "steady lf s s"
  by (simp add: steady_def)

lemma steady_trans [trans]: "steady lf s s' \<Longrightarrow> steady lf s' s'' \<Longrightarrow> steady lf s s''"
  by (auto simp: steady_def)

lemma fold_gauge_ops_of: "fold (gauge_step n ls) (ops_of n ops) v = fold (gauge_step n ls) ops v"
proof (induction ops arbitrary: v)
  case (Cons op ops)
  then show ?case by (cases op) (auto simp: ops_of_def)
qed (simp add: ops_of_def)

lemma gauge_ops_of: "ops_of n (t_met s) = ops_of n (t_met s') \<Longrightarrow> gauge n ls s = gauge n ls s'"
  unfolding gauge_def by (metis fold_gauge_ops_of)

lemma lifecycle_entry_eq:
  assumes "lifecycle_entry a r req0 s0 = (lf, req, s)"
  shows "lf_metrics lf = r" "t_log s = t_log s0" "t_met s = t_met (RequestStarted r s0)"
    "decisionKey (Ctx req)" "terminationKey (Ctx req)" "lf_logger lf = FromContext req0" "lf_rid lf = RequestIDFrom req0"
    "\<not> rec_wrote s" "rec_bytes s = 0" "\<not> rec_hijacked s" "\<not> rec_established s"
    "w_upstream s = w_upstream s0" "\<not> rs_recorded s"
  using assms
  by (auto simp: lifecycle_entry_def Let_def WithTerminationHolder_def WithDecisionHolder_def RequestStarted_def
      new_responseRecorder_def frame FromContext_def RequestIDFrom_def)

lemma family_simps [simp]: "ops_of n [] = []" "ops_of n (op # ops) = (if family op = n then [op] else []) @ ops_of n ops"
  by (simp_all add: ops_of_def)

lemma lifecycle_defer_ops:
  "t_met (lifecycle_defer Recorder ctxErr lf req p s) = t_met s @ [MDec nameRequestsInFlight []] @
     (if rec_established s then [MDec nameLongRunningRequests (long_labels lf)] else []) @
     [MInc nameRequestsTotal (long_labels lf @ [CodeFor (final_status p s),
        projectTermination (termination_of p (rec_hijacked s) (ctxErr s) (fst (TerminationFrom req s)))])] @
     (if \<not> lf_longRunning lf \<and> \<not> rec_hijacked s
      then [MObserve nameRequestDuration (long_labels lf) (t_now s - lf_start lf)] else [])"
  by (simp add: lifecycle_defer_def Let_def RequestFinished_def long_labels_def frame)

lemma lifecycle_defer_log:
  "t_log (lifecycle_defer r ctxErr lf req p s) =
     t_log (Emit (lf_rid lf) (lf_logger lf) EventRequestResponseCompleted
       (terminal_attrs (lf_start lf) (final_status p s)
          (termination_of p (rec_hijacked s) (ctxErr s) (fst (TerminationFrom req s))) (TerminationFrom req s) s) s)"
  by (simp add: lifecycle_defer_def Let_def RequestFinished_def frame)

lemma names_distinct:
  "nameRequestDuration \<noteq> nameRequestsInFlight" "nameRequestDuration \<noteq> nameLongRunningRequests"
  "nameRequestDuration \<noteq> nameRequestsTotal" "nameRequestsInFlight \<noteq> nameRequestDuration"
  "nameLongRunningRequests \<noteq> nameRequestDuration" "nameRequestsTotal \<noteq> nameRequestDuration"
  by (simp_all add: metric_names)

lemmas gauge_names = in_flight_names in_flight_names [symmetric] names_distinct

lemma steady_gauge:
  assumes "steady lf s s'" "lf_metrics lf = Recorder" "\<not> rec_established s"
  shows "gauge nameLongRunningRequests ls s' =
     gauge nameLongRunningRequests ls s + (if ls = long_labels lf \<and> rec_established s' then 1 else 0)"
proof -
  have "long_net lf ls s' = long_net lf ls s" using assms by (simp add: steady_def)
  then show ?thesis using assms(3) by (simp add: long_net_def)
qed

text \<open>
  The balance of a request: gauges back where they were, one terminal record, one observation of the
  same status and termination. For any handler that leaves those to the filter, panicking or not.
\<close>

lemma lifecycle_balanced:
  assumes entry: "lifecycle_entry a Recorder req0 s0 = (lf, req, s)"
    and run: "next (Rec lf) req s = (p, s1)" and st: "steady lf s s1"
    and out: "withRequestLifecycle a Recorder ctxErr next w req0 s0 = (p', s')"
    and on: "emits (FromContext req0) EventRequestResponseCompleted"
  shows "p' = p \<and>
    gauge nameRequestsInFlight [] s' = gauge nameRequestsInFlight [] s0 \<and>
    (\<forall>ls. gauge nameLongRunningRequests ls s' = gauge nameLongRunningRequests ls s0) \<and>
    (\<exists>rec status term. records_of EventRequestResponseCompleted (t_log s') =
         records_of EventRequestResponseCompleted (t_log s0) @ [rec] \<and>
       map_of (lr_attrs rec) ''http_status'' = Some (AInt status) \<and>
       map_of (lr_attrs rec) ''termination'' = Some (AStr term) \<and>
       ops_of nameRequestsTotal (t_met s') = ops_of nameRequestsTotal (t_met s0) @
         [MInc nameRequestsTotal (long_labels lf @ [CodeFor status, projectTermination term])])"
proof -
  note e = lifecycle_entry_eq [OF entry]
  have s': "s' = lifecycle_defer Recorder ctxErr lf req p s1" "p' = p"
    using out entry run by (auto simp: withRequestLifecycle_def Let_def)
  note ops = lifecycle_defer_ops [of ctxErr lf req p s1, folded s'(1)]
  have met0: "t_met s = t_met s0 @ [MInc nameRequestsInFlight []]" using e(3) by (simp add: RequestStarted_def)
  have infl: "ops_of nameRequestsInFlight (t_met s') = ops_of nameRequestsInFlight (t_met s0) @
      [MInc nameRequestsInFlight [], MDec nameRequestsInFlight []]"
    using st unfolding steady_def by (simp add: ops met0 gauge_names)
  have "gauge nameRequestsInFlight [] s' = gauge nameRequestsInFlight [] s0"
  proof -
    have "gauge nameRequestsInFlight [] x = fold (gauge_step nameRequestsInFlight []) (ops_of nameRequestsInFlight (t_met x)) 0"
      for x :: world
      by (simp add: gauge_def fold_gauge_ops_of)
    then show ?thesis using infl by simp
  qed
  moreover have "gauge nameLongRunningRequests ls s' = gauge nameLongRunningRequests ls s0" for ls
  proof -
    have "gauge nameLongRunningRequests ls s = gauge nameLongRunningRequests ls s0"
      by (simp add: gauge_def met0 gauge_names)
    moreover have "gauge nameLongRunningRequests ls s' =
        gauge nameLongRunningRequests ls s1 - (if ls = long_labels lf \<and> rec_established s1 then 1 else 0)"
      by (simp add: gauge_def ops gauge_names)
    ultimately show ?thesis using steady_gauge [OF st e(1,11), of ls] by simp
  qed
  moreover have "ops_of nameRequestsTotal (t_met s') = ops_of nameRequestsTotal (t_met s0) @
      [MInc nameRequestsTotal (long_labels lf @ [CodeFor (final_status p s1),
        projectTermination (termination_of p (rec_hijacked s1) (ctxErr s1) (fst (TerminationFrom req s1)))])]"
    using st unfolding steady_def by (simp add: ops met0 gauge_names)
  moreover have "\<exists>rec. records_of EventRequestResponseCompleted (t_log s') =
         records_of EventRequestResponseCompleted (t_log s0) @ [rec] \<and>
       map_of (lr_attrs rec) ''http_status'' = Some (AInt (final_status p s1)) \<and>
       map_of (lr_attrs rec) ''termination'' =
         Some (AStr (termination_of p (rec_hijacked s1) (ctxErr s1) (fst (TerminationFrom req s1))))"
  proof -
    have "records_of EventRequestResponseCompleted (t_log s1) = records_of EventRequestResponseCompleted (t_log s0)"
      using st e(2) by (simp add: steady_def)
    moreover obtain f c where "FromContext req0 = ForComponent f c"
      using on by (cases "FromContext req0") (simp_all add: emits_def)
    ultimately show ?thesis
      unfolding s'(1) lifecycle_defer_log records_of_Emit e(6)
      using on by (simp add: t_log_Emit terminal_attrs_def withContextRequestID_def)
  qed
  ultimately show ?thesis using s'(2) by blast
qed

text \<open>The classification of how a request ended, and that it stays inside the vocabulary of the metric.\<close>

lemma termination_of_known:
  assumes "classified = [] \<or> classified \<in> {''upstream_timeout'', ''upstream_reset'', ''proxy_error''}"
  shows "projectTermination (termination_of p h c classified) = termination_of p h c classified"
  using assms by (auto simp: termination_of_def projectTermination_def all_terminations_def)

text \<open>
  The terminal record never claims a response that was not sent: status 0 is reported only when
  the connection was hijacked or the handler panicked before a status went out, and a request is
  classified as a panic exactly when the handler panicked with something other than the abort
  sentinel, as hijacked only when it took the connection over.
\<close>

theorem termination_classification:
  "(termination_of p h c cl = ''panic'' \<longleftrightarrow> (\<exists>v. p = Some v \<and> \<not> isAbortHandler v) \<or>
      (p = None \<and> \<not> h \<and> c = None \<and> cl = ''panic'')) \<and>
   (h \<and> (\<forall>v. p = Some v \<longrightarrow> isAbortHandler v) \<longrightarrow> termination_of p h c cl = ''hijacked'') \<and>
   (termination_of p h c cl = ''normal'' \<longrightarrow> p = None \<and> \<not> h \<and> c = None) \<and>
   (\<not> h \<and> c = None \<and> (\<exists>v. p = Some v \<and> isAbortHandler v) \<longrightarrow> termination_of p h c cl = ''upstream_reset'') \<and>
   (rec_wrote s \<longrightarrow> final_status p s = rec_status s) \<and>
   (p = None \<and> \<not> rec_wrote s \<and> \<not> rec_hijacked s \<longrightarrow> final_status p s = 200)"
  by (auto simp: termination_of_def final_status_def split: option.splits)

theorem termination_classification_witness:
  "termination_of (Some (PanicError (Sentinel ErrAbortHandler))) False None [] = ''upstream_reset''"
  using termination_classification [of "Some (PanicError (Sentinel ErrAbortHandler))" False None "[]" demo_world]
  by (simp add: isAbortHandler_def)

end
