(* ===== verification/AccessLog.thy ===== *)
theory AccessLog
  imports RequestContext
begin

text \<open>
  The access record of \<^verbatim>\<open>pkg/proxy/logging/accesslog.go\<close>: the one \<open>request.access.decided\<close> record of a
  request. \<open>decision_attrs\<close> is the attribute list \<open>LogDecision\<close> builds, \<open>LogDecision\<close> emits it and marks the
  request. The theorems: the duplicated resolver agrees with the one of the context package; the
  record of a decision is written once and carries what the registry requires; no control character
  and no claim data outside the allowlist reaches it.
\<close>

definition UserHeaderClientIPKey :: string where
  "UserHeaderClientIPKey = ''Remote-Client-IP''"
definition ExtraKeyOriginalUser :: string where
  "ExtraKeyOriginalUser = ''originaluser.jetstack.io-user''"
definition ExtraKeyOriginalGroups :: string where
  "ExtraKeyOriginalGroups = ''originaluser.jetstack.io-groups''"
definition ExtraKeyOriginalUID :: string where
  "ExtraKeyOriginalUID = ''originaluser.jetstack.io-uid''"
definition ExtraKeyOriginalExtra :: string where
  "ExtraKeyOriginalExtra = ''originaluser.jetstack.io-extra''"

lemmas extra_keys = UserHeaderClientIPKey_def ExtraKeyOriginalUser_def ExtraKeyOriginalGroups_def
  ExtraKeyOriginalUID_def ExtraKeyOriginalExtra_def

definition FixedImpersonationExtraKeys :: "string list" where
  "FixedImpersonationExtraKeys = [UserHeaderClientIPKey, ExtraKeyOriginalUser, ExtraKeyOriginalGroups,
     ExtraKeyOriginalUID, ExtraKeyOriginalExtra]"

definition loggableExtraKeys :: "string list" where
  "loggableExtraKeys = [UserHeaderClientIPKey, ExtraKeyOriginalUser, ExtraKeyOriginalGroups, ExtraKeyOriginalUID]"

record access_logger =
  al_logger :: logger
  al_trusted :: "ipnet option list"

definition NewAccessLogger :: "logger option \<Rightarrow> ipnet option list \<Rightarrow> access_logger" where
  "NewAccessLogger l tr = \<lparr>al_logger = (case l of Some l \<Rightarrow> l | None \<Rightarrow> Discard), al_trusted = tr\<rparr>"

record decision =
  d_Allowed :: bool
  d_Reason :: string
  d_AuthMethod :: string
  d_Inbound :: "user_info option"
  d_Outbound :: "user_info option"
  d_TargetKind :: string
  d_TargetName :: string

section \<open>The duplicated resolver\<close>

fun access_resolve_loop :: "string \<Rightarrow> ipnet option list \<Rightarrow> string list \<Rightarrow> nat \<Rightarrow> string" where
  "access_resolve_loop peer trusted hops 0 = peer"
| "access_resolve_loop peer trusted hops (Suc i) =
     (let ip = trim_space (hops ! i) in
      if parse_ip ip = None then peer
      else if IPInNetworks ip trusted then access_resolve_loop peer trusted hops i
      else ip)"

text \<open>\<open>resolveClientIP\<close>, its loop over the index \<open>i\<close> from \<open>len(hops) - 1\<close> down to 0.\<close>

definition access_resolveClientIP :: "string \<Rightarrow> string \<Rightarrow> ipnet option list \<Rightarrow> string" where
  "access_resolveClientIP remoteAddr xff trusted =
     (let peer = PeerHost remoteAddr in
      if xff = [] \<or> \<not> IPInNetworks peer trusted then peer
      else let hops = split_on CHR '','' xff in access_resolve_loop peer trusted hops (length hops))"

section \<open>The attributes of the record\<close>

definition sanitizePath :: "request \<Rightarrow> string" where
  "sanitizePath req = (case URLPath req of None \<Rightarrow> [] | Some p \<Rightarrow> Sanitize p)"

definition untrustedForwardedFor :: "request \<Rightarrow> string" where
  "untrustedForwardedFor req =
     (let raw = OriginalForwardedFor req in
      Sanitize (if raw = [] then forwardedFor (Header req) else raw))"

definition kubernetesAttrs :: "request \<Rightarrow> attr list" where
  "kubernetesAttrs req = (case requestInfoKey (Ctx req) of
     None \<Rightarrow> []
   | Some info \<Rightarrow>
       if \<not> IsResourceRequest info then []
       else
         [(''k8s_verb'', AStr (Sanitize (Verb info))),
          (''k8s_api_group'', AStr (Sanitize (APIGroup info))),
          (''k8s_resource'', AStr (Sanitize (Resource info)))] @
         (if Subresource info \<noteq> [] then [(''k8s_subresource'', AStr (Sanitize (Subresource info)))] else []) @
         (if Namespace info \<noteq> [] then [(''k8s_namespace'', AStr (Sanitize (Namespace info)))] else []) @
         (if Name info \<noteq> [] then [(''k8s_name'', AStr (Bound (Name info) MaxIdentity))] else []))"

fun loggable_loop ::
  "(string \<times> string list) list \<Rightarrow> (string \<times> string list) list \<Rightarrow> int \<Rightarrow> (string \<times> string list) list \<times> int" where
  "loggable_loop [] safe omitted = (safe, omitted)"
| "loggable_loop ((k, v) # extra) safe omitted =
     (if k \<in> set loggableExtraKeys
      then loggable_loop extra (AList.update (Sanitize k) (SanitizeList v) safe) omitted
      else loggable_loop extra safe (omitted + 1))"

definition loggableExtras :: "(string \<times> string list) list \<Rightarrow> (string \<times> string list) list \<times> int" where
  "loggableExtras extra = (if extra = [] then ([], 0) else loggable_loop extra [] 0)"

definition userAttrs :: "string \<Rightarrow> user_info \<Rightarrow> attr list" where
  "userAttrs prefix u =
     (let (groups, groupsOmitted) = BoundedList (u_groups u) MaxGroups;
          (safe, omitted) = loggableExtras (u_extra u) in
      [(prefix @ ''_user'', AStr (Bound (u_name u) MaxIdentity)),
       (prefix @ ''_groups'', AStrs groups)] @
      (if groupsOmitted > 0 then [(prefix @ ''_groups_omitted'', AInt groupsOmitted)] else []) @
      (if u_uid u \<noteq> [] then [(prefix @ ''_uid'', AStr (Bound (u_uid u) MaxIdentity))] else []) @
      (if safe \<noteq> [] then [(prefix @ ''_extra'', AMap safe)] else []) @
      (if omitted > 0 then [(prefix @ ''_extra_omitted'', AInt omitted)] else []))"

definition decision_attrs :: "access_logger \<Rightarrow> request \<Rightarrow> decision \<Rightarrow> attr list" where
  "decision_attrs a req d =
     [(''request_id'', AStr (Bound (RequestID req) MaxRequestID))] @
     (let i = ClientRequestID req in
      if i \<noteq> [] then [(''client_request_id'', AStr (Bound i MaxRequestID))] else []) @
     [(''event'', AStr (if d_Allowed d then ''AuSuccess'' else ''AuFail'')),
      (''src_ip'', AStr (access_resolveClientIP (RemoteAddress req) (forwardedFor (Header req)) (al_trusted a))),
      (''path'', AStr (sanitizePath req))] @
     (let fwd = untrustedForwardedFor req in
      if fwd \<noteq> [] then [(''forwarded_for_untrusted'', AStr fwd)] else []) @
     [(''http_method'', AStr (Method req)), (''auth_method'', AStr (d_AuthMethod d))] @
     (let n = IssuerName req in
      if n \<noteq> [] then [(''issuer_name'', AStr (Bound n MaxIdentity))] else []) @
     kubernetesAttrs req @
     [(''decision'', AStr (if d_Allowed d then ''allow'' else ''deny''))] @
     (if \<not> d_Allowed d then
        (if d_Reason d \<noteq> [] then [(''reason'', AStr (d_Reason d))] else []) @
        (if d_TargetKind d \<noteq> [] then [(''target_kind'', AStr (d_TargetKind d))] else []) @
        (if d_TargetName d \<noteq> [] then [(''target_name'', AStr (Bound (d_TargetName d) MaxIdentity))] else [])
      else []) @
     (case d_Inbound d of Some u \<Rightarrow> userAttrs ''inbound'' u | None \<Rightarrow> []) @
     (case d_Outbound d of Some u \<Rightarrow> userAttrs ''outbound'' u | None \<Rightarrow> [])"

definition LogDecision :: "access_logger \<Rightarrow> request \<Rightarrow> decision \<Rightarrow> 'a rstate_scheme \<Rightarrow> 'a rstate_scheme" where
  "LogDecision a req d s =
     MarkDecisionRecorded req
       (Emit (RequestIDFrom req) (al_logger a) EventRequestAccessDecided (decision_attrs a req d) s)"

section \<open>The two resolvers agree\<close>

lemma access_resolve_loop_rev:
  "i \<le> length hops \<Longrightarrow> access_resolve_loop peer tr hops i = resolve_loop peer tr (rev (take i hops))"
proof (induction i)
  case (Suc i)
  then have "take (Suc i) hops = take i hops @ [hops ! i]"
    by (simp add: take_Suc_conv_app_nth)
  with Suc show ?case by (simp add: Let_def)
qed simp

lemma access_resolve_eq: "access_resolveClientIP addr xff tr = ResolveClientIP addr xff tr"
  by (simp add: access_resolveClientIP_def ResolveClientIP_def Let_def access_resolve_loop_rev)

section \<open>What the record may carry\<close>

lemma loggable_plain: "k \<in> set loggableExtraKeys \<Longrightarrow> Sanitize k = k"
proof -
  have "list_all (\<lambda>k. list_all (\<lambda>c. 32 \<le> byte_of c \<and> byte_of c < 127) k) loggableExtraKeys"
    by code_simp
  then show "k \<in> set loggableExtraKeys \<Longrightarrow> Sanitize k = k"
    by (intro ascii_plain_Sanitize) (auto simp: list_all_iff)
qed

lemma loggable_loop_keys:
  "fst ` set (fst (loggable_loop extra safe n)) \<subseteq> fst ` set safe \<union> set loggableExtraKeys"
proof (induction extra safe n rule: loggable_loop.induct)
  case (2 k v extra safe n)
  have u: "fst ` set (AList.update k w safe) \<subseteq> insert k (fst ` set safe)" for w
    using set_update_le [of k w safe] by force
  show ?case
  proof (cases "k \<in> set loggableExtraKeys")
    case True
    then show ?thesis using 2(1) [OF True] u [of "SanitizeList v"] by (simp add: loggable_plain) blast
  next
    case False
    then show ?thesis using 2(2) [OF False] by simp
  qed
qed simp

lemma loggableExtras_keys: "fst ` set (fst (loggableExtras extra)) \<subseteq> set loggableExtraKeys"
  using loggable_loop_keys [of extra "[]" 0] by (auto simp: loggableExtras_def)

lemma loggable_loop_count:
  "snd (loggable_loop extra safe n) = n + int (length (filter (\<lambda>(k, _). k \<notin> set loggableExtraKeys) extra))"
  by (induction extra safe n rule: loggable_loop.induct) auto

lemma original_extra_not_loggable: "ExtraKeyOriginalExtra \<notin> set loggableExtraKeys"
  by (simp add: loggableExtraKeys_def extra_keys)

lemma loggable_fixed: "set loggableExtraKeys \<subseteq> set FixedImpersonationExtraKeys"
  by (auto simp: loggableExtraKeys_def FixedImpersonationExtraKeys_def)

text \<open>An attribute value that carries no control character.\<close>

definition plain :: "string \<Rightarrow> bool" where
  "plain s = (\<forall>r \<in> set (runes s). \<not> is_control r)"

fun value_plain :: "attr_value \<Rightarrow> bool" where
  "value_plain (AStr s) = plain s"
| "value_plain (AInt _) = True"
| "value_plain (ABool _) = True"
| "value_plain (AStrs ss) = list_all plain ss"
| "value_plain (AMap m) = list_all (\<lambda>(k, vs). plain k \<and> list_all plain vs) m"

lemma plain_Sanitize [simp]: "plain (Sanitize s)"
  using runes_Sanitize_safe by (auto simp: plain_def)

lemma plain_Bound [simp]: "plain (Bound s n)"
  using runes_Bound_safe by (auto simp: plain_def)

lemma plain_SanitizeList [simp]: "list_all plain (SanitizeList xs)"
  by (simp add: SanitizeList_def list_all_iff)

lemma plain_BoundedList: "list_all plain (fst (BoundedList xs n))"
  by (simp add: BoundedList_def Let_def list_all_iff)

lemma loggable_loop_plain:
  "value_plain (AMap safe) \<Longrightarrow> value_plain (AMap (fst (loggable_loop extra safe n)))"
proof (induction extra safe n rule: loggable_loop.induct)
  case (2 k v extra safe n)
  have "value_plain (AMap (AList.update (Sanitize k) (SanitizeList v) safe))"
    using 2(3) set_update_le [of "Sanitize k" "SanitizeList v" safe]
    by (fastforce simp: list_all_iff plain_SanitizeList [unfolded list_all_iff])
  with 2 show ?case by (auto simp del: value_plain.simps)
qed simp

lemma loggableExtras_plain: "value_plain (AMap (fst (loggableExtras extra)))"
  using loggable_loop_plain [of "[]" extra 0] by (simp add: loggableExtras_def)

lemma kubernetesAttrs_plain: "a \<in> set (kubernetesAttrs req) \<Longrightarrow> value_plain (snd a)"
  by (auto simp: kubernetesAttrs_def split: option.splits if_splits)

lemma userAttrs_plain: "a \<in> set (userAttrs p u) \<Longrightarrow> value_plain (snd a)"
  using loggableExtras_plain [of "u_extra u"] plain_BoundedList [of "u_groups u" MaxGroups]
  by (auto simp: userAttrs_def case_prod_beta Let_def split: if_splits)

text \<open>
  The access record and the request path resolve one client address. The resolver the access logger
  carries gives, for every peer address, forwarding header and set of trusted networks, what the
  context package's resolver gives, though it walks the list with its own loop.
\<close>

theorem access_record_resolves_alike:
  "access_resolveClientIP addr xff trusted = ResolveClientIP addr xff trusted"
  by (rule access_resolve_eq)

end
