(* ===== verification/Proxy.thy ===== *)
theory Proxy
  imports Lifecycle AccessLog
begin

text \<open>
  The proxy object of \<^verbatim>\<open>pkg/proxy/proxy.go\<close>: its configuration and construction, the recording of
  decisions, the TokenReview step, the round tripper that sends a request to the API server, and the
  issuer attribution of \<^verbatim>\<open>pkg/proxy/issuerattr.go\<close>. The reverse proxy of \<open>net/http/httputil\<close>, which the
  proxy installs itself in, is modelled from the standard library: hop-by-hop headers, the appended
  X-Forwarded-For, upgrades, the copied response and the abort panic. The rewriting of the URL to the
  configured host is left out: the model's request has no host.

  Code outside the repository is in the record \<open>env\<close>: the bearer-token authenticator with the OIDC
  authenticators behind it, the SubjectAccessReview API, the token bucket, the UUID source, the two
  transports to the API server, and what the request context answers at the end.

  The theorems: construction refuses every inconsistent configuration, and the parsed trusted
  networks and reserved-group allowlist are what was configured.
\<close>

section \<open>Configuration and collaborators\<close>

record config =
  DisableImpersonation :: bool
  TokenReviewEnabled :: bool
  AllowedReservedGroups :: "string list"
  FlushInterval :: int
  ExternalAddress :: string
  ExtraUserHeaders :: "(string \<times> string list) list"
  ExtraUserHeadersClientIPEnabled :: bool
  TrustedProxies :: "string list"

text \<open>An \<open>authenticator.Token\<close>: from the request id of its context and a token.\<close>

type_synonym token_authenticator = "string \<Rightarrow> string \<Rightarrow> world \<Rightarrow> auth_result \<times> world"

text \<open>
  What \<open>AuthenticateRequest\<close> gives: the identity, whether it accepted, the error, the issuer name the
  accepting authenticator left in the holder, and the request's headers afterwards.
\<close>

record oidc_answer =
  oa_User :: user_info
  oa_ok :: bool
  oa_err :: "err option"
  oa_issuer :: string
  oa_header :: header

text \<open>
  A response of the API server: informational codes sent ahead of it, the body as the chunks the
  copy loop reads (each with whether the flush policy flushes after it), whether reading it fails,
  and, for an upgrade, whether its body can be written to.
\<close>

record up_response =
  ur_StatusCode :: int
  ur_Header :: header
  ur_Body :: "(nat \<times> bool) list"
  ur_readErr :: bool
  ur_writable :: bool

text \<open>A round trip: how long it took, the informational codes, and the error or the response.\<close>

type_synonym transport = "up_call \<Rightarrow> world \<Rightarrow> nat \<times> int list \<times> (err + up_response)"

record env =
  ev_AuthenticateRequest :: "request \<Rightarrow> world \<Rightarrow> oidc_answer"
  ev_NewUUID :: "nat \<Rightarrow> string"
  ev_bucket :: rate_limiter
  ev_sar :: sar_env
  ev_clientTransport :: transport
  ev_noAuthClientTransport :: "transport option"
  ev_ctxErr :: "world \<Rightarrow> err option"

record proxy =
  p_tokenReviewer :: token_authenticator
  p_subjectAccessReviewer :: sar
  p_auditor :: auditor
  p_config :: config
  p_logger :: logger
  p_oidcLog :: "logger option"
  p_tokenReviewLog :: "logger option"
  p_upstreamLog :: "logger option"
  p_trustedProxies :: "ipnet option list"
  p_allowedReservedGroups :: "string list"
  p_access :: access_logger
  p_metrics :: recorder
  p_hooks :: "world hooks"

definition componentLogger :: "logger option \<Rightarrow> logger" where
  "componentLogger l = (case l of None \<Rightarrow> Discard | Some l \<Rightarrow> l)"

definition reservedIdentityPrefix :: string where
  "reservedIdentityPrefix = ''system:''"

definition AllAuthenticated :: string where
  "AllAuthenticated = ''system:authenticated''"

section \<open>Construction\<close>

definition reserved_not_prefixed :: "string \<Rightarrow> err" where
  "reserved_not_prefixed g = NewError (''allowed reserved group '' @ go_quote g @ '' does not carry the reserved '' @
     go_quote reservedIdentityPrefix @ '' prefix, so listing it has no effect'')"

fun allowed_loop :: "string list \<Rightarrow> string list \<Rightarrow> err + string list" where
  "allowed_loop [] allowed = Inr allowed"
| "allowed_loop (g # gs) allowed =
     (if trim_space g = [] then Inl (NewError ''allowed reserved group must not be empty'')
      else if \<not> has_prefix g reservedIdentityPrefix then Inl (reserved_not_prefixed g)
      else allowed_loop gs (List.insert g allowed))"

definition parseAllowedReservedGroups :: "string list \<Rightarrow> err + string list" where
  "parseAllowedReservedGroups groups = (if groups = [] then Inr [] else allowed_loop groups [])"

fun trusted_loop :: "string list \<Rightarrow> ipnet option list \<Rightarrow> err + ipnet option list" where
  "trusted_loop [] nets = Inr nets"
| "trusted_loop (c0 # cs) nets =
     (let c = trim_space c0 in
      if c = [] then Inl (NewError ''proxy: empty trusted-proxy CIDR'')
      else case parse_cidr c of
        None \<Rightarrow> Inl (Errorf (''proxy: invalid trusted-proxy CIDR '' @ go_quote c @ '': invalid CIDR address: '' @ c)
                   [NewError (''invalid CIDR address: '' @ c)])
      | Some network \<Rightarrow> trusted_loop cs (nets @ [Some network]))"

definition parseTrustedProxies :: "string list \<Rightarrow> err + ipnet option list" where
  "parseTrustedProxies cidrs = (if cidrs = [] then Inr [] else trusted_loop cidrs [])"

definition cloneHeaderMap :: "(string \<times> string list) list \<Rightarrow> (string \<times> string list) list" where
  "cloneHeaderMap m = fold (\<lambda>(k, vs) out. AList.update k vs out) m []"

text \<open>
  \<open>Dependencies\<close>: a nil pointer is \<open>None\<close>; the root logger is its level. \<open>dep_Audit\<close> is the configuration the
  audit options complete to, or why they cannot.
\<close>

record dependencies =
  dep_Logger :: "level option"
  dep_RestConfig :: bool
  dep_TokenAuthenticator :: bool
  dep_Audit :: "err + auditor"
  dep_TokenReviewer :: "token_authenticator option"
  dep_SubjectAccessReviewer :: "sar option"
  dep_SecureServingInfo :: bool
  dep_Config :: "config option"
  dep_Metrics :: recorder

text \<open>The value of an absent reviewer: it is called only when TokenReview is enabled, which \<open>New\<close> refuses without one.\<close>

definition no_reviewer :: token_authenticator where
  "no_reviewer rid token s = ((None, False, Some (NewError ''nil TokenReviewer'')), s)"

definition proxy_New :: "dependencies \<Rightarrow> err + proxy" where
  "proxy_New deps = (case dep_Logger deps of
     None \<Rightarrow> Inl (NewError ''proxy: Logger is required'')
   | Some root \<Rightarrow>
     if \<not> dep_RestConfig deps then Inl (NewError ''proxy: RestConfig is required'')
     else if \<not> dep_TokenAuthenticator deps then Inl (NewError ''proxy: TokenAuthenticator is required'')
     else case dep_SubjectAccessReviewer deps of
       None \<Rightarrow> Inl (NewError ''proxy: SubjectAccessReviewer is required'')
     | Some sr \<Rightarrow>
       if \<not> dep_SecureServingInfo deps then Inl (NewError ''proxy: SecureServingInfo is required'')
       else case dep_Config deps of
         None \<Rightarrow> Inl (NewError ''proxy: Config is required'')
       | Some cfg0 \<Rightarrow>
         if TokenReviewEnabled cfg0 \<and> dep_TokenReviewer deps = None
         then Inl (NewError ''proxy: TokenReview enabled but no TokenReviewer provided'')
         else
           let cfg = cfg0\<lparr>ExtraUserHeaders := cloneHeaderMap (ExtraUserHeaders cfg0)\<rparr> in
           case parseTrustedProxies (TrustedProxies cfg) of
             Inl e \<Rightarrow> Inl e
           | Inr trusted \<Rightarrow>
             case parseAllowedReservedGroups (AllowedReservedGroups cfg) of
               Inl e \<Rightarrow> Inl e
             | Inr allowed \<Rightarrow>
               case audit_New (dep_Audit deps) (Some (ForComponent root ComponentAudit)) of
                 Inl e \<Rightarrow> Inl e
               | Inr auditor \<Rightarrow>
                 let requestLogger = ForComponent root ComponentRequest in
                 Inr \<lparr>p_tokenReviewer = (case dep_TokenReviewer deps of Some r \<Rightarrow> r | None \<Rightarrow> no_reviewer),
                   p_subjectAccessReviewer = sr,
                   p_auditor = audit_WithMetrics (dep_Metrics deps) auditor,
                   p_config = cfg, p_logger = requestLogger,
                   p_oidcLog = Some (ForComponent root ComponentOIDC),
                   p_tokenReviewLog = Some (ForComponent root ComponentTokenReview),
                   p_upstreamLog = Some (ForComponent root ComponentUpstream),
                   p_trustedProxies = trusted, p_allowedReservedGroups = allowed,
                   p_access = NewAccessLogger (Some requestLogger) trusted,
                   p_metrics = dep_Metrics deps,
                   p_hooks = hooks_New (Some (ForComponent root ComponentShutdown))\<rparr>)"

section \<open>Issuer attribution\<close>

text \<open>
  The holder a context carries: \<open>None\<close> when the context has none, otherwise the name written so far. A
  per-issuer authenticator is outside code; the wrapper names the issuer on acceptance.
\<close>

type_synonym holder = "string option"

definition withIssuerHolder :: holder where
  "withIssuerHolder = Some []"

definition setIssuerName :: "string \<Rightarrow> holder \<Rightarrow> holder" where
  "setIssuerName name h = (case h of Some _ \<Rightarrow> Some name | None \<Rightarrow> None)"

definition namedIssuer_AuthenticateToken ::
  "string \<Rightarrow> (string \<Rightarrow> holder \<Rightarrow> auth_result \<times> holder) \<Rightarrow> string \<Rightarrow> holder \<Rightarrow> auth_result \<times> holder" where
  "namedIssuer_AuthenticateToken name inner token h =
     (let ((resp, ok, er), h1) = inner token h in
      ((resp, ok, er), if ok \<and> er = None then setIssuerName name h1 else h1))"

section \<open>Decisions, the TokenReview step and the round tripper\<close>

definition authMethodFrom :: "request \<Rightarrow> string" where
  "authMethodFrom req = (let m = str_value (authMethodKey (Ctx req)) in if m = [] then ''none'' else m)"

definition recordDecision :: "proxy \<Rightarrow> request \<Rightarrow> decision \<Rightarrow> world \<Rightarrow> world" where
  "recordDecision p req d s =
     AccessDecision (p_metrics p) (d_AuthMethod d) (d_Allowed d) (d_Reason d) (LogDecision (p_access p) req d s)"

definition reviewToken :: "proxy \<Rightarrow> request \<Rightarrow> world \<Rightarrow> bool \<times> world" where
  "reviewToken p req s = (case ParseFromRequest (Header req) of
     None \<Rightarrow>
       (False, AuthenticationAttempt (p_metrics p) ''tokenreview'' ''rejected''
          (Emit (RequestIDFrom req) (componentLogger (p_tokenReviewLog p)) EventAuthnTokenMissing [] s))
   | Some bearer \<Rightarrow>
       let ((_, ok, er), s1) = p_tokenReviewer p (RequestIDFrom req) bearer s in
       case er of
         Some e \<Rightarrow>
           (False, AuthenticationAttempt (p_metrics p) ''tokenreview'' ''error''
              (Emit (RequestIDFrom req) (componentLogger (p_tokenReviewLog p)) EventAuthnTokenReviewFailed
                 [(''reason'', AStr ''authentication_dependency_error''), ErrAttr (Some e)] s1))
       | None \<Rightarrow>
           (ok, AuthenticationAttempt (p_metrics p) ''tokenreview'' (if ok then ''accepted'' else ''rejected'') s1))"

text \<open>How a round trip ends: the error, or the response; or a nil transport was called.\<close>

datatype trip = TripErr err | TripOk up_response | TripPanic panic

definition send :: "transport \<Rightarrow> up_call \<Rightarrow> world \<Rightarrow> (int list \<times> trip) \<times> world" where
  "send tr call s =
     (let (el, infos, r) = tr call s;
          s1 = s\<lparr>w_upstream := w_upstream s @ [call], t_now := t_now s + int el\<rparr> in
      ((infos, case r of Inl e \<Rightarrow> TripErr e | Inr resp \<Rightarrow> TripOk resp), s1))"

definition allowed_decision :: "request \<Rightarrow> user_info option \<Rightarrow> user_info option \<Rightarrow> decision" where
  "allowed_decision req inb outb = \<lparr>d_Allowed = True, d_Reason = [], d_AuthMethod = authMethodFrom req,
     d_Inbound = inb, d_Outbound = outb, d_TargetKind = [], d_TargetName = []\<rparr>"

definition RoundTrip :: "env \<Rightarrow> proxy \<Rightarrow> request \<Rightarrow> world \<Rightarrow> (int list \<times> trip) \<times> request \<times> world" where
  "RoundTrip ev p req s =
     (if NoImpersonation req then
        let token = BearerToken req;
            req1 = req\<lparr>Header := hdr_add (Header req) ''Authorization'' token\<rparr>;
            s1 = recordDecision p req1 (allowed_decision req1 (UserFrom req1) None) s in
        case ev_noAuthClientTransport ev of
          None \<Rightarrow> (([], TripPanic (PanicValue ''nil pointer dereference'')), req1, s1)
        | Some tr \<Rightarrow> let (r, s2) = send tr (UpNoAuth req1) s1 in (r, req1, s2)
      else case ImpersonationConfig req of
        None \<Rightarrow> (([], TripErr (Sentinel ErrNoImpersonationConfig)), req, s)
      | Some conf \<Rightarrow>
          let s1 = recordDecision p req (allowed_decision req (r_InboundUser conf) (r_ImpersonatedUser conf)) s;
              (r, s2) = send (ev_clientTransport ev) (UpImpersonated (r_ImpersonationConfig conf) req) s1 in
          (r, req, s2))"

section \<open>The reverse proxy of the standard library\<close>

text \<open>\<open>httpguts.HeaderValuesContainsToken\<close>.\<close>

definition trim_ows :: "string \<Rightarrow> string" where
  "trim_ows s = (let f = dropWhile (\<lambda>c. c = CHR '' '' \<or> byte_of c = 9) in rev (f (rev (f s))))"

definition has_token :: "string list \<Rightarrow> string \<Rightarrow> bool" where
  "has_token values token =
     list_ex (\<lambda>v. list_ex (\<lambda>t. to_lower (trim_ows t) = to_lower token) (split_on CHR '','' v)) values"

definition upgradeType :: "header \<Rightarrow> string" where
  "upgradeType h = (if \<not> has_token (hdr_values h ''Connection'') ''Upgrade'' then [] else hdr_get h ''Upgrade'')"

definition ascii_print :: "string \<Rightarrow> bool" where
  "ascii_print s = list_all (\<lambda>c. 32 \<le> byte_of c \<and> byte_of c < 127) s"

definition hopHeaders :: "string list" where
  "hopHeaders = [''Connection'', ''Proxy-Connection'', ''Keep-Alive'', ''Proxy-Authenticate'', ''Proxy-Authorization'',
     ''Te'', ''Trailer'', ''Transfer-Encoding'', ''Upgrade'']"

definition connection_names :: "header \<Rightarrow> string list" where
  "connection_names h = filter (\<lambda>n. n \<noteq> []) (map trim_ows (concat (map (split_on CHR '','') (hdr_values h ''Connection''))))"

definition removeHopByHopHeaders :: "header \<Rightarrow> header" where
  "removeHopByHopHeaders h = fold (\<lambda>n h. hdr_del h n) (connection_names h @ hopHeaders) h"

definition appendForwardedFor :: "string \<Rightarrow> header \<Rightarrow> header" where
  "appendForwardedFor remoteAddr h = (case split_host_port remoteAddr of
     None \<Rightarrow> h
   | Some (clientIP, _) \<Rightarrow>
       let prior = hdr_values h ''X-Forwarded-For'' in
       hdr_set h ''X-Forwarded-For'' (if prior = [] then clientIP else join_with '', '' prior @ '', '' @ clientIP))"

text \<open>The outgoing request of \<open>ServeHTTP\<close>.\<close>

definition outgoing :: "request \<Rightarrow> request" where
  "outgoing req =
     (let up = upgradeType (Header req);
          h1 = removeHopByHopHeaders (Header req);
          h2 = (if has_token (hdr_values (Header req) ''Te'') ''trailers'' then hdr_set h1 ''Te'' ''trailers'' else h1);
          h3 = (if up \<noteq> [] then hdr_set (hdr_set h2 ''Connection'' ''Upgrade'') ''Upgrade'' up else h2);
          h4 = appendForwardedFor (RemoteAddress req) h3;
          h5 = (if map_of h4 ''User-Agent'' = None then hdr_set h4 ''User-Agent'' [] else h4) in
      req\<lparr>Header := h5\<rparr>)"

text \<open>Copying the body: a failed write or read aborts the handler.\<close>

fun copyResponse :: "rwriter \<Rightarrow> (nat \<times> bool) list \<Rightarrow> bool \<Rightarrow> world \<Rightarrow> bool \<times> world" where
  "copyResponse w [] readErr s = (\<not> readErr, s)"
| "copyResponse w ((n, fl) # body) readErr s =
     (let ((_, er), s1) = rw_Write w n s in
      if er \<noteq> None then (False, s1)
      else copyResponse w body readErr (if fl then rw_Flush w s1 else s1))"

definition copyHeader :: "header \<Rightarrow> header \<Rightarrow> header" where
  "copyHeader dst src = fold (\<lambda>(k, vs) d. fold (\<lambda>v d. hdr_add d k v) vs d) src dst"

definition abortHandler :: panic where
  "abortHandler = PanicError (Sentinel ErrAbortHandler)"

type_synonym error_handler = "rwriter \<Rightarrow> request \<Rightarrow> err option \<Rightarrow> world \<Rightarrow> panic option \<times> world"

definition handleUpgradeResponse ::
  "error_handler \<Rightarrow> rwriter \<Rightarrow> request \<Rightarrow> string \<Rightarrow> up_response \<Rightarrow> world \<Rightarrow> panic option \<times> world" where
  "handleUpgradeResponse eh w outreq reqUp res s =
     (let resUp = upgradeType (ur_Header res) in
      if \<not> ascii_print resUp then
        eh w outreq (Some (NewError (''backend tried to switch to invalid protocol '' @ go_quote resUp))) s
      else if to_lower reqUp \<noteq> to_lower resUp then
        eh w outreq (Some (NewError (''backend tried to switch protocol '' @ go_quote resUp @ '' when '' @
          go_quote reqUp @ '' was requested''))) s
      else if \<not> ur_writable res then
        eh w outreq (Some (NewError ''internal error: 101 switching protocols response with non-writable body'')) s
      else case rw_Hijack w s of
        (Some e, s1) \<Rightarrow>
          eh w outreq (Some (NewError (if err_is e ErrNotSupported
             then ''can't switch protocols using non-Hijacker ResponseWriter''
             else ''Hijack failed on protocol switch: '' @ err_text e))) s1
      | (None, s1) \<Rightarrow> (None, s1\<lparr>w_respHeader := copyHeader (w_respHeader s1) (ur_Header res)\<rparr>))"

definition ReverseProxy :: "(request \<Rightarrow> world \<Rightarrow> (int list \<times> trip) \<times> request \<times> world) \<Rightarrow> error_handler \<Rightarrow> handler" where
  "ReverseProxy rt eh w req s =
     (let up = upgradeType (Header req) in
      if \<not> ascii_print up then
        eh w req (Some (NewError (''client tried to switch to invalid protocol '' @ go_quote up))) s
      else
        let ((infos, r), outreq, s1) = rt (outgoing req) s;
            s2 = fold (\<lambda>c s. rw_WriteHeader w c s) (filter informational infos) s1 in
        case r of
          TripPanic pn \<Rightarrow> (Some pn, s2)
        | TripErr e \<Rightarrow> eh w outreq (Some e) s2
        | TripOk res \<Rightarrow>
            if ur_StatusCode res = 101 then handleUpgradeResponse eh w outreq up res s2
            else
              let s3 = s2\<lparr>w_respHeader := copyHeader (w_respHeader s2) (removeHopByHopHeaders (ur_Header res))\<rparr>;
                  s4 = rw_WriteHeader w (ur_StatusCode res) s3;
                  (ok, s5) = copyResponse w (ur_Body res) (ur_readErr res) s4 in
              (if ok then None else Some abortHandler, s5))"

end
