(* ===== verification/Handlers.thy ===== *)
theory Handlers
  imports Proxy
begin

text \<open>
  The request filters of \<^verbatim>\<open>pkg/proxy/handlers.go\<close> and \<^verbatim>\<open>pkg/proxy/requestid.go\<close> and the error handler, in
  the order the source has them, and the chain \<open>withHandlers\<close> builds. Every filter is a function from
  the handler it wraps to a handler.
\<close>

section \<open>Request ids\<close>

definition maxRequestIDLen :: nat where
  "maxRequestIDLen = 64"

definition request_id_rune :: "nat \<Rightarrow> bool" where
  "request_id_rune r = (\<not> (r > 127 \<or> \<not> is_print_ascii r \<or> is_space r))"

definition validRequestID :: "string \<Rightarrow> string" where
  "validRequestID v =
     (if v = [] \<or> length v > maxRequestIDLen then []
      else if list_all request_id_rune (runes v) then trim_space v
      else [])"

definition peerIsTrusted :: "string \<Rightarrow> ipnet option list \<Rightarrow> bool" where
  "peerIsTrusted remoteAddr trusted = IPInNetworks (PeerHost remoteAddr) trusted"

definition withRequestID :: "env \<Rightarrow> proxy \<Rightarrow> handler \<Rightarrow> handler" where
  "withRequestID ev p next w r0 s0 =
     (let inb1 = validRequestID (hdr_get (Header r0) ''Audit-ID'');
          inbound = (if inb1 = [] then validRequestID (hdr_get (Header r0) ''X-Request-ID'') else inb1);
          minted = ev_NewUUID ev (w_uuids s0);
          s1 = s0\<lparr>w_uuids := Suc (w_uuids s0)\<rparr>;
          r1 = (if inbound \<noteq> [] then WithClientRequestID r0 inbound else r0);
          i = (if inbound \<noteq> [] \<and> peerIsTrusted (RemoteAddress r1) (p_trustedProxies p) then inbound else minted);
          r2 = r1\<lparr>Header := hdr_del (hdr_set (Header r1) ''Audit-ID'' i) ''X-Request-ID''\<rparr>;
          s2 = s1\<lparr>w_respHeader := hdr_set (w_respHeader s1) ''Audit-ID'' i\<rparr>;
          r3 = NewContext (r2\<lparr>Ctx := (Ctx r2)\<lparr>logRequestIDKey := Some i\<rparr>\<rparr>) (p_logger p) in
      next w (WithRequestID r3 i) s2)"

section \<open>Small helpers\<close>

definition withAuthMethod :: "request \<Rightarrow> string \<Rightarrow> request" where
  "withAuthMethod req m = req\<lparr>Ctx := (Ctx req)\<lparr>authMethodKey := Some m\<rparr>\<rparr>"

definition userFromContext :: "request \<Rightarrow> user_info option" where
  "userFromContext req = UserFrom req"

definition impersonationTargetKind :: "string \<Rightarrow> string" where
  "impersonationTargetKind kind = (if kind = ''extra info'' then ''extra'' else kind)"

definition cloneExtra :: "(string \<times> string list) list \<Rightarrow> (string \<times> string list) list" where
  "cloneExtra m = fold (\<lambda>(k, v) out. AList.update k v out) m []"

definition hasImpersonation :: "header \<Rightarrow> bool" where
  "hasImpersonation h = list_ex (\<lambda>(k, _). has_prefix (to_lower k) ''impersonate-'') h"

text \<open>\<open>warnLimiter.Allow\<close> at the current instant.\<close>

definition warn_Allow :: "env \<Rightarrow> string \<Rightarrow> world \<Rightarrow> bool \<times> world" where
  "warn_Allow ev reason s =
     (let (ok, l) = Allow (ev_bucket ev) (t_now s) reason (w_limiter s) in (ok, s\<lparr>w_limiter := l\<rparr>))"

section \<open>Forwarding headers\<close>

definition logForwardHeaders :: "env \<Rightarrow> proxy \<Rightarrow> request \<Rightarrow> string \<Rightarrow> string \<Rightarrow> world \<Rightarrow> request \<times> world" where
  "logForwardHeaders ev p req0 inboundXFF inboundRealIP s =
     (let (req, srcIP) = RemoteAddr (p_trustedProxies p) req0;
          forwardedFor = (''forwarded_for_untrusted'', AStr (Sanitize inboundXFF));
          outboundXFF = hdr_get (Header req) ''X-Forwarded-For'';
          s1 = (if outboundXFF \<noteq> [] \<and> outboundXFF \<noteq> inboundXFF
                then Emit (RequestIDFrom req) (FromContext req) EventRequestHeadersRewritten
                       [(''src_ip'', AStr srcIP), forwardedFor] s
                else s);
          dropped = (if inboundXFF \<noteq> [] \<and> hdr_get (Header req) ''X-Forwarded-For'' = [] then [''x-forwarded-for''] else []) @
                    (if inboundRealIP \<noteq> [] then [''x-real-ip''] else []) in
      if dropped = [] then (req, s1)
      else
        let (ok, s2) = warn_Allow ev ''headers_dropped'' s1 in
        if \<not> ok then (req, s2)
        else
          (req, Emit (RequestIDFrom req) (FromContext req) EventRequestHeadersDropped
             ([(''src_ip'', AStr srcIP), (''dropped_headers'', AStrs (sort dropped))] @
              (if inboundXFF \<noteq> [] then [forwardedFor] else [])) s2))"

definition withSanitizedForwardHeaders :: "env \<Rightarrow> proxy \<Rightarrow> handler \<Rightarrow> handler" where
  "withSanitizedForwardHeaders ev p h w req0 s0 =
     (let inboundXFF = hdr_get (Header req0) ''X-Forwarded-For'';
          inboundRealIP = hdr_get (Header req0) ''X-Real-Ip'';
          req1 = SanitizeForwardHeaders (p_trustedProxies p) req0;
          (req, s) = (if inboundXFF \<noteq> [] \<or> inboundRealIP \<noteq> []
                      then logForwardHeaders ev p req1 inboundXFF inboundRealIP s0 else (req1, s0)) in
      h w req s)"

section \<open>The error handler\<close>

definition isUpstreamTransportError :: "err \<Rightarrow> bool" where
  "isUpstreamTransportError e =
     (as_net_error e \<noteq> None \<or> as_net_kind OpError e \<or> as_net_kind URLError e \<or>
      err_is e ErrEOF \<or> err_is e ErrUnexpectedEOF \<or> as_errno e \<or> as_net_kind CertificateVerificationError e)"

definition upstreamTermination :: "err \<Rightarrow> string" where
  "upstreamTermination e =
     (if as_net_error e = Some True then ''upstream_timeout''
      else if err_is e ErrEOF \<or> err_is e ErrUnexpectedEOF \<or> err_is e ECONNRESET \<or> err_is e EPIPE
      then ''upstream_reset''
      else ''proxy_error'')"

definition logHandlerFailed :: "proxy \<Rightarrow> request \<Rightarrow> err \<Rightarrow> world \<Rightarrow> world" where
  "logHandlerFailed p r e s = EmitLevel (RequestIDFrom r) (componentLogger (Some (p_logger p))) EventRequestHandlerFailed
     LevelError [(''reason'', AStr ''internal_error''), ErrAttr (Some e)] s"

definition logAnomaly :: "env \<Rightarrow> proxy \<Rightarrow> request \<Rightarrow> string \<Rightarrow> world \<Rightarrow> world" where
  "logAnomaly ev p r reason s =
     (let (ok, s1) = warn_Allow ev reason s in
      if \<not> ok then s1
      else Emit (RequestIDFrom r) (componentLogger (Some (p_logger p))) EventRequestAnomalyDetected
             [(''src_ip'', AStr (snd (RemoteAddr (p_trustedProxies p) r))), (''reason'', AStr reason)] s1)"

definition denied_decision :: "request \<Rightarrow> string \<Rightarrow> err \<Rightarrow> decision" where
  "denied_decision r reason e =
     (let d = \<lparr>d_Allowed = False, d_Reason = reason, d_AuthMethod = authMethodFrom r, d_Inbound = userFromContext r,
               d_Outbound = None, d_TargetKind = [], d_TargetName = []\<rparr> in
      case as_auth_error e of
        Some (_, kind, target) \<Rightarrow>
          d\<lparr>d_TargetKind := impersonationTargetKind kind, d_TargetName := trim_char (char_of (39::nat)) target\<rparr>
      | None \<Rightarrow> d)"

definition logDenied :: "proxy \<Rightarrow> request \<Rightarrow> string \<Rightarrow> err \<Rightarrow> world \<Rightarrow> world" where
  "logDenied p r reason e s =
     (if DecisionRecorded r s then s else recordDecision p r (denied_decision r reason e) s)"

definition reserved_body :: string where
  "reserved_body = ''identities with the reserved '' @ go_quote ''system:'' @ '' prefix are not accepted from an authentication token''"

definition newErrorHandler :: "env \<Rightarrow> proxy \<Rightarrow> error_handler" where
  "newErrorHandler ev p w r eo s =
     (let unauthedHandler = NewUnauthenticatedHandler (Some (p_auditor p)) (\<lambda>w r. http_Error w ''Unauthorized'' 401);
          forbiddenHandler = NewForbiddenHandler (Some (p_auditor p)) (\<lambda>w r. http_Error w reserved_body 403) in
      case eo of
        None \<Rightarrow>
          (None, http_Error w [] 500
             (EmitLevel (RequestIDFrom r) (componentLogger (Some (p_logger p))) EventRequestHandlerFailed LevelError
                [(''reason'', AStr ''internal_error''), (''error_message'', AStr ''error handler called with nil error'')] s))
      | Some e \<Rightarrow>
          if err_is e ErrUnauthorized then
            unauthedHandler w r (logDenied p r ''unauthorized'' e s)
          else if err_is e ErrReservedIdentity then
            forbiddenHandler w r (logDenied p r ''reserved_identity'' e (logAnomaly ev p r ''reserved_identity'' s))
          else if err_is e ErrNoName then
            (None, http_Error w ''Username claim not available in OIDC Issuer response'' 403
               (logDenied p r ''no_username_claim'' e s))
          else if err_is e ErrNoImpersonationConfig then
            (None, http_Error w [] 500 (logDenied p r ''internal_error'' e (logHandlerFailed p r e s)))
          else if err_is e ErrorNoImpersonationUserFound then
            (None, http_Error w (sentinel_text ErrorNoImpersonationUserFound) 500 (logDenied p r ''internal_error'' e s))
          else if err_is e ErrTooManyImpersonationHeaderValues then
            (None, http_Error w (err_text e) 431
               (logDenied p r ''too_many_impersonation_values'' e (logAnomaly ev p r ''too_many_impersonation_values'' s)))
          else if err_is e ErrImpersonationNotAllowed then
            (None, http_Error w (err_text e) 403 (logDenied p r ''impersonation_denied'' e s))
          else if err_is e ErrCanceled then
            (None, logDenied p r ''client_canceled'' e
               (Emit (RequestIDFrom r) (componentLogger (p_upstreamLog p)) EventUpstreamRequestCanceled
                  [(''reason'', AStr ''client_canceled'')] s))
          else if err_is e ErrCreateSubjectAccessReview then
            (None, http_Error w [] 500 (logDenied p r ''internal_error'' e (logHandlerFailed p r e s)))
          else if isUpstreamTransportError e then
            (let term = upstreamTermination e in
             (None, http_Error w [] 502
                (Emit (RequestIDFrom r) (componentLogger (p_upstreamLog p)) EventUpstreamRequestFailed
                   [(''reason'', AStr ''upstream_error''), (''termination'', AStr term), ErrAttr (Some e)]
                   (WithTermination r term ''upstream_error'' s))))
          else
            (None, http_Error w [] 500 (logDenied p r ''internal_error'' e (logHandlerFailed p r e s))))"

section \<open>Authentication\<close>

fun reserved_group :: "string list \<Rightarrow> string list \<Rightarrow> string option" where
  "reserved_group allowed [] = None"
| "reserved_group allowed (g # gs) =
     (if g = AllAuthenticated \<or> g \<in> set allowed then reserved_group allowed gs
      else if has_prefix g reservedIdentityPrefix then Some g
      else reserved_group allowed gs)"

definition checkReservedIdentity :: "user_info \<Rightarrow> string list \<Rightarrow> err option" where
  "checkReservedIdentity info allowed =
     (if has_prefix (u_name info) reservedIdentityPrefix
      then Some (wrap_text ErrReservedIdentity (''username '' @ go_quote (u_name info)))
      else case reserved_group allowed (u_groups info) of
        Some g \<Rightarrow> Some (wrap_text ErrReservedIdentity (''group '' @ go_quote g))
      | None \<Rightarrow> None)"

definition withTokenReview :: "env \<Rightarrow> proxy \<Rightarrow> handler \<Rightarrow> handler" where
  "withTokenReview ev p h w req s =
     (if \<not> TokenReviewEnabled (p_config p) then newErrorHandler ev p w req (Some (Sentinel ErrUnauthorized)) s
      else
        let (ok, s1) = reviewToken p req s in
        if \<not> ok then newErrorHandler ev p w req (Some (Sentinel ErrUnauthorized)) s1
        else h w (WithNoImpersonation (withAuthMethod req ''tokenreview'')) s1)"

definition withAuthenticateRequest :: "env \<Rightarrow> proxy \<Rightarrow> handler \<Rightarrow> handler" where
  "withAuthenticateRequest ev p h w req0 s =
     (let ans = ev_AuthenticateRequest ev req0 s;
          req = req0\<lparr>Header := oa_header ans\<rparr> in
      if oa_err ans \<noteq> None then
        let s1 = AuthenticationAttempt (p_metrics p) ''oidc'' ''rejected'' s;
            (req1, srcIP) = RemoteAddr (p_trustedProxies p) req;
            s2 = Emit (RequestIDFrom req1) (componentLogger (p_oidcLog p)) EventAuthnOIDCFailed
                   [(''src_ip'', AStr srcIP), (''reason'', AStr ''unauthorized'')] s1 in
        withTokenReview ev p h w req1 s2
      else if \<not> oa_ok ans then
        newErrorHandler ev p w req (Some (Sentinel ErrUnauthorized))
          (AuthenticationAttempt (p_metrics p) ''none'' ''rejected'' s)
      else
        let s1 = AuthenticationAttempt (p_metrics p) ''oidc'' ''accepted'' s;
            req1 = WithIssuerName req (oa_issuer ans);
            s2 = Emit (RequestIDFrom req1) (componentLogger (p_oidcLog p)) EventAuthnOIDCSucceeded
                   [(''issuer_name'', AStr (Bound (oa_issuer ans) MaxIdentity))] s1;
            req2 = WithUser (withAuthMethod req1 ''oidc'') (oa_User ans) in
        case checkReservedIdentity (oa_User ans) (p_allowedReservedGroups p) of
          Some e \<Rightarrow> newErrorHandler ev p w req2 (Some e) s2
        | None \<Rightarrow> h w req2 s2)"

section \<open>Impersonation\<close>

text \<open>\<open>json.Marshal\<close> of the extra map: keys sorted, strings escaped as \<open>encoding/json\<close> does by default.\<close>

definition hex_digit :: "nat \<Rightarrow> char" where
  "hex_digit n = (if n < 10 then char_of (48 + n) else char_of (87 + n))"

definition json_rune :: "nat \<Rightarrow> string" where
  "json_rune r =
     (let bs = [char_of (92::nat)] in
      if r = 34 \<or> r = 92 then bs @ [char_of r]
      else if r = 8 then bs @ ''b'' else if r = 12 then bs @ ''f'' else if r = 10 then bs @ ''n''
      else if r = 13 then bs @ ''r'' else if r = 9 then bs @ ''t''
      else if r < 32 \<or> r = 60 \<or> r = 62 \<or> r = 38 then bs @ ''u00'' @ [hex_digit (r div 16), hex_digit (r mod 16)]
      else if r = 8232 then bs @ ''u2028'' else if r = 8233 then bs @ ''u2029''
      else encode_rune r)"

text \<open>An ill-formed byte (the error rune with width 1) is written as the escape of U+FFFD.\<close>

definition json_string :: "string \<Rightarrow> string" where
  "json_string s = [char_of (34::nat)] @
     concat (map (\<lambda>(r, bytes). if r = rune_error \<and> length bytes = 1 then [char_of (92::nat)] @ ''ufffd'' else json_rune r)
       (rune_chunks s)) @ [char_of (34::nat)]"

definition json_extra :: "(string \<times> string list) list \<Rightarrow> string" where
  "json_extra m = ''{'' @ join_with '','' (map (\<lambda>(k, vs). json_string k @ '':['' @ join_with '','' (map json_string vs) @ '']'')
     (sort_key fst m)) @ ''}''"

definition json_Marshal :: "(string \<times> string list) list \<Rightarrow> err + string" where
  "json_Marshal m = Inr (json_extra m)"

definition append_extra :: "string \<Rightarrow> string list \<Rightarrow> (string \<times> string list) list \<Rightarrow> (string \<times> string list) list" where
  "append_extra k vs m = AList.update k ((case map_of m k of Some old \<Rightarrow> old | None \<Rightarrow> []) @ vs) m"

definition impersonatedHeaderNames :: "imp_config \<Rightarrow> string list" where
  "impersonatedHeaderNames c = sort ([''Impersonate-User''] @
     (if i_Groups c \<noteq> [] then [''Impersonate-Group''] else []) @
     (if i_UID c \<noteq> [] then [''Impersonate-Uid''] else []) @
     map (\<lambda>(k, _). ''Impersonate-Extra-'' @ Sanitize k) (i_Extra c))"

text \<open>The extras of the original user added to an impersonated request.\<close>

definition original_extras :: "user_info \<Rightarrow> (string \<times> string list) list \<Rightarrow> err + (string \<times> string list) list" where
  "original_extras u e0 =
     (let e1 = AList.update ExtraKeyOriginalUser [u_name u] e0;
          e2 = (if u_groups u \<noteq> [] then AList.update ExtraKeyOriginalGroups (u_groups u) e1 else e1);
          e3 = (if u_uid u \<noteq> [] then AList.update ExtraKeyOriginalUID [u_uid u] e2 else e2) in
      if u_extra u \<noteq> [] then
        (case json_Marshal (u_extra u) of
           Inl e \<Rightarrow> Inl e
         | Inr js \<Rightarrow> Inr (AList.update ExtraKeyOriginalExtra [js] e3))
      else Inr e3)"

text \<open>The impersonation configuration of a request, from the caller, the authorized target and the client address.\<close>

definition impersonation_config ::
  "config \<Rightarrow> user_info \<Rightarrow> user_info option \<Rightarrow> string \<Rightarrow> err + imp_config" where
  "impersonation_config cfg caller target remoteAddr =
     (let user = (case target of Some t \<Rightarrow> t | None \<Rightarrow> caller);
          groups = (if AllAuthenticated \<notin> set (u_groups user) then u_groups user @ [AllAuthenticated] else u_groups user);
          e0 = cloneExtra (u_extra user);
          e1 = (if ExtraUserHeadersClientIPEnabled cfg then append_extra UserHeaderClientIPKey [remoteAddr] e0 else e0);
          e2 = fold (\<lambda>(k, vs) m. append_extra k vs m) (ExtraUserHeaders cfg) e1 in
      case (case target of Some _ \<Rightarrow> original_extras caller e2 | None \<Rightarrow> Inr e2) of
        Inl e \<Rightarrow> Inl e
      | Inr extra \<Rightarrow> Inr \<lparr>i_UserName = u_name user, i_UID = u_uid user, i_Groups = groups, i_Extra = extra\<rparr>)"

text \<open>The end of the filter: the configuration is built, logged and put on the request.\<close>

definition apply_impersonation ::
  "env \<Rightarrow> proxy \<Rightarrow> handler \<Rightarrow> rwriter \<Rightarrow> request \<Rightarrow> user_info \<Rightarrow> user_info option \<Rightarrow> string \<Rightarrow> world \<Rightarrow> panic option \<times> world" where
  "apply_impersonation ev p h w req caller target remoteAddr s =
     (case impersonation_config (p_config p) caller target remoteAddr of
        Inl e \<Rightarrow> newErrorHandler ev p w req (Some e) s
      | Inr conf \<Rightarrow>
          let s1 = Emit (RequestIDFrom req) (FromContext req) EventRequestImpersonationApplied
                     [(''outbound_user'', AStr (Bound (i_UserName conf) MaxIdentity)),
                      (''impersonated_header_names'', AStrs (impersonatedHeaderNames conf))] s in
          h w (WithImpersonationConfig req
                 \<lparr>r_ImpersonationConfig = conf, r_InboundUser = Some caller, r_ImpersonatedUser = target\<rparr>) s1)"

definition withImpersonateRequest :: "env \<Rightarrow> proxy \<Rightarrow> handler \<Rightarrow> handler" where
  "withImpersonateRequest ev p h w req0 s =
     (if NoImpersonation req0 then
        h w req0 (Emit (RequestIDFrom req0) (FromContext req0) EventRequestImpersonationSkipped
                    [(''skip_reason'', AStr ''passthrough'')] s)
      else
        let (req, remoteAddr) = RemoteAddr (p_trustedProxies p) req0 in
        if DisableImpersonation (p_config p) then
          h w (WithNoImpersonation req)
            (Emit (RequestIDFrom req) (FromContext req) EventRequestImpersonationSkipped
               [(''skip_reason'', AStr ''disabled'')] s)
        else case UserFrom req of
          None \<Rightarrow> newErrorHandler ev p w req (Some (Sentinel ErrNoName)) s
        | Some user \<Rightarrow>
            if u_name user = [] then newErrorHandler ev p w req (Some (Sentinel ErrNoName)) s
            else if hasImpersonation (Header req) then
              (case CheckAuthorizedForImpersonation (ev_sar ev) (p_subjectAccessReviewer p) req user s of
                 (SarPanic, req1, s1) \<Rightarrow> (Some (PanicValue ''index out of range''), s1)
               | (SarErr e, req1, s1) \<Rightarrow> newErrorHandler ev p w req1 (Some e) s1
               | (SarOk target, req1, s1) \<Rightarrow> apply_impersonation ev p h w req1 user target remoteAddr s1)
            else apply_impersonation ev p h w req user None remoteAddr s)"

section \<open>The chain\<close>

definition proxyHandler :: "env \<Rightarrow> proxy \<Rightarrow> handler" where
  "proxyHandler ev p = ReverseProxy (RoundTrip ev p) (newErrorHandler ev p)"

text \<open>The filters inside the lifecycle filter, and the whole chain with the hook it registers.\<close>

definition inner_chain :: "env \<Rightarrow> proxy \<Rightarrow> handler \<Rightarrow> handler" where
  "inner_chain ev p h = withSanitizedForwardHeaders ev p (withAuthenticateRequest ev p
     (withImpersonateRequest ev p (WithRequest (p_auditor p) h)))"

definition withHandlers :: "env \<Rightarrow> proxy \<Rightarrow> handler \<Rightarrow> handler \<times> proxy" where
  "withHandlers ev p h =
     (withRequestID ev p (WithRequestInfo (p_auditor p)
        (withRequestLifecycle (p_auditor p) (p_metrics p) (ev_ctxErr ev) (inner_chain ev p h))),
      p\<lparr>p_hooks := AddPreShutdownHook ''AuditBackend'' (audit_Shutdown (p_auditor p)) (p_hooks p)\<rparr>)"

definition serve_request :: "env \<Rightarrow> proxy \<Rightarrow> handler" where
  "serve_request ev p = fst (withHandlers ev p (proxyHandler ev p))"

definition RunPreShutdownHooks_proxy :: "aggregator \<Rightarrow> proxy \<Rightarrow> world \<Rightarrow> err option \<times> world" where
  "RunPreShutdownHooks_proxy agg p s = RunPreShutdownHooks agg (p_hooks p) s"

end
