(* ===== verification/Calm.thy ===== *)
theory Calm
  imports Handlers
begin

text \<open>
  What the steps of the request path leave alone. \<open>calm lf s s'\<close>: between \<open>s\<close> and \<open>s'\<close> nothing was decided
  about the request, nothing was sent to the API server, and the lifecycle filter's record and gauges
  are as it left them. Logging, counting, writing the response, checking tokens and asking for
  authorization are calm; \<open>recordDecision\<close> and the transports are the only steps that are not.
\<close>

named_theorems calm \<open>steps that decide nothing and send nothing\<close>

definition decision_log :: "world \<Rightarrow> log_record list \<times> metric_op list" where
  "decision_log s = (records_of EventRequestAccessDecided (t_log s), ops_of nameAccessDecisions (t_met s))"

definition calm :: "life \<Rightarrow> world \<Rightarrow> world \<Rightarrow> bool" where
  "calm lf s s' = (steady lf s s' \<and> decision_log s' = decision_log s \<and> w_upstream s' = w_upstream s \<and>
     rs_recorded s' = rs_recorded s)"

lemma calm_refl [simp]: "calm lf s s"
  by (simp add: calm_def)

lemma calm_trans [trans]: "calm lf s s' \<Longrightarrow> calm lf s' s'' \<Longrightarrow> calm lf s s''"
  by (auto simp: calm_def intro: steady_trans)

definition watched_events :: "event_type set" where
  "watched_events = {EventRequestResponseCompleted, EventRequestAccessDecided}"

definition watched_families :: "string set" where
  "watched_families = {nameRequestsTotal, nameRequestsInFlight, nameLongRunningRequests, nameAccessDecisions}"

lemma calm_frameI:
  assumes "\<And>e. e \<in> watched_events \<Longrightarrow> records_of e (t_log s') = records_of e (t_log s)"
    and "\<And>n. n \<in> watched_families \<Longrightarrow> ops_of n (t_met s') = ops_of n (t_met s)"
    and "w_upstream s' = w_upstream s" "rs_recorded s' = rs_recorded s" "rec_established s' = rec_established s"
  shows "calm lf s s'"
  using assms gauge_ops_of [of nameLongRunningRequests s' s]
  by (simp add: calm_def steady_def decision_log_def long_net_def watched_events_def watched_families_def)

lemma calm_Emit [calm]: "e \<notin> watched_events \<Longrightarrow> calm lf s (Emit rid l e as s)"
  by (rule calm_frameI) (auto simp: records_of_Emit frame)

lemma calm_EmitLevel [calm]: "e \<notin> watched_events \<Longrightarrow> calm lf s (EmitLevel rid l e lv as s)"
  by (rule calm_frameI) (auto simp: records_of_EmitLevel_other frame watched_events_def)

lemma ops_of_none: "\<forall>op \<in> set ops. family op \<noteq> n \<Longrightarrow> ops_of n ops = []"
  by (simp add: ops_of_def)

lemma calm_record_ops: "\<forall>op \<in> set ops. family op \<notin> watched_families \<Longrightarrow> calm lf s (record_ops r ops s)"
  by (rule calm_frameI) (auto simp: frame intro!: ops_of_none)

lemma unwatched:
  "nameAuthnAttempts \<notin> watched_families" "nameReviewRequests \<notin> watched_families"
  "nameReviewDuration \<notin> watched_families" "nameCacheLookups \<notin> watched_families"
  by (simp_all add: watched_families_def metric_names)

lemma calm_counters [calm]:
  "calm lf s (AuthenticationAttempt r m oc s)" "calm lf s (ReviewRequest r rv oc d s)" "calm lf s (CacheLookup r rv res s)"
  by (simp_all add: AuthenticationAttempt_def ReviewRequest_def CacheLookup_def Let_def calm_record_ops unwatched)

lemma calm_upd [calm]:
  "calm lf s (s\<lparr>w_wire := w\<rparr>)" "calm lf s (s\<lparr>w_respHeader := h\<rparr>)" "calm lf s (s\<lparr>rec_wrote := b\<rparr>)"
  "calm lf s (s\<lparr>rec_status := c\<rparr>)" "calm lf s (s\<lparr>rec_bytes := c\<rparr>)" "calm lf s (s\<lparr>rec_hijacked := b\<rparr>)"
  "calm lf s (s\<lparr>w_audit := a\<rparr>)" "calm lf s (s\<lparr>rs_termination := t\<rparr>)" "calm lf s (s\<lparr>w_limiter := li\<rparr>)"
  "calm lf s (s\<lparr>t_now := now\<rparr>)" "calm lf s (s\<lparr>sar_cache := sc\<rparr>)" "calm lf s (s\<lparr>sar_calls := cs\<rparr>)"
  "calm lf s (s\<lparr>sar_asked := k\<rparr>)" "calm lf s (s\<lparr>tr_store := ts\<rparr>)" "calm lf s (s\<lparr>tr_calls := tc\<rparr>)"
  by (rule calm_frameI; simp)+

lemma calm_audit_only [calm]: "audit_only s s' \<Longrightarrow> calm lf s s'"
  by (rule calm_frameI) (auto simp: audit_only_def)

text \<open>The same rules as continuations: a calm step after a calm prefix.\<close>

lemmas calm_then = calm_Emit [THEN [2] calm_trans] calm_EmitLevel [THEN [2] calm_trans]
  calm_counters [THEN [2] calm_trans] calm_upd [THEN [2] calm_trans]

lemma unwatched_events [simp]:
  "EventRequestResponseStarted \<notin> watched_events" "EventRequestHeadersRewritten \<notin> watched_events"
  "EventRequestHeadersDropped \<notin> watched_events" "EventRequestAnomalyDetected \<notin> watched_events"
  "EventRequestImpersonationApplied \<notin> watched_events" "EventRequestImpersonationSkipped \<notin> watched_events"
  "EventRequestHandlerFailed \<notin> watched_events" "EventUpstreamRequestCanceled \<notin> watched_events"
  "EventUpstreamRequestFailed \<notin> watched_events" "EventAuthnOIDCSucceeded \<notin> watched_events"
  "EventAuthnOIDCFailed \<notin> watched_events" "EventAuthnTokenMissing \<notin> watched_events"
  "EventAuthnTokenReviewFailed \<notin> watched_events" "EventAuthnTokenReviewCompleted \<notin> watched_events"
  "EventCacheTokenReviewLookup \<notin> watched_events" "EventCacheSARLookup \<notin> watched_events"
  "EventAuthzSARCompleted \<notin> watched_events" "EventAuthzSARFailed \<notin> watched_events"
  "EventAuthzImpersonationResolved \<notin> watched_events"
  by (simp_all add: watched_events_def)

section \<open>Writing the response\<close>

lemma steady_establish: "steady lf s (establish lf s)"
proof -
  have "long_net lf ls (establish lf s) = long_net lf ls s" if "lf_metrics lf = Recorder" for ls
  proof (cases "rec_established s \<or> ls \<noteq> long_labels lf")
    case True
    then show ?thesis
      using that by (auto simp: establish_def long_net_def LongRunningEstablished_def gauge_record_ops long_labels_def frame)
  next
    case False
    then show ?thesis
      using that gauge_establish [OF that, of ls s] by (simp add: long_net_def long_labels_def)
  qed
  then show ?thesis
    by (simp add: steady_def) (simp add: establish_def LongRunningEstablished_def frame gauge_names)
qed

lemma calm_establish [calm]: "calm lf s (establish lf s)"
proof -
  have "nameLongRunningRequests \<noteq> nameAccessDecisions" by (simp add: metric_names)
  then show ?thesis
    using steady_establish
    by (auto simp: calm_def decision_log_def establish_def LongRunningEstablished_def frame)
qed

lemma calm_onStart [calm]: "calm lf s (onStart lf c s)"
  by (auto simp: onStart_def Let_def intro!: calm_establish [THEN [2] calm_trans] calm_Emit)

lemma calm_raw [calm]:
  "calm lf s (raw_WriteHeader c s)" "calm lf s (snd (raw_Write n s))" "calm lf s (raw_Flush s)" "calm lf s (snd (raw_Hijack s))"
  by (simp_all add: raw_defs Let_def case_prod_beta calm_upd split: option.splits)

lemma calm_WriteHeader [calm]: "calm lf s (recorder_WriteHeader lf c s)"
proof -
  have "calm lf s (raw_WriteHeader c (s\<lparr>rec_wrote := True, rec_status := c\<rparr>))"
    by (auto intro!: calm_raw(1) [THEN [2] calm_trans] calm_then)
  then show ?thesis
    unfolding recorder_WriteHeader_def Let_def
    using calm_raw(1) calm_onStart by (auto intro: calm_trans)
qed

lemma calm_implicit: "calm lf s (if \<not> rec_wrote s then recorder_WriteHeader lf 200 s else s)"
  by (simp add: calm_WriteHeader)

lemma calm_Write [calm]: "calm lf s (snd (recorder_Write lf n s))"
  unfolding recorder_Write_def Let_def case_prod_beta snd_conv
  by (rule calm_trans [OF calm_trans [OF calm_implicit calm_raw(2)] calm_upd(5)])

lemma calm_Flush [calm]: "calm lf s (recorder_Flush lf s)"
  unfolding recorder_Flush_def Let_def using calm_trans [OF calm_implicit calm_raw(3)] by simp

lemma calm_Hijack [calm]: "calm lf s (snd (recorder_Hijack lf s))"
proof -
  have "calm lf s ((snd (raw_Hijack s))\<lparr>rec_hijacked := True\<rparr>)"
    by (rule calm_trans [OF calm_raw(4) calm_upd(6)])
  then show ?thesis
    unfolding recorder_Hijack_def Let_def
    using calm_establish calm_raw(4) [of lf s] by (auto simp: case_prod_beta split: option.splits intro: calm_trans)
qed

lemma calm_http_Error [calm]: "calm lf s (http_Error (Rec lf) msg code s)"
  unfolding http_Error_def Let_def rw_Write.simps rw_WriteHeader.simps
  by (rule calm_trans [OF calm_trans [OF calm_upd(2) calm_WriteHeader] calm_Write])

lemma calm_copyResponse [calm]: "calm lf s (snd (copyResponse (Rec lf) body re s))"
proof (induction "Rec lf" body re s rule: copyResponse.induct)
  case (2 n fl body re s)
  obtain m er s1 where w: "recorder_Write lf n s = ((m, er), s1)" by (metis surj_pair)
  have s1: "calm lf s s1" using calm_Write [of lf s n] w by simp
  show ?case
  proof (cases er)
    case None
    let ?s2 = "if fl then rw_Flush (Rec lf) s1 else s1"
    have "calm lf s ?s2" using calm_trans [OF s1 calm_Flush] s1 by simp
    moreover have "calm lf ?s2 (snd (copyResponse (Rec lf) body re ?s2))"
      using 2 w None by simp
    ultimately have "calm lf s (snd (copyResponse (Rec lf) body re ?s2))" by (rule calm_trans)
    then show ?thesis using w None by simp
  qed (use w s1 in simp)
qed simp

lemma calm_informational [calm]: "calm lf s (fold (\<lambda>c s. rw_WriteHeader (Rec lf) c s) cs s)"
  by (induction cs arbitrary: s) (auto intro: calm_trans calm_WriteHeader)

section \<open>Logging and limiting\<close>

lemma calm_warn_Allow [calm]: "calm lf s (snd (warn_Allow ev reason s))"
  by (simp add: warn_Allow_def Let_def case_prod_beta calm_upd)

lemma calm_logHandlerFailed [calm]: "calm lf s (logHandlerFailed p r e s)"
  by (simp add: logHandlerFailed_def calm_EmitLevel)

lemma calm_logAnomaly [calm]: "calm lf s (logAnomaly ev p r reason s)"
  by (auto simp: logAnomaly_def case_prod_beta Let_def intro!: calm_then calm_warn_Allow)

lemma calm_WithTermination [calm]: "calm lf s (WithTermination r t rs s)"
  by (simp add: WithTermination_def calm_upd)

lemma calm_logForwardHeaders [calm]: "calm lf s (snd (logForwardHeaders ev p req x y s))"
  by (auto simp: logForwardHeaders_def Let_def case_prod_beta intro!: calm_then calm_warn_Allow [THEN [2] calm_trans])

section \<open>Asking for authorization\<close>

lemmas sar_check_defs = liveCheck_def observeLiveCheck_def timedLiveCheck_def flight_fn_def sharedLiveCheck_def
  checkRbacImpersonationAuthorization_def

lemma calm_liveCheck: "calm lf s (snd (liveCheck env sr spec s))"
  by (auto simp: liveCheck_def Let_def case_prod_beta intro!: calm_then split: option.splits)

lemma calm_observe: "calm lf s (observeLiveCheck sr d rid k st co a er s)"
  by (auto simp: observeLiveCheck_def Let_def intro!: calm_then split: option.splits)

lemma calm_timed: "calm lf s (snd (timedLiveCheck env sr q rid k co spec s))"
  by (auto simp: timedLiveCheck_def Let_def case_prod_beta intro!: calm_observe [THEN [2] calm_trans] calm_liveCheck)

lemma calm_flight: "calm lf s (snd (flight_fn env sr key sp s))"
  using calm_liveCheck [of lf s env sr sp]
  by (auto simp: flight_fn_def Let_def case_prod_beta intro!: calm_then split: option.splits)

lemma calm_shared: "calm lf s (snd (sharedLiveCheck env sr q rid k key spec s))"
  by (auto simp: sharedLiveCheck_def Let_def case_prod_beta split: option.splits
      intro!: calm_observe [THEN [2] calm_trans] calm_timed [THEN [2] calm_trans] calm_flight)

lemma calm_checkRbac: "calm lf s (snd (checkRbacImpersonationAuthorization env sr rid res n u s))"
  by (auto simp: checkRbacImpersonationAuthorization_def Let_def case_prod_beta split: option.splits
      intro!: calm_then calm_shared [THEN [2] calm_trans] calm_timed [THEN [2] calm_trans])

lemma calm_check_values: "calm lf s (snd (check_values env sr rid res u deny vs s))"
proof (induction vs arbitrary: s)
  case (Cons v vs)
  obtain a er s1 where c: "checkRbacImpersonationAuthorization env sr rid res v u s = ((a, er), s1)"
    by (metis surj_pair)
  then have "calm lf s s1" using calm_checkRbac [of lf s env sr rid res v u] by simp
  then show ?case using Cons [of s1] c by (auto split: option.splits intro: calm_trans)
qed simp

lemma snd_case_option_pair: "snd (case x of (Some e, s) \<Rightarrow> (f e, s) | (None, s) \<Rightarrow> (g, s)) = snd x"
  by (cases x) (auto split: option.splits)

lemma calm_imp_header: "calm lf s (snd (imp_header env sr rid u k vs t s))"
  by (auto simp: imp_header_def Let_def snd_case_option_pair calm_check_values simp del: check_values.simps split: list.splits)

lemma calm_imp_loop: "calm lf s (snd (imp_loop env sr rid u hu h t s))"
proof (induction h arbitrary: t s)
  case (Cons kv h)
  obtain k vs where kv: "kv = (k, vs)" by (cases kv)
  have "calm lf s (snd (imp_header env sr rid u k vs t s))" by (rule calm_imp_header)
  then show ?case using Cons kv by (auto split: sum.splits prod.splits intro: calm_trans)
qed simp

lemma calm_Check [calm]: "calm lf s (snd (snd (CheckAuthorizedForImpersonation env sr req u s)))"
  using calm_imp_loop [of lf s env sr "RequestIDFrom req" u "hdr_get (Header req) ''impersonate-user'' \<noteq> []" "Header req" emptyTarget]
  by (auto simp: CheckAuthorizedForImpersonation_def Let_def intro!: calm_then split: prod.splits sum.splits)

section \<open>Reviewing a token\<close>

text \<open>What the proxy relies on of its token reviewer; the TokenReview authenticators keep it.\<close>

definition calm_reviewer :: "token_authenticator \<Rightarrow> bool" where
  "calm_reviewer a = (\<forall>lf rid token s. calm lf s (snd (a rid token s)))"

lemma calm_live_reviewer: "calm lf s (snd (TokenReview_AuthenticateToken env t rid token s))"
  by (auto simp: TokenReview_AuthenticateToken_def tr_send_def Let_def case_prod_beta split: sum.splits intro!: calm_then)

lemma calm_cached_reviewer: "calm lf s (snd (cached_AuthenticateToken env t rid token s))"
  by (auto simp: cached_AuthenticateToken_def Let_def case_prod_beta split: option.splits
      intro!: calm_then calm_live_reviewer [THEN [2] calm_trans])

lemma calm_NewCached: "calm_reviewer (NewCached env t ok fail)"
  by (simp add: calm_reviewer_def NewCached_def calm_live_reviewer calm_cached_reviewer)

lemma calm_reviewToken [calm]:
  assumes "calm_reviewer (p_tokenReviewer p)"
  shows "calm lf s (snd (reviewToken p req s))"
proof -
  have "calm lf s (snd (p_tokenReviewer p rid b s))" for rid b
    using assms by (simp add: calm_reviewer_def)
  then show ?thesis
    by (auto simp: reviewToken_def Let_def case_prod_beta split: option.splits intro!: calm_then)
qed

end
