(* ===== verification/Decision.thy ===== *)
theory Decision
  imports Calm
begin

text \<open>
  One decision per request. \<open>one_decision p lf s s' ups\<close>: between \<open>s\<close> and \<open>s'\<close> exactly one access decision
  was recorded, in the log and in the metrics, the calls \<open>ups\<close> were sent to the API server, and the
  decision says "allow" precisely when one was sent. The error handler, the round tripper and the
  reverse proxy are shown to keep it.
\<close>

definition decision_records :: "proxy \<Rightarrow> request \<Rightarrow> decision \<Rightarrow> log_record list" where
  "decision_records p req d = (case al_logger (p_access p) of
     Discard \<Rightarrow> []
   | ForComponent f c \<Rightarrow>
       if emits (al_logger (p_access p)) EventRequestAccessDecided then
         [\<lparr>lr_level = Level (spec_or_zero EventRequestAccessDecided), lr_msg = Message (spec_or_zero EventRequestAccessDecided),
           lr_component = c, lr_attrs = (''event_type'', AStr (event_name EventRequestAccessDecided)) #
             withContextRequestID (RequestIDFrom req) (spec_or_zero EventRequestAccessDecided)
               (decision_attrs (p_access p) req d)\<rparr>]
       else [])"

definition decision_ops :: "proxy \<Rightarrow> decision \<Rightarrow> metric_op list" where
  "decision_ops p d = (if p_metrics p = NilRecorder then []
     else [MInc nameAccessDecisions [projectAuthMethod (d_AuthMethod d), if d_Allowed d then ''allow'' else ''deny'',
             projectReason (if d_Allowed d then [] else d_Reason d)]])"

definition one_decision :: "proxy \<Rightarrow> life \<Rightarrow> world \<Rightarrow> world \<Rightarrow> up_call list \<Rightarrow> bool" where
  "one_decision p lf s s' ups =
     (steady lf s s' \<and> rs_recorded s' \<and> w_upstream s' = w_upstream s @ ups \<and>
      (\<exists>req d. decision_log s' = (fst (decision_log s) @ decision_records p req d, snd (decision_log s) @ decision_ops p d) \<and>
         d_Allowed d = (ups \<noteq> [])))"

lemma one_decision_calm:
  "calm lf s s1 \<Longrightarrow> one_decision p lf s1 s2 ups \<Longrightarrow> one_decision p lf s s2 ups"
  "one_decision p lf s s1 ups \<Longrightarrow> calm lf s1 s2 \<Longrightarrow> one_decision p lf s s2 ups"
  unfolding one_decision_def calm_def by (auto intro: steady_trans)

lemma recordDecision_log:
  "decision_log (recordDecision p req d s) =
     (fst (decision_log s) @ decision_records p req d, snd (decision_log s) @ decision_ops p d)"
proof -
  have "t_log (MarkDecisionRecorded req s') = t_log s'" "t_met (MarkDecisionRecorded req s') = t_met s'" for s' :: world
    by (simp_all add: MarkDecisionRecorded_def)
  then show ?thesis
    by (cases "al_logger (p_access p)")
       (simp_all add: decision_log_def recordDecision_def AccessDecision_def LogDecision_def Let_def frame t_log_Emit
        decision_records_def decision_ops_def records_of_def)
qed

lemma decided_unwatched:
  "nameAccessDecisions \<noteq> nameRequestsTotal" "nameAccessDecisions \<noteq> nameRequestsInFlight"
  "nameAccessDecisions \<noteq> nameLongRunningRequests"
  by (simp_all add: metric_names)

lemma recordDecision_steady: "steady lf s (recordDecision p req d s)"
proof -
  let ?s' = "recordDecision p req d s"
  have m: "t_met ?s' = t_met s @ decision_ops p d" "rec_established ?s' = rec_established s"
    by (simp_all add: recordDecision_def AccessDecision_def LogDecision_def Let_def MarkDecisionRecorded_def frame decision_ops_def)
  have "ops_of n (decision_ops p d) = []" if "n \<noteq> nameAccessDecisions" for n
    using that by (simp add: decision_ops_def)
  then have "\<And>n. n \<noteq> nameAccessDecisions \<Longrightarrow> ops_of n (t_met ?s') = ops_of n (t_met s)"
    by (simp add: m)
  moreover have "records_of EventRequestResponseCompleted (t_log ?s') = records_of EventRequestResponseCompleted (t_log s)"
    by (simp add: recordDecision_def AccessDecision_def LogDecision_def Let_def MarkDecisionRecorded_def frame records_of_Emit)
  ultimately show ?thesis
    using decided_unwatched m(2) gauge_ops_of [of nameLongRunningRequests ?s' s]
    by (simp add: steady_def long_net_def)
qed

lemma recordDecision_world:
  "w_upstream (recordDecision p req d s) = w_upstream s"
  "decisionKey (Ctx req) \<Longrightarrow> rs_recorded (recordDecision p req d s)"
  by (simp_all add: recordDecision_def AccessDecision_def LogDecision_def Let_def MarkDecisionRecorded_def frame)

lemma logDenied_recorded: "decisionKey (Ctx r) \<Longrightarrow> rs_recorded s \<Longrightarrow> logDenied p r reason e s = s"
  by (simp add: logDenied_def DecisionRecorded_def)

lemma logDenied_one:
  assumes "decisionKey (Ctx r)" "\<not> rs_recorded s" "calm lf s s1"
  shows "one_decision p lf s (logDenied p r reason e s1) []"
proof -
  have "\<not> rs_recorded s1" using assms(2,3) by (simp add: calm_def)
  then have eq: "logDenied p r reason e s1 = recordDecision p r (denied_decision r reason e) s1"
    by (simp add: logDenied_def DecisionRecorded_def)
  have "\<not> d_Allowed (denied_decision r reason e)"
    by (simp add: denied_decision_def Let_def split: option.splits)
  then have "one_decision p lf s1 (logDenied p r reason e s1) []"
    unfolding eq one_decision_def
    using recordDecision_log recordDecision_steady recordDecision_world [OF] recordDecision_world(2) [OF assms(1)] by fastforce
  then show ?thesis using one_decision_calm(1) [OF assms(3)] by blast
qed

section \<open>The error handler\<close>

lemma calm_audited_error:
  assumes "transparent F"
  shows "calm lf s (snd (F (funcHandler (\<lambda>w r. http_Error w msg code)) (Rec lf) r s))"
  by (rule transparent_lift [OF assms, where R = "\<lambda>s _ s'. calm lf s s'"])
     (auto simp: funcHandler_def intro: calm_http_Error calm_trans calm_audit_only)

lemma calm_unauthenticated:
  "transparent_audit a \<Longrightarrow> calm lf s (snd (NewUnauthenticatedHandler (Some a) (\<lambda>w r. http_Error w msg code) (Rec lf) r s))"
  by (simp add: NewUnauthenticatedHandler_def calm_audited_error transparent_chains)

lemma calm_forbidden:
  "transparent_audit a \<Longrightarrow> calm lf s (snd (NewForbiddenHandler (Some a) (\<lambda>w r. http_Error w msg code) (Rec lf) r s))"
  by (simp add: NewForbiddenHandler_def calm_audited_error transparent_chains)

text \<open>An error that refuses the request: one of the classified ones, or anything that is not a transport failure.\<close>

definition refusal :: "err \<Rightarrow> bool" where
  "refusal e = (list_ex (err_is e) [ErrUnauthorized, ErrReservedIdentity, ErrNoName, ErrNoImpersonationConfig,
     ErrorNoImpersonationUserFound, ErrTooManyImpersonationHeaderValues, ErrImpersonationNotAllowed, ErrCanceled,
     ErrCreateSubjectAccessReview] \<or> \<not> isUpstreamTransportError e)"

lemma one_if:
  "(c \<Longrightarrow> one_decision p lf s (snd a) ups) \<Longrightarrow> (\<not> c \<Longrightarrow> one_decision p lf s (snd b) ups) \<Longrightarrow>
   one_decision p lf s (snd (if c then a else b)) ups"
  by simp

lemma calm_if:
  "(c \<Longrightarrow> calm lf s (snd a)) \<Longrightarrow> (\<not> c \<Longrightarrow> calm lf s (snd b)) \<Longrightarrow> calm lf s (snd (if c then a else b))"
  by simp

text \<open>The forms of the handler's branches: a calm report, the denial, the response.\<close>

lemma denied_branches:
  assumes "transparent_audit a" "decisionKey (Ctx r)" "\<not> rs_recorded s" "calm lf s s1"
  shows "one_decision p lf s (http_Error (Rec lf) m c (logDenied p r reason e s1)) []"
    "one_decision p lf s (snd (NewUnauthenticatedHandler (Some a) (\<lambda>w r. http_Error w m c) (Rec lf) r' (logDenied p r reason e s1))) []"
    "one_decision p lf s (snd (NewForbiddenHandler (Some a) (\<lambda>w r. http_Error w m c) (Rec lf) r' (logDenied p r reason e s1))) []"
  using one_decision_calm(2) [OF logDenied_one [OF assms(2-4)]] calm_http_Error calm_unauthenticated [OF assms(1)]
    calm_forbidden [OF assms(1)]
  by blast+

lemma error_handler_one:
  assumes "transparent_audit (p_auditor p)" "decisionKey (Ctx r)" "\<not> rs_recorded s" "refusal e"
  shows "one_decision p lf s (snd (newErrorHandler ev p (Rec lf) r (Some e) s)) []"
  unfolding newErrorHandler_def Let_def option.case
proof (intro one_if)
  assume "\<not> err_is e ErrUnauthorized" "\<not> err_is e ErrReservedIdentity" "\<not> err_is e ErrNoName"
    "\<not> err_is e ErrNoImpersonationConfig" "\<not> err_is e ErrorNoImpersonationUserFound"
    "\<not> err_is e ErrTooManyImpersonationHeaderValues" "\<not> err_is e ErrImpersonationNotAllowed" "\<not> err_is e ErrCanceled"
    "\<not> err_is e ErrCreateSubjectAccessReview" "isUpstreamTransportError e"
  then have False using assms(4) by (simp add: refusal_def)
  then show "one_decision p lf s (snd (None, http_Error (Rec lf) [] 502
     (Emit (RequestIDFrom r) (componentLogger (p_upstreamLog p)) EventUpstreamRequestFailed
       [(''reason'', AStr ''upstream_error''), (''termination'', AStr (upstreamTermination e)), ErrAttr (Some e)]
       (WithTermination r (upstreamTermination e) ''upstream_error'' s)))) []" ..
qed (unfold snd_conv, (rule denied_branches [OF assms(1-3)] logDenied_one [OF assms(2,3)],
      rule calm_refl calm_logAnomaly calm_logHandlerFailed calm_Emit [OF unwatched_events(8)])+)

lemma error_handler_calm:
  assumes "transparent_audit (p_auditor p)" "decisionKey (Ctx r)" "rs_recorded s"
  shows "calm lf s (snd (newErrorHandler ev p (Rec lf) r (Some e) s))"
proof -
  have d: "calm lf s s1 \<Longrightarrow> calm lf s (logDenied p r reason e s1)" for s1 reason
    using logDenied_recorded [OF assms(2), of s1] assms(3) by (simp add: calm_def)
  note then_rules = d calm_unauthenticated [OF assms(1), THEN [2] calm_trans] calm_forbidden [OF assms(1), THEN [2] calm_trans]
    calm_http_Error [THEN [2] calm_trans] calm_Emit [OF unwatched_events(9), THEN [2] calm_trans]
  show ?thesis
    unfolding newErrorHandler_def Let_def option.case
    by (intro calm_if; (unfold snd_conv)?;
        intro then_rules calm_refl calm_logAnomaly calm_logHandlerFailed calm_WithTermination calm_Emit [OF unwatched_events(8)])
qed

section \<open>The round trip\<close>

text \<open>The call a round trip of a request sends.\<close>

definition sent_call :: "request \<Rightarrow> up_call" where
  "sent_call q = (if NoImpersonation q
     then UpNoAuth (q\<lparr>Header := hdr_add (Header q) ''Authorization'' (BearerToken q)\<rparr>)
     else case ImpersonationConfig q of
       Some conf \<Rightarrow> UpImpersonated (r_ImpersonationConfig conf) q
     | None \<Rightarrow> UpNoAuth q)"

text \<open>A request that is ready to be sent: its way to the API server is settled and wired up.\<close>

definition ready :: "env \<Rightarrow> request \<Rightarrow> bool" where
  "ready ev q = (decisionKey (Ctx q) \<and> (NoImpersonation q \<longrightarrow> ev_noAuthClientTransport ev \<noteq> None) \<and>
     (NoImpersonation q \<or> ImpersonationConfig q \<noteq> None))"

lemma send_one:
  assumes "steady lf s s1" "rs_recorded s1" "w_upstream s1 = w_upstream s"
    "decision_log s1 = (fst (decision_log s) @ decision_records p req d, snd (decision_log s) @ decision_ops p d)"
    "d_Allowed d" "send tr call s1 = (r, s2)"
  shows "one_decision p lf s s2 [call] \<and> (\<forall>pn. snd r \<noteq> TripPanic pn)"
proof -
  have "steady lf s1 s2" "decision_log s2 = decision_log s1" "rs_recorded s2 = rs_recorded s1" "w_upstream s2 = w_upstream s1 @ [call]"
    using assms(6)
    by (auto simp: send_def Let_def case_prod_beta steady_def long_net_def gauge_def decision_log_def)
  moreover have "\<forall>pn. snd r \<noteq> TripPanic pn" using assms(6) by (auto simp: send_def Let_def case_prod_beta split: sum.splits)
  ultimately show ?thesis unfolding one_decision_def using assms steady_trans by fastforce
qed

lemma RoundTrip_noauth:
  assumes "NoImpersonation q" "ev_noAuthClientTransport ev = Some tr"
    "q1 = q\<lparr>Header := hdr_add (Header q) ''Authorization'' (BearerToken q)\<rparr>"
  shows "RoundTrip ev p q s =
    (let (r, s2) = send tr (UpNoAuth q1) (recordDecision p q1 (allowed_decision q1 (UserFrom q1) None) s) in (r, q1, s2))"
  unfolding RoundTrip_def assms(3) Let_def by (simp only: assms(1,2) if_True option.case)

lemma RoundTrip_impersonated:
  assumes "\<not> NoImpersonation q" "ImpersonationConfig q = Some conf"
  shows "RoundTrip ev p q s =
    (let (r, s2) = send (ev_clientTransport ev) (UpImpersonated (r_ImpersonationConfig conf) q)
       (recordDecision p q (allowed_decision q (r_InboundUser conf) (r_ImpersonatedUser conf)) s) in (r, q, s2))"
  unfolding RoundTrip_def Let_def by (simp only: assms if_False option.case)

lemma decide_and_send:
  assumes "decisionKey (Ctx q1)" "(let (r, s2) = send tr call (recordDecision p q1 (allowed_decision q1 i o') s) in (r, q1, s2)) =
      ((infos, r), q', s')"
  shows "one_decision p lf s s' [call] \<and> (\<forall>pn. r \<noteq> TripPanic pn) \<and> decisionKey (Ctx q')"
proof -
  let ?d = "allowed_decision q1 i o'"
  have send: "send tr call (recordDecision p q1 ?d s) = ((infos, r), s')" "q' = q1"
    using assms(2) by (cases "send tr call (recordDecision p q1 ?d s)"; simp)+
  have "d_Allowed ?d" by (simp add: allowed_decision_def)
  from send_one [OF recordDecision_steady recordDecision_world(2) [OF assms(1)] recordDecision_world(1) recordDecision_log this send(1)]
  show ?thesis using send(2) assms(1) by simp
qed

lemma RoundTrip_one:
  assumes "ready ev q" "RoundTrip ev p q s = ((infos, r), q', s')"
  shows "one_decision p lf s s' [sent_call q] \<and> (\<forall>pn. r \<noteq> TripPanic pn) \<and> decisionKey (Ctx q')"
proof (cases "NoImpersonation q")
  case True
  define q1 where "q1 = q\<lparr>Header := hdr_add (Header q) ''Authorization'' (BearerToken q)\<rparr>"
  obtain tr where tr: "ev_noAuthClientTransport ev = Some tr" using True assms(1) by (auto simp: ready_def)
  have k: "decisionKey (Ctx q1)" using assms(1) by (simp add: ready_def q1_def)
  from decide_and_send [OF k, OF assms(2) [unfolded RoundTrip_noauth [OF True tr q1_def]]]
  show ?thesis using True by (simp add: sent_call_def q1_def)
next
  case False
  then obtain conf where c: "ImpersonationConfig q = Some conf" and k: "decisionKey (Ctx q)"
    using assms(1) by (auto simp: ready_def)
  from decide_and_send [OF k, OF assms(2) [unfolded RoundTrip_impersonated [OF False c]]]
  show ?thesis using False c by (simp add: sent_call_def)
qed

section \<open>The reverse proxy\<close>

lemma outgoing_frame [simp]:
  "Ctx (outgoing q) = Ctx q" "RemoteAddress (outgoing q) = RemoteAddress q" "Method (outgoing q) = Method q"
  "URLPath (outgoing q) = URLPath q"
  by (simp_all add: outgoing_def Let_def)

lemma ready_outgoing [simp]: "ready ev (outgoing q) = ready ev q"
  by (simp add: ready_def NoImpersonation_def ImpersonationConfig_def)

lemma NewError_refusal [simp]: "refusal (NewError t)"
  by (simp add: refusal_def isUpstreamTransportError_def)

lemma rw_WriteHeader_Rec: "rw_WriteHeader (Rec lf) = recorder_WriteHeader lf"
  by (intro ext) simp

lemma upgrade_calm:
  assumes "transparent_audit (p_auditor p)" "decisionKey (Ctx r)" "rs_recorded s"
  shows "calm lf s (snd (handleUpgradeResponse (newErrorHandler ev p) (Rec lf) r up res s))"
proof -
  obtain er s1 where h: "recorder_Hijack lf s = (er, s1)" by (metis surj_pair)
  then have s1: "calm lf s s1" using calm_Hijack [of lf s] by simp
  then have "rs_recorded s1" using assms(3) by (simp add: calm_def)
  note eh = error_handler_calm [OF assms(1,2)]
  show ?thesis
    unfolding handleUpgradeResponse_def Let_def
    using eh [OF assms(3)] eh [OF \<open>rs_recorded s1\<close>] s1 h
    by (auto split: option.splits intro: calm_trans calm_upd)
qed

lemma ReverseProxy_sends:
  assumes "transparent_audit (p_auditor p)" "ready ev q" "ascii_print (upgradeType (Header q))"
  shows "one_decision p lf s (snd (proxyHandler ev p (Rec lf) q s)) [sent_call (outgoing q)]"
proof -
  obtain infos r q' s1 where rt: "RoundTrip ev p (outgoing q) s = ((infos, r), q', s1)" by (metis prod_cases3 surj_pair)
  have one: "one_decision p lf s s1 [sent_call (outgoing q)]" "\<forall>pn. r \<noteq> TripPanic pn" "decisionKey (Ctx q')"
    using RoundTrip_one [OF _ rt, of lf] assms(2) by simp_all
  let ?s2 = "fold (\<lambda>c s. rw_WriteHeader (Rec lf) c s) (filter informational infos) s1"
  have s2: "one_decision p lf s ?s2 [sent_call (outgoing q)]"
    by (rule one_decision_calm(2) [OF one(1) calm_informational])
  then have rec: "rs_recorded ?s2" by (simp add: one_decision_def)
  have "calm lf ?s2 (snd (proxyHandler ev p (Rec lf) q s))"
  proof (cases r)
    case (TripErr e)
    then show ?thesis
      using error_handler_calm [OF assms(1) one(3) rec] assms(3) rt
      by (simp add: proxyHandler_def ReverseProxy_def Let_def rw_WriteHeader_Rec)
  next
    case (TripOk res)
    have "calm lf ?s2 (snd (copyResponse (Rec lf) (ur_Body res) (ur_readErr res)
        (rw_WriteHeader (Rec lf) (ur_StatusCode res)
          (?s2\<lparr>w_respHeader := copyHeader (w_respHeader ?s2) (removeHopByHopHeaders (ur_Header res))\<rparr>))))"
      by (auto intro!: calm_copyResponse [THEN [2] calm_trans] calm_WriteHeader [THEN [2] calm_trans] calm_upd)
    then show ?thesis
      using upgrade_calm [OF assms(1) one(3) rec] assms(3) rt TripOk
      by (simp add: proxyHandler_def ReverseProxy_def Let_def case_prod_beta rw_WriteHeader_Rec)
  qed (use one(2) in blast)
  then show ?thesis by (rule one_decision_calm(2) [OF s2])
qed

lemma ReverseProxy_one:
  assumes "transparent_audit (p_auditor p)" "ready ev q" "\<not> rs_recorded s"
  shows "\<exists>ups. one_decision p lf s (snd (proxyHandler ev p (Rec lf) q s)) ups \<and> (ups = [] \<or> ups = [sent_call (outgoing q)])"
proof (cases "ascii_print (upgradeType (Header q))")
  case False
  have k: "decisionKey (Ctx q)" using assms(2) by (simp add: ready_def)
  have "\<exists>t. proxyHandler ev p (Rec lf) q s = newErrorHandler ev p (Rec lf) q (Some (NewError t)) s"
    unfolding proxyHandler_def ReverseProxy_def Let_def using False by (simp only: not_False_eq_True if_True) blast
  then obtain t where "proxyHandler ev p (Rec lf) q s = newErrorHandler ev p (Rec lf) q (Some (NewError t)) s" ..
  then show ?thesis
    using error_handler_one [OF assms(1) k assms(3) NewError_refusal, of lf ev t] by metis
next
  case True
  from ReverseProxy_sends [OF assms(1,2) this] show ?thesis by blast
qed

end
