(* ===== verification/Quiet.thy ===== *)
theory Quiet
  imports Decision
begin

text \<open>
  What a step of the request path does to the state the reviewers share between requests. \<open>quiet s s'\<close>:
  the caches and the reviews sent are as they were, and time has not gone back. Logging, counting,
  writing the response, recording the decision and sending the call are quiet; asking for a review
  is not.
\<close>

definition reviews :: "world \<Rightarrow> _" where
  "reviews s = ((tr_store s, tr_calls s), (sar_cache s, sar_calls s, sar_asked s))"

definition quiet :: "world \<Rightarrow> world \<Rightarrow> bool" where
  "quiet s s' = (reviews s' = reviews s \<and> t_now s \<le> t_now s')"

lemma quiet_refl [simp]: "quiet s s"
  by (simp add: quiet_def)

lemma quiet_decided: "decided s' = decided s \<Longrightarrow> quiet s s'"
  by (simp add: decided_def quiet_def reviews_def)

lemma quiet_audit_only: "audit_only s s' \<Longrightarrow> quiet s s'"
  by (rule quiet_decided) (rule audit_only_fields(1))

lemma reviews_more: "tele.more s = tele.more s' \<Longrightarrow> reviews s = reviews s'"
  by (cases s; cases s') (simp add: reviews_def)

lemma reviews_telemetry [simp]:
  "reviews (Emit rid l e as s) = reviews s" "reviews (EmitLevel rid l e lv as s) = reviews s"
  "reviews (record_ops r ops s) = reviews s" "reviews (s\<lparr>rs_recorded := b\<rparr>) = reviews s"
  "reviews (s\<lparr>rs_termination := t\<rparr>) = reviews s"
  by (rule reviews_more, simp add: frame)+ (simp_all add: reviews_def)

lemma quiet_telemetry [simp]:
  "quiet s (Emit rid l e as s)" "quiet s (EmitLevel rid l e lv as s)" "quiet s (record_ops r ops s)"
  by (simp_all add: quiet_def frame)

lemma quiet_trans [trans]: "quiet s s' \<Longrightarrow> quiet s' s'' \<Longrightarrow> quiet s s''"
  by (simp add: quiet_def)

section \<open>Steps that are quiet\<close>

lemma quiet_recordDecision: "quiet s (recordDecision p q d s)"
  by (simp add: recordDecision_def AccessDecision_def LogDecision_def Let_def MarkDecisionRecorded_def quiet_def frame)

lemma quiet_logDenied: "quiet s (logDenied p r reason e s)"
  by (simp add: logDenied_def quiet_recordDecision)

lemma decided_warn_Allow [simp]: "decided (snd (warn_Allow ev reason s)) = decided s"
  by (simp add: warn_Allow_def Let_def case_prod_beta)

lemma quiet_warn_Allow: "quiet s (snd (warn_Allow ev reason s))"
  by (rule quiet_decided) simp

lemma quiet_logAnomaly: "quiet s (logAnomaly ev p r reason s)"
  using quiet_trans [OF quiet_warn_Allow quiet_telemetry(1)] quiet_warn_Allow
  by (simp add: logAnomaly_def case_prod_beta Let_def)

lemma quiet_send: "quiet s (snd (send tr call s))"
  by (simp add: send_def Let_def case_prod_beta quiet_def reviews_def)

lemma quiet_RoundTrip: "quiet s (snd (snd (RoundTrip ev p q s)))"
  by (auto simp: RoundTrip_def Let_def case_prod_beta split: option.splits
      intro: quiet_trans quiet_recordDecision quiet_send)

lemma decided_copyResponse: "decided (snd (copyResponse w body re s)) = decided s"
proof (induction w body re s rule: copyResponse.induct)
  case (2 w n fl body re s)
  obtain m er s1 where wr: "rw_Write w n s = ((m, er), s1)" by (metis surj_pair)
  then have "decided s1 = decided s" using decided_rw(2) [of w n s] by simp
  then show ?case using 2 wr by (simp split: if_splits)
qed simp

lemma decided_informational: "decided (fold (\<lambda>c s. rw_WriteHeader w c s) cs s) = decided s"
  by (induction cs arbitrary: s) simp_all

lemma quiet_defer: "quiet s (lifecycle_defer r ctxErr lf q pn s)"
  by (simp add: lifecycle_defer_def Let_def RequestFinished_def quiet_def frame)

section \<open>Handlers that are quiet\<close>

lemma quiet_filter:
  assumes "transparent F" "\<And>q s. quiet s (snd (h w q s))"
  shows "quiet s (snd (F h w q s))"
proof -
  obtain ri s1 r s2 s3 where *: "audit_only s s1" "h w (with_info ri q) s1 = (r, s2)" "audit_only s2 s3" "F h w q s = (r, s3)"
    using transparentE [OF assms(1)] .
  have "quiet s1 s2" using assms(2) [of s1 "with_info ri q"] *(2) by simp
  then have "quiet s s3" using quiet_trans quiet_audit_only *(1,3) by blast
  then show ?thesis by (simp add: *(4))
qed

lemma quiet_http_Error: "quiet s s1 \<Longrightarrow> quiet s (http_Error w msg code s1)"
  by (erule quiet_trans) (simp add: quiet_decided)

lemma quiet_audited_error:
  assumes "transparent_audit a" "quiet s s1"
  shows "quiet s (snd (NewUnauthenticatedHandler (Some a) (\<lambda>w r. http_Error w msg code) w q s1))"
    "quiet s (snd (NewForbiddenHandler (Some a) (\<lambda>w r. http_Error w msg code) w q s1))"
  unfolding NewUnauthenticatedHandler_def NewForbiddenHandler_def option.case
  by (rule quiet_trans [OF assms(2)], rule quiet_filter, simp_all add: transparent_chains [OF assms(1)] funcHandler_def quiet_decided)+

lemma quiet_error_handler:
  assumes "transparent_audit (p_auditor p)"
  shows "quiet s (snd (newErrorHandler ev p w q eo s))"
proof -
  have d: "quiet s s1 \<Longrightarrow> quiet s (logDenied p q reason e s1)" for s1 reason e
    by (rule quiet_trans [OF _ quiet_logDenied])
  have t: "quiet s (Emit rid l ev as (WithTermination q x y s))" for rid l ev as x y
    by (simp add: WithTermination_def quiet_def frame)
  show ?thesis
  proof (cases eo)
    case None
    then show ?thesis by (simp add: newErrorHandler_def Let_def quiet_http_Error)
  next
    case (Some e)
    show ?thesis
      unfolding newErrorHandler_def Let_def Some option.case
      by (simp add: if_distrib [of snd] if_distrib [of "quiet s"] quiet_http_Error quiet_audited_error [OF assms] d t
          quiet_logAnomaly logHandlerFailed_def)
  qed
qed

lemma quiet_upgrade:
  assumes "transparent_audit (p_auditor p)"
  shows "quiet s (snd (handleUpgradeResponse (newErrorHandler ev p) w q up res s))"
proof -
  obtain er s1 where h: "rw_Hijack w s = (er, s1)" by (metis surj_pair)
  then have d: "decided s1 = decided s" using decided_rw(4) [of w s] by simp
  then have "quiet s (snd (newErrorHandler ev p w q eo s1))" for eo
    by (rule quiet_trans [OF quiet_decided quiet_error_handler [OF assms]])
  then show ?thesis
    using d quiet_error_handler [OF assms] by (auto simp: handleUpgradeResponse_def Let_def h quiet_decided split: option.splits)
qed

lemma quiet_proxyHandler:
  assumes "transparent_audit (p_auditor p)"
  shows "quiet s (snd (proxyHandler ev p w q s))"
proof (cases "ascii_print (upgradeType (Header q))")
  case True
  obtain infos r q1 s1 where rt: "RoundTrip ev p (outgoing q) s = ((infos, r), q1, s1)" by (metis prod_cases3 surj_pair)
  let ?s2 = "fold (\<lambda>c s. rw_WriteHeader w c s) (filter informational infos) s1"
  have "quiet s s1" using quiet_RoundTrip [of s ev p "outgoing q"] rt by simp
  then have q2: "quiet s ?s2" using quiet_trans quiet_decided [OF decided_informational] by blast
  have "quiet ?s2 (snd (proxyHandler ev p w q s))"
    using True quiet_error_handler [OF assms] quiet_upgrade [OF assms]
    by (auto simp: proxyHandler_def ReverseProxy_def Let_def rt case_prod_beta quiet_decided decided_copyResponse split: trip.splits)
  then show ?thesis by (rule quiet_trans [OF q2])
next
  case False
  then show ?thesis using quiet_error_handler [OF assms] by (simp add: proxyHandler_def ReverseProxy_def Let_def)
qed

lemma quiet_base:
  assumes "transparent_audit (p_auditor p)"
  shows "quiet s (snd (WithRequest (p_auditor p) (proxyHandler ev p) w q s))"
  by (rule quiet_filter [OF transparent_chains(2) [OF assms] quiet_proxyHandler [OF assms]])

lemma quiet_apply:
  assumes "transparent_audit (p_auditor p)"
  shows "quiet s (snd (apply_impersonation ev p (WithRequest (p_auditor p) (proxyHandler ev p)) w q u t a s))"
  using quiet_error_handler [OF assms] quiet_trans [OF quiet_telemetry(1) quiet_base [OF assms]]
  by (simp add: apply_impersonation_def Let_def split: sum.splits)

end
