(* ===== verification/Chain.thy ===== *)
theory Chain
  imports Quiet
begin

text \<open>
  The composed request path: which calls reach the API server. The filters are taken from the inside
  out; each lemma says that serving a request through the filter makes exactly one decision, and that
  a call is sent only under the conditions the filter enforces.
\<close>

section \<open>What is relied on of the outside\<close>

text \<open>\<open>Run\<close> builds the transport without credentials when the configuration can need it.\<close>

definition wired :: "env \<Rightarrow> proxy \<Rightarrow> bool" where
  "wired ev p = (DisableImpersonation (p_config p) \<or> TokenReviewEnabled (p_config p) \<longrightarrow>
     ev_noAuthClientTransport ev \<noteq> None)"

text \<open>
  The bearer-token authenticator takes the credential off the request and leaves the other headers
  as they are.
\<close>

definition keeps_headers :: "env \<Rightarrow> bool" where
  "keeps_headers ev = (\<forall>a s. canonical_header (Header a) \<longrightarrow>
     canonical_header (oa_header (ev_AuthenticateRequest ev a s)) \<and>
     (\<forall>k. canonical_key k \<notin> {''Authorization'', ''Sec-Websocket-Protocol''} \<longrightarrow>
        hdr_values (oa_header (ev_AuthenticateRequest ev a s)) k = hdr_values (Header a) k))"

definition outcome :: "proxy \<Rightarrow> life \<Rightarrow> (up_call \<Rightarrow> bool) \<Rightarrow> world \<Rightarrow> panic option \<times> world \<Rightarrow> bool" where
  "outcome p lf P s rs = (\<exists>ups. one_decision p lf s (snd rs) ups \<and> (ups = [] \<or> (\<exists>c. ups = [c] \<and> P c)))"

lemma outcome_before: "calm lf s s1 \<Longrightarrow> outcome p lf P s1 rs \<Longrightarrow> outcome p lf P s rs"
  unfolding outcome_def by (blast intro: one_decision_calm(1))

lemma outcome_mono: "outcome p lf P s rs \<Longrightarrow> (\<And>c. P c \<Longrightarrow> Q c) \<Longrightarrow> outcome p lf Q s rs"
  unfolding outcome_def by blast

lemma outcome_error:
  "transparent_audit (p_auditor p) \<Longrightarrow> decisionKey (Ctx r) \<Longrightarrow> \<not> rs_recorded s \<Longrightarrow> refusal e \<Longrightarrow>
   outcome p lf P s (newErrorHandler ev p (Rec lf) r (Some e) s)"
  unfolding outcome_def using error_handler_one by blast

lemma refusal_sentinels [simp]:
  "refusal (Sentinel ErrUnauthorized)" "refusal (Sentinel ErrNoName)" "refusal (wrap_text ErrReservedIdentity t)"
  by (simp_all add: refusal_def)

lemma calm_unrecorded: "calm lf s s1 \<Longrightarrow> rs_recorded s1 = rs_recorded s"
  by (simp add: calm_def)

section \<open>The innermost handler\<close>

lemma with_info_fields [simp]:
  "Header (with_info ri q) = Header q" "RemoteAddress (with_info ri q) = RemoteAddress q"
  "NoImpersonation (with_info ri q) = NoImpersonation q" "ImpersonationConfig (with_info ri q) = ImpersonationConfig q"
  "BearerToken (with_info ri q) = BearerToken q" "decisionKey (Ctx (with_info ri q)) = decisionKey (Ctx q)"
  "ready ev (with_info ri q) = ready ev q" "UserFrom (with_info ri q) = UserFrom q"
  by (simp_all add: with_info_def NoImpersonation_def ImpersonationConfig_def BearerToken_def ready_def UserFrom_def)

lemma outcome_transparent:
  assumes F: "transparent F"
    and h: "\<And>ri s1. \<not> rs_recorded s1 \<Longrightarrow> outcome p lf P s1 (h (Rec lf) (with_info ri q) s1)"
    and rec: "\<not> rs_recorded s"
  shows "outcome p lf P s (F h (Rec lf) q s)"
proof -
  obtain ri s1 r s2 s3 where *: "audit_only s s1" "h (Rec lf) (with_info ri q) s1 = (r, s2)" "audit_only s2 s3"
    "F h (Rec lf) q s = (r, s3)"
    using transparentE [OF F] .
  have "calm lf s s1" using calm_audit_only [OF *(1)] .
  then have "outcome p lf P s1 (r, s2)" using h [of s1 ri] *(2) calm_unrecorded rec by metis
  then have "outcome p lf P s (r, s2)" using outcome_before \<open>calm lf s s1\<close> by blast
  then show ?thesis
    unfolding outcome_def *(4) snd_conv using one_decision_calm(2) [OF _ calm_audit_only [OF *(3)]] by blast
qed

abbreviation base_handler :: "env \<Rightarrow> proxy \<Rightarrow> handler" where
  "base_handler ev p \<equiv> WithRequest (p_auditor p) (proxyHandler ev p)"

lemma base_outcome:
  assumes "transparent_audit (p_auditor p)" "ready ev q" "\<not> rs_recorded s"
  shows "outcome p lf (\<lambda>c. \<exists>ri. c = sent_call (outgoing (with_info ri q))) s (base_handler ev p (Rec lf) q s)"
proof (rule outcome_transparent [OF transparent_chains(2) [OF assms(1)] _ assms(3)])
  fix ri and s1 :: world
  assume "\<not> rs_recorded s1"
  then show "outcome p lf (\<lambda>c. \<exists>ri. c = sent_call (outgoing (with_info ri q))) s1 (proxyHandler ev p (Rec lf) (with_info ri q) s1)"
    using ReverseProxy_one [OF assms(1), of ev "with_info ri q" s1 lf] assms(2) unfolding outcome_def by auto
qed

section \<open>Errors of the impersonation check\<close>

lemma liveCheck_error: "liveCheck env sr sp s = ((a, Some e), s') \<Longrightarrow> err_is e ErrCreateSubjectAccessReview"
  by (auto simp: liveCheck_def Let_def case_prod_beta split: option.splits)

lemma timed_error: "timedLiveCheck env sr q rid k co sp s = ((a, Some e), s') \<Longrightarrow> err_is e ErrCreateSubjectAccessReview"
  by (auto simp: timedLiveCheck_def Let_def split: prod.splits dest: liveCheck_error)

lemma flight_error: "flight_fn env sr key sp s = ((a, Some e), s') \<Longrightarrow> err_is e ErrCreateSubjectAccessReview"
  by (auto simp: flight_fn_def Let_def split: prod.splits option.splits dest: liveCheck_error)

lemma shared_error: "sharedLiveCheck env sr q rid k key sp s = ((a, Some e), s') \<Longrightarrow> err_is e ErrCreateSubjectAccessReview"
  by (auto simp: sharedLiveCheck_def Let_def split: prod.splits option.splits if_splits dest: flight_error timed_error)

lemma checkRbac_error:
  "checkRbacImpersonationAuthorization env sr rid res n u s = ((a, Some e), s') \<Longrightarrow> err_is e ErrCreateSubjectAccessReview"
  by (auto simp: checkRbacImpersonationAuthorization_def Let_def split: prod.splits option.splits dest: shared_error timed_error)

lemma check_values_error:
  "check_values env sr rid res u deny vs s = (Some e, s') \<Longrightarrow> err_is e ErrCreateSubjectAccessReview \<or> e \<in> range deny"
  by (induction vs arbitrary: s)
     (auto simp: Let_def split: prod.splits option.splits if_splits dest: checkRbac_error)

definition sar_error :: "err \<Rightarrow> bool" where
  "sar_error e = (err_is e ErrCreateSubjectAccessReview \<or> err_is e ErrImpersonationNotAllowed \<or>
     err_is e ErrorNoImpersonationUserFound \<or> err_is e ErrTooManyImpersonationHeaderValues \<or> (\<exists>t. e = NewError t))"

lemma imp_header_error: "imp_header env sr rid u k vs t s = (Inl (SarErr e), s') \<Longrightarrow> sar_error e"
  by (auto simp: imp_header_def Let_def sar_error_def simp del: check_values.simps
      split: if_splits list.splits option.splits prod.splits dest!: check_values_error)

lemma imp_loop_error: "imp_loop env sr rid u hu h t s = (Inl (SarErr e), s') \<Longrightarrow> sar_error e"
proof (induction h arbitrary: t s)
  case (Cons kv h)
  obtain k vs where kv: "kv = (k, vs)" by (cases kv)
  show ?case
  proof (cases "\<not> impersonation_key k \<or> \<not> hu")
    case True
    then show ?thesis using Cons kv by (auto simp: sar_error_def split: if_splits)
  next
    case False
    then show ?thesis using Cons kv by (auto split: prod.splits sum.splits dest: imp_header_error)
  qed
qed simp

lemma Check_error: "CheckAuthorizedForImpersonation env sr q u s = (SarErr e, q', s') \<Longrightarrow> sar_error e"
  by (auto simp: CheckAuthorizedForImpersonation_def Let_def sar_error_def [of "wrap_text s t" for s t]
      split: if_splits prod.splits sum.splits dest!: imp_loop_error)

lemma sar_error_refusal: "sar_error e \<Longrightarrow> refusal e"
  by (auto simp: sar_error_def refusal_def isUpstreamTransportError_def)

lemma Check_none:
  "CheckAuthorizedForImpersonation env sr q u s = (SarOk None, q', s') \<Longrightarrow> \<not> list_ex (impersonation_key \<circ> fst) (Header q)"
  using imp_loop_Inl by (auto simp: CheckAuthorizedForImpersonation_def Let_def split: if_splits prod.splits sum.splits dest!: imp_loop_Inl)

lemma Check_request:
  "CheckAuthorizedForImpersonation env sr q u s = (SarOk (Some t), q', s') \<Longrightarrow>
   q' = q\<lparr>Header := kept_headers (Header q) (Header q) []\<rparr>"
  by (auto simp: CheckAuthorizedForImpersonation_def Let_def split: if_splits prod.splits sum.splits dest!: imp_loop_Inl)

lemma Check_fields:
  "CheckAuthorizedForImpersonation env sr q u s = (res, q', s') \<Longrightarrow> Ctx q' = Ctx q \<and> RemoteAddress q' = RemoteAddress q"
  by (auto simp: CheckAuthorizedForImpersonation_def Let_def split: if_splits prod.splits sum.splits)

lemma hasImpersonation_iff: "hasImpersonation h = list_ex (impersonation_key \<circ> fst) h"
  by (simp add: hasImpersonation_def impersonation_key_def list_ex_iff case_prod_beta)

section \<open>Impersonation\<close>

text \<open>The same request with other context values.\<close>

definition recontext :: "request \<Rightarrow> request \<Rightarrow> bool" where
  "recontext q b = (\<exists>c. b = q\<lparr>Ctx := c\<rparr>)"

lemma recontext_fields:
  "recontext q b \<Longrightarrow> Header b = Header q \<and> RemoteAddress b = RemoteAddress q \<and> Method b = Method q \<and> URLPath b = URLPath q"
  by (auto simp: recontext_def)

lemma recontext_refl [simp]: "recontext q q"
  unfolding recontext_def by (rule exI [of _ "Ctx q"]) simp

lemma recontext_trans: "recontext q b \<Longrightarrow> recontext b c \<Longrightarrow> recontext q c"
  by (auto simp: recontext_def)

lemma recontext_intros [simp]:
  "recontext q (with_info ri q)" "recontext q (WithNoImpersonation q)" "recontext q (WithImpersonationConfig q conf)"
  "recontext q (fst (RemoteAddr tr q))" "recontext q (withAuthMethod q m)" "recontext q (WithUser q u)" "recontext q (WithIssuerName q n)"
  by (auto simp: recontext_def with_info_def WithNoImpersonation_def WithImpersonationConfig_def Let_def RemoteAddr_def
      withAuthMethod_def WithUser_def WithIssuerName_def split: option.splits intro: exI [of _ "Ctx q"])

text \<open>
  The calls the impersonation filter lets through, from a request \<open>q\<close> arriving in state \<open>s\<close> and left in
  state \<open>s'\<close>: \<open>b\<close> is the request as handed to the reverse proxy. The reviews the impersonation check sent
  are those of \<open>s'\<close>.
\<close>

definition plain_call :: "request \<Rightarrow> up_call" where
  "plain_call b = UpNoAuth ((outgoing b)\<lparr>Header := hdr_add (Header (outgoing b)) ''Authorization'' (BearerToken b)\<rparr>)"

inductive imp_admits :: "env \<Rightarrow> proxy \<Rightarrow> request \<Rightarrow> world \<Rightarrow> world \<Rightarrow> up_call \<Rightarrow> bool" for ev p q s s' where
  passthrough: "NoImpersonation q \<Longrightarrow> recontext q b \<Longrightarrow> BearerToken b = BearerToken q \<Longrightarrow> quiet s s' \<Longrightarrow>
    imp_admits ev p q s s' (plain_call b)"
| disabled: "\<not> NoImpersonation q \<Longrightarrow> DisableImpersonation (p_config p) \<Longrightarrow> recontext q b \<Longrightarrow> BearerToken b = BearerToken q \<Longrightarrow>
    imp_admits ev p q s s' (plain_call b)"
| self: "\<not> NoImpersonation q \<Longrightarrow> \<not> DisableImpersonation (p_config p) \<Longrightarrow> UserFrom q = Some u \<Longrightarrow> u_name u \<noteq> [] \<Longrightarrow>
    \<not> hasImpersonation (Header q) \<Longrightarrow>
    impersonation_config (p_config p) u None (snd (RemoteAddr (p_trustedProxies p) q)) = Inr conf \<Longrightarrow>
    recontext q b \<Longrightarrow> imp_admits ev p q s s' (UpImpersonated conf (outgoing b))"
| target: "\<not> NoImpersonation q \<Longrightarrow> \<not> DisableImpersonation (p_config p) \<Longrightarrow> UserFrom q = Some u \<Longrightarrow> u_name u \<noteq> [] \<Longrightarrow>
    CheckAuthorizedForImpersonation (ev_sar ev) (p_subjectAccessReviewer p) (fst (RemoteAddr (p_trustedProxies p) q)) u s =
      (SarOk (Some t), q2, s2) \<Longrightarrow> quiet s2 s' \<Longrightarrow>
    impersonation_config (p_config p) u (Some t) (snd (RemoteAddr (p_trustedProxies p) q)) = Inr conf \<Longrightarrow>
    recontext q2 b \<Longrightarrow> imp_admits ev p q s s' (UpImpersonated conf (outgoing b))"

lemma json_total: "\<exists>conf. impersonation_config cfg u t a = Inr conf"
  by (simp add: impersonation_config_def original_extras_def json_Marshal_def Let_def split: option.splits)

lemma WithImpersonationConfig_fields [simp]:
  "ImpersonationConfig (WithImpersonationConfig q conf) = Some conf"
  "NoImpersonation (WithImpersonationConfig q conf) = NoImpersonation q"
  "decisionKey (Ctx (WithImpersonationConfig q conf)) = decisionKey (Ctx q)"
  by (simp_all add: WithImpersonationConfig_def ImpersonationConfig_def NoImpersonation_def Let_def split: option.splits)

lemma apply_outcome:
  assumes "transparent_audit (p_auditor p)" "decisionKey (Ctx q)" "\<not> rs_recorded s" "\<not> NoImpersonation q"
    "impersonation_config (p_config p) u t a = Inr conf"
  shows "outcome p lf (\<lambda>c. \<exists>b. recontext q b \<and> c = UpImpersonated conf (outgoing b)) s
    (apply_impersonation ev p (base_handler ev p) (Rec lf) q u t a s)"
proof -
  let ?ir = "\<lparr>r_ImpersonationConfig = conf, r_InboundUser = Some u, r_ImpersonatedUser = t\<rparr>"
  let ?q = "WithImpersonationConfig q ?ir"
  let ?s1 = "Emit (RequestIDFrom q) (FromContext q) EventRequestImpersonationApplied
    [(''outbound_user'', AStr (Bound (i_UserName conf) MaxIdentity)),
     (''impersonated_header_names'', AStrs (impersonatedHeaderNames conf))] s"
  have c: "calm lf s ?s1" by (simp add: calm_Emit)
  have "ready ev ?q" using assms(2,4) by (simp add: ready_def)
  moreover have "\<not> rs_recorded ?s1" using calm_unrecorded [OF c] assms(3) by simp
  ultimately have "outcome p lf (\<lambda>c. \<exists>ri. c = sent_call (outgoing (with_info ri ?q))) ?s1 (base_handler ev p (Rec lf) ?q ?s1)"
    by (rule base_outcome [OF assms(1)])
  then have "outcome p lf (\<lambda>c. \<exists>b. recontext q b \<and> c = UpImpersonated conf (outgoing b)) ?s1 (base_handler ev p (Rec lf) ?q ?s1)"
  proof (rule outcome_mono)
    fix c
    assume "\<exists>ri. c = sent_call (outgoing (with_info ri ?q))"
    then obtain ri where "c = sent_call (outgoing (with_info ri ?q))" ..
    moreover have "recontext q (with_info ri ?q)" by (rule recontext_trans [of _ ?q]) simp_all
    moreover have "NoImpersonation (outgoing x) = NoImpersonation x" "ImpersonationConfig (outgoing x) = ImpersonationConfig x" for x
      by (simp_all add: NoImpersonation_def ImpersonationConfig_def)
    ultimately show "\<exists>b. recontext q b \<and> c = UpImpersonated conf (outgoing b)"
      using assms(4) by (auto simp: sent_call_def)
  qed
  then show ?thesis using outcome_before [OF c] assms(5) by (simp add: apply_impersonation_def Let_def)
qed

lemma skip_outcome:
  assumes "transparent_audit (p_auditor p)" "ready ev q" "NoImpersonation q" "\<not> rs_recorded s"
  shows "outcome p lf (\<lambda>c. \<exists>b. recontext q b \<and> BearerToken b = BearerToken q \<and> c = plain_call b) s
    (base_handler ev p (Rec lf) q (Emit rid l EventRequestImpersonationSkipped as s))"
proof (rule outcome_before [OF calm_Emit [OF unwatched_events(6)]])
  have rec: "\<not> rs_recorded (Emit rid l EventRequestImpersonationSkipped as s)"
    using assms(4) by (simp add: frame)
  have "NoImpersonation (outgoing x) = NoImpersonation x" "BearerToken (outgoing x) = BearerToken x" for x
    by (simp_all add: NoImpersonation_def BearerToken_def)
  then have "sent_call (outgoing (with_info ri q)) = plain_call (with_info ri q)" for ri
    using assms(3) by (simp add: sent_call_def plain_call_def)
  then show "outcome p lf (\<lambda>c. \<exists>b. recontext q b \<and> BearerToken b = BearerToken q \<and> c = plain_call b)
      (Emit rid l EventRequestImpersonationSkipped as s)
      (base_handler ev p (Rec lf) q (Emit rid l EventRequestImpersonationSkipped as s))"
    by (intro outcome_mono [OF base_outcome [OF assms(1,2) rec]], elim exE, intro exI [of _ "with_info _ q"] conjI) simp_all
qed

lemma RemoteAddr_keeps [simp]:
  "decisionKey (Ctx (fst (RemoteAddr tr q))) = decisionKey (Ctx q)" "UserFrom (fst (RemoteAddr tr q)) = UserFrom q"
  "NoImpersonation (fst (RemoteAddr tr q)) = NoImpersonation q" "BearerToken (fst (RemoteAddr tr q)) = BearerToken q"
  "Header (fst (RemoteAddr tr q)) = Header q" "RemoteAddress (fst (RemoteAddr tr q)) = RemoteAddress q"
  by (simp_all add: RemoteAddr_def UserFrom_def NoImpersonation_def BearerToken_def Let_def split: option.splits)

lemma WithNoImpersonation_fields [simp]:
  "NoImpersonation (WithNoImpersonation q)" "BearerToken (WithNoImpersonation q) = BearerToken q"
  "decisionKey (Ctx (WithNoImpersonation q)) = decisionKey (Ctx q)" "UserFrom (WithNoImpersonation q) = UserFrom q"
  "Header (WithNoImpersonation q) = Header q" "RemoteAddress (WithNoImpersonation q) = RemoteAddress q"
  by (simp_all add: WithNoImpersonation_def NoImpersonation_def BearerToken_def UserFrom_def)

text \<open>The last part of the filter: the caller has a name, impersonation is on.\<close>

definition impersonate_user :: "env \<Rightarrow> proxy \<Rightarrow> rwriter \<Rightarrow> request \<Rightarrow> user_info \<Rightarrow> string \<Rightarrow> world \<Rightarrow> panic option \<times> world" where
  "impersonate_user ev p w q1 u a s =
     (if hasImpersonation (Header q1) then
        (case CheckAuthorizedForImpersonation (ev_sar ev) (p_subjectAccessReviewer p) q1 u s of
           (SarPanic, req1, s1) \<Rightarrow> (Some (PanicValue ''index out of range''), s1)
         | (SarErr e, req1, s1) \<Rightarrow> newErrorHandler ev p w req1 (Some e) s1
         | (SarOk target, req1, s1) \<Rightarrow> apply_impersonation ev p (base_handler ev p) w req1 u target a s1)
      else apply_impersonation ev p (base_handler ev p) w q1 u None a s)"

lemma withImpersonate_user:
  assumes "\<not> NoImpersonation q" "\<not> DisableImpersonation (p_config p)" "UserFrom q = Some u" "u_name u \<noteq> []"
  shows "withImpersonateRequest ev p (base_handler ev p) w q s =
    impersonate_user ev p w (fst (RemoteAddr (p_trustedProxies p) q)) u (snd (RemoteAddr (p_trustedProxies p) q)) s"
proof -
  obtain q1 a where r: "RemoteAddr (p_trustedProxies p) q = (q1, a)" by (metis surj_pair)
  then have "UserFrom q1 = Some u" using RemoteAddr_keeps(2) [of "p_trustedProxies p" q] assms(3) by simp
  then show ?thesis using assms r by (simp add: withImpersonateRequest_def impersonate_user_def)
qed

lemma impersonate_user_outcome:
  assumes tr: "transparent_audit (p_auditor p)" and rec: "\<not> rs_recorded s"
    and no: "\<not> NoImpersonation q" and dis: "\<not> DisableImpersonation (p_config p)" and u: "UserFrom q = Some u"
    and named: "u_name u \<noteq> []" and wf: "wf_header (Header q)" and k: "decisionKey (Ctx q)"
    and rs: "rs = impersonate_user ev p (Rec lf) (fst (RemoteAddr (p_trustedProxies p) q)) u (snd (RemoteAddr (p_trustedProxies p) q)) s"
  shows "outcome p lf (imp_admits ev p q s (snd rs)) s rs"
proof -
  define q1 a where "q1 = fst (RemoteAddr (p_trustedProxies p) q)" and "a = snd (RemoteAddr (p_trustedProxies p) q)"
  have q1: "decisionKey (Ctx q1)" "\<not> NoImpersonation q1" "Header q1 = Header q" "recontext q q1"
    using k no by (simp_all add: q1_def)
  show ?thesis
  proof (cases "hasImpersonation (Header q)")
    case False
    obtain conf where conf: "impersonation_config (p_config p) u None a = Inr conf" using json_total by blast
    have "imp_admits ev p q s (snd rs) c" if "\<exists>b. recontext q1 b \<and> c = UpImpersonated conf (outgoing b)" for c
      using that imp_admits.self [OF no dis u named False, of conf] conf q1(4) recontext_trans by (auto simp: a_def)
    then have "outcome p lf (imp_admits ev p q s (snd rs)) s (apply_impersonation ev p (base_handler ev p) (Rec lf) q1 u None a s)"
      by (rule outcome_mono [OF apply_outcome [OF tr q1(1) rec q1(2) conf]])
    then show ?thesis using False q1(3) by (simp add: rs impersonate_user_def q1_def [symmetric] a_def [symmetric])
  next
    case True
    obtain res q2 s2 where chk: "CheckAuthorizedForImpersonation (ev_sar ev) (p_subjectAccessReviewer p) q1 u s = (res, q2, s2)"
      by (metis prod_cases3)
    have c2: "calm lf s s2" using calm_Check [of lf s "ev_sar ev" "p_subjectAccessReviewer p" q1 u] chk by simp
    have rec2: "\<not> rs_recorded s2" using calm_unrecorded [OF c2] rec by simp
    have q2: "decisionKey (Ctx q2)" "\<not> NoImpersonation q2"
      using Check_fields [OF chk] q1(1,2) by (simp_all add: NoImpersonation_def)
    show ?thesis
    proof (cases res)
      case SarPanic
      then have False
        using Check_no_panic [of q1 "ev_sar ev" "p_subjectAccessReviewer p" u s] chk wf q1(3) by simp
      then show ?thesis ..
    next
      case (SarErr e)
      have "refusal e" using Check_error chk SarErr sar_error_refusal by blast
      from outcome_before [OF c2 outcome_error [OF tr q2(1) rec2 this]] show ?thesis
        using chk SarErr True q1(3) by (simp add: rs impersonate_user_def q1_def [symmetric])
    next
      case (SarOk target)
      then obtain t where t: "target = Some t"
        using Check_none [of "ev_sar ev" "p_subjectAccessReviewer p" q1 u s q2 s2] chk True q1(3)
        by (cases target) (auto simp: hasImpersonation_iff)
      obtain conf where conf: "impersonation_config (p_config p) u (Some t) a = Inr conf" using json_total by blast
      have rs2: "rs = apply_impersonation ev p (base_handler ev p) (Rec lf) q2 u (Some t) a s2"
        using chk SarOk t True q1(3) by (simp add: rs impersonate_user_def q1_def [symmetric] a_def [symmetric])
      have "imp_admits ev p q s (snd rs) c" if "\<exists>b. recontext q2 b \<and> c = UpImpersonated conf (outgoing b)" for c
        using that imp_admits.target [OF no dis u named] chk SarOk t conf quiet_apply [OF tr] by (auto simp: rs2 q1_def a_def)
      then show ?thesis
        unfolding rs2 by (rule outcome_mono [OF outcome_before [OF c2 apply_outcome [OF tr q2(1) rec2 q2(2) conf]]])
    qed
  qed
qed

lemma impersonate_outcome:
  assumes tr: "transparent_audit (p_auditor p)" and w: "wired ev p" and k: "decisionKey (Ctx q)"
    and wf: "wf_header (Header q)" and rec: "\<not> rs_recorded s"
    and no: "NoImpersonation q \<longrightarrow> TokenReviewEnabled (p_config p)"
    and rs: "rs = withImpersonateRequest ev p (base_handler ev p) (Rec lf) q s"
  shows "outcome p lf (imp_admits ev p q s (snd rs)) s rs"
proof (cases "NoImpersonation q")
  case True
  then have "ready ev q" using k w no by (simp add: ready_def wired_def)
  note skip = outcome_mono [OF skip_outcome [OF tr this True rec], of "imp_admits ev p q s (snd rs)"]
  have "quiet s (snd rs)"
    using True quiet_trans [OF quiet_telemetry(1) quiet_base [OF tr]] by (simp add: rs withImpersonateRequest_def)
  then have "imp_admits ev p q s (snd rs) c" if "\<exists>b. recontext q b \<and> BearerToken b = BearerToken q \<and> c = plain_call b" for c
    using that True imp_admits.passthrough by blast
  from skip [OF this] True show ?thesis by (simp add: rs withImpersonateRequest_def)
next
  case no: False
  define q1 a where "q1 = fst (RemoteAddr (p_trustedProxies p) q)" and "a = snd (RemoteAddr (p_trustedProxies p) q)"
  have q1: "decisionKey (Ctx q1)" "UserFrom q1 = UserFrom q" "\<not> NoImpersonation q1" "Header q1 = Header q" "recontext q q1"
    "BearerToken q1 = BearerToken q"
    using k no by (simp_all add: q1_def)
  show ?thesis
  proof (cases "DisableImpersonation (p_config p)")
    case True
    have "ready ev (WithNoImpersonation q1)" using q1(1) w True by (simp add: ready_def wired_def)
    note skip = outcome_mono [OF skip_outcome [OF tr this WithNoImpersonation_fields(1) rec], of "imp_admits ev p q s (snd rs)"]
    have "imp_admits ev p q s (snd rs) c" if "\<exists>b. recontext (WithNoImpersonation q1) b \<and> BearerToken b = BearerToken (WithNoImpersonation q1) \<and> c = plain_call b" for c
      using that q1(5,6) no True by (metis imp_admits.disabled recontext_intros(2) recontext_trans WithNoImpersonation_fields(2))
    from skip [OF this] no True show ?thesis
      by (simp add: rs withImpersonateRequest_def Let_def case_prod_beta q1_def [symmetric])
  next
    case dis: False
    have err: "outcome p lf (imp_admits ev p q s (snd rs)) s (newErrorHandler ev p (Rec lf) q1 (Some (Sentinel ErrNoName)) s)"
      by (rule outcome_error [OF tr q1(1) rec]) simp
    show ?thesis
    proof (cases "UserFrom q")
      case None
      then show ?thesis
        using err no dis q1(2) by (simp add: rs withImpersonateRequest_def Let_def case_prod_beta q1_def [symmetric])
    next
      case (Some u)
      show ?thesis
      proof (cases "u_name u = []")
        case True
        then show ?thesis
          using err no dis q1(2) Some by (simp add: rs withImpersonateRequest_def Let_def case_prod_beta q1_def [symmetric])
      next
        case named: False
        show ?thesis
          by (rule impersonate_user_outcome [OF tr rec no dis Some named wf k])
             (simp add: rs withImpersonate_user [OF no dis Some named])
      qed
    qed
  qed
qed

end
