(* ===== verification/Gate.thy ===== *)
theory Gate
  imports Chain
begin

text \<open>
  The contract of the whole proxy. \<open>admits\<close> is the abstract specification of which calls may reach the
  API server: four rules, one per way a request can be let through. The theorems say that serving any
  request -- through every filter, on every error path -- sends at most one call and only an admitted
  one, makes exactly one access decision that says "allow" precisely when a call was sent, and leaves
  the gauges balanced with one terminal record; and what follows for identities, headers and
  addresses.
\<close>

section \<open>Canonical header names\<close>

lemma upper_char_byte: "97 \<le> byte_of c \<Longrightarrow> byte_of c \<le> 122 \<Longrightarrow> byte_of (upper_char c) = byte_of c - 32"
  by (auto simp: upper_char_def intro!: mod_less)

lemma upper_char_dash: "upper_char c = CHR ''-'' \<longleftrightarrow> c = CHR ''-''"
proof
  assume eq: "upper_char c = CHR ''-''"
  show "c = CHR ''-''"
  proof (cases "97 \<le> byte_of c \<and> byte_of c \<le> 122")
    case True
    have "byte_of (upper_char c) = 45" by (simp add: eq)
    then have "byte_of c = 77" using True upper_char_byte [of c] by linarith
    then show ?thesis using True by simp
  qed (use eq in \<open>auto simp: upper_char_def\<close>)
qed (simp add: upper_char_def)

lemma upper_char_idem [simp]: "upper_char (upper_char c) = upper_char c"
  by (auto simp: upper_char_def)

lemma canon_chars_idem: "canon_chars up (canon_chars up k) = canon_chars up k"
  by (induction k arbitrary: up) (auto simp: upper_char_dash lower_char_dash)

lemma valid_header_byte_upper: "valid_header_byte (upper_char c) = valid_header_byte c"
proof (cases "97 \<le> byte_of c \<and> byte_of c \<le> 122")
  case True
  then have "65 \<le> byte_of (upper_char c)" "byte_of (upper_char c) \<le> 90" by (auto simp: upper_char_byte)
  with True show ?thesis by (simp add: valid_header_byte_def)
next
  case False
  then have "upper_char c = c" unfolding upper_char_def by (rule if_not_P)
  then show ?thesis by simp
qed

lemma list_all_canon: "list_all valid_header_byte (canon_chars up k) = list_all valid_header_byte k"
  by (induction k arbitrary: up) (auto simp: valid_header_byte_upper valid_header_byte_lower)

lemma canonical_key_idem [simp]: "canonical_key (canonical_key k) = canonical_key k"
  by (simp add: canonical_key_def list_all_canon canon_chars_idem)

lemma canonical_hdr_put: "canonical_header h \<Longrightarrow> vs \<noteq> [] \<Longrightarrow> canonical_header (hdr_put h (canonical_key k) vs)"
  using set_hdr_put [of h "canonical_key k" vs] by (auto simp: canonical_header_def wf_hdr_put)

lemma canonical_hdr [simp]:
  "canonical_header h \<Longrightarrow> canonical_header (hdr_set h k v)" "canonical_header h \<Longrightarrow> canonical_header (hdr_add h k v)"
  "canonical_header h \<Longrightarrow> canonical_header (hdr_del h k)"
proof -
  have "set (hdr_del h k) \<subseteq> set h" by (auto simp: hdr_del_def)
  then show "canonical_header h \<Longrightarrow> canonical_header (hdr_del h k)"
    using wf_hdr_del by (fastforce simp: canonical_header_def)
qed (simp_all add: hdr_set_def hdr_add_def canonical_hdr_put)

section \<open>The specification\<close>

definition client_addr :: "proxy \<Rightarrow> request \<Rightarrow> string" where
  "client_addr p q = snd (RemoteAddr (p_trustedProxies p) q)"

text \<open>The token of request \<open>a\<close> was accepted, and the identity is not a reserved one.\<close>

definition accepted :: "env \<Rightarrow> proxy \<Rightarrow> request \<Rightarrow> world \<Rightarrow> oidc_answer \<Rightarrow> bool" where
  "accepted ev p a s ans = (ans = ev_AuthenticateRequest ev a s \<and> oa_err ans = None \<and> oa_ok ans \<and>
     checkReservedIdentity (oa_User ans) (p_allowedReservedGroups p) = None)"

text \<open>
  The calls that may be sent for a request \<open>a\<close> arriving at the authentication filter in state \<open>s\<close> and left
  in state \<open>s'\<close>: its
  token was refused as an OIDC token but accepted by the token reviewer; or it was accepted and
  impersonation is disabled; or it was accepted, has a user name and asks for no impersonation; or
  the impersonation it asks for was authorized. \<open>b\<close> is the request handed to the reverse proxy; after
  the review that lets a request through (which leaves \<open>s2\<close>) nothing more is asked, so \<open>s'\<close> holds its answers.
\<close>

inductive admits :: "env \<Rightarrow> proxy \<Rightarrow> request \<Rightarrow> world \<Rightarrow> world \<Rightarrow> up_call \<Rightarrow> bool" for ev p a s s' where
  reviewed: "ans = ev_AuthenticateRequest ev a s \<Longrightarrow> oa_err ans \<noteq> None \<Longrightarrow> TokenReviewEnabled (p_config p) \<Longrightarrow>
    ParseFromRequest (oa_header ans) = Some tok \<Longrightarrow> decided s1 = decided s \<Longrightarrow>
    p_tokenReviewer p rid tok s1 = ((resp, True, None), s2) \<Longrightarrow> quiet s2 s' \<Longrightarrow>
    recontext (a\<lparr>Header := oa_header ans\<rparr>) b \<Longrightarrow> BearerToken b = BearerToken a \<Longrightarrow> admits ev p a s s' (plain_call b)"
| disabled: "accepted ev p a s ans \<Longrightarrow> DisableImpersonation (p_config p) \<Longrightarrow>
    recontext (a\<lparr>Header := oa_header ans\<rparr>) b \<Longrightarrow> BearerToken b = BearerToken a \<Longrightarrow> admits ev p a s s' (plain_call b)"
| self: "accepted ev p a s ans \<Longrightarrow> \<not> DisableImpersonation (p_config p) \<Longrightarrow> u_name (oa_User ans) \<noteq> [] \<Longrightarrow>
    \<not> hasImpersonation (oa_header ans) \<Longrightarrow>
    impersonation_config (p_config p) (oa_User ans) None (client_addr p a) = Inr conf \<Longrightarrow>
    recontext (a\<lparr>Header := oa_header ans\<rparr>) b \<Longrightarrow> admits ev p a s s' (UpImpersonated conf (outgoing b))"
| target: "accepted ev p a s ans \<Longrightarrow> \<not> DisableImpersonation (p_config p) \<Longrightarrow> u_name (oa_User ans) \<noteq> [] \<Longrightarrow>
    recontext (a\<lparr>Header := oa_header ans\<rparr>) q \<Longrightarrow> decided s1 = decided s \<Longrightarrow>
    CheckAuthorizedForImpersonation (ev_sar ev) (p_subjectAccessReviewer p) q (oa_User ans) s1 = (SarOk (Some t), q2, s2) \<Longrightarrow>
    quiet s2 s' \<Longrightarrow>
    impersonation_config (p_config p) (oa_User ans) (Some t) (client_addr p a) = Inr conf \<Longrightarrow>
    recontext q2 b \<Longrightarrow> admits ev p a s s' (UpImpersonated conf (outgoing b))"

lemma admits_later: "admits ev p a s s' c \<Longrightarrow> quiet s' s'' \<Longrightarrow> admits ev p a s s'' c"
  by (induction rule: admits.induct) (blast intro: admits.intros quiet_trans)+

section \<open>Authentication\<close>

lemma ctx_simps [simp]:
  "decisionKey (Ctx (withAuthMethod q m)) = decisionKey (Ctx q)" "Header (withAuthMethod q m) = Header q"
  "NoImpersonation (withAuthMethod q m) = NoImpersonation q" "BearerToken (withAuthMethod q m) = BearerToken q"
  "decisionKey (Ctx (WithUser q u)) = decisionKey (Ctx q)" "Header (WithUser q u) = Header q"
  "NoImpersonation (WithUser q u) = NoImpersonation q" "BearerToken (WithUser q u) = BearerToken q"
  "UserFrom (WithUser q u) = Some u"
  "decisionKey (Ctx (WithIssuerName q n)) = decisionKey (Ctx q)" "Header (WithIssuerName q n) = Header q"
  "NoImpersonation (WithIssuerName q n) = NoImpersonation q" "BearerToken (WithIssuerName q n) = BearerToken q"
  "NoImpersonation (q\<lparr>Header := h\<rparr>) = NoImpersonation q" "BearerToken (q\<lparr>Header := h\<rparr>) = BearerToken q"
  "clientAddressKey (Ctx (WithIssuerName q n)) = clientAddressKey (Ctx q)"
  "clientAddressKey (Ctx (WithUser q u)) = clientAddressKey (Ctx q)"
  "clientAddressKey (Ctx (withAuthMethod q m)) = clientAddressKey (Ctx q)"
  "RemoteAddress (withAuthMethod q m) = RemoteAddress q" "RemoteAddress (WithUser q u) = RemoteAddress q"
  "RemoteAddress (WithIssuerName q n) = RemoteAddress q"
  by (simp_all add: withAuthMethod_def WithUser_def WithIssuerName_def NoImpersonation_def BearerToken_def UserFrom_def)

lemma client_addr_cong:
  assumes "clientAddressKey (Ctx q) = clientAddressKey (Ctx a)" "RemoteAddress q = RemoteAddress a"
    "hdr_values (Header q) ''X-Forwarded-For'' = hdr_values (Header a) ''X-Forwarded-For''"
  shows "client_addr p q = client_addr p a"
  using assms by (simp add: client_addr_def RemoteAddr_def forwardedFor_def hdr_get_def Let_def split: option.splits)

lemma reviewToken_accepts:
  assumes "reviewToken p q s = (True, s1)"
  obtains tok resp s0 where "ParseFromRequest (Header q) = Some tok"
    "p_tokenReviewer p (RequestIDFrom q) tok s = ((resp, True, None), s0)" "quiet s0 s1"
proof (cases "ParseFromRequest (Header q)")
  case None
  with assms show ?thesis by (simp add: reviewToken_def)
next
  case (Some tok)
  obtain resp ok er s0 where "p_tokenReviewer p (RequestIDFrom q) tok s = ((resp, ok, er), s0)" by (metis prod_cases3 surj_pair)
  moreover have "quiet s0 (AuthenticationAttempt r m oc s0)" for r m oc by (simp add: AuthenticationAttempt_def)
  ultimately show ?thesis using assms Some that by (cases er) (auto simp: reviewToken_def)
qed

lemma token_review_outcome:
  assumes tr: "transparent_audit (p_auditor p)" and w: "wired ev p" and rv: "calm_reviewer (p_tokenReviewer p)"
    and k: "decisionKey (Ctx q)" and wf: "wf_header (Header q)" and rec: "\<not> rs_recorded s"
    and rs: "rs = withTokenReview ev p (withImpersonateRequest ev p (base_handler ev p)) (Rec lf) q s"
  shows "outcome p lf (\<lambda>c. TokenReviewEnabled (p_config p) \<and>
      (\<exists>tok rid resp s2 b. ParseFromRequest (Header q) = Some tok \<and> p_tokenReviewer p rid tok s = ((resp, True, None), s2) \<and>
        quiet s2 (snd rs) \<and> recontext q b \<and> BearerToken b = BearerToken q \<and> c = plain_call b)) s rs"
    (is "outcome p lf ?P s _")
proof (cases "TokenReviewEnabled (p_config p)")
  case False
  then show ?thesis
    using outcome_error [OF tr k rec, of "Sentinel ErrUnauthorized"] by (simp add: rs withTokenReview_def)
next
  case True
  obtain ok s1 where r: "reviewToken p q s = (ok, s1)" by (metis surj_pair)
  have c: "calm lf s s1" using calm_reviewToken [OF rv, of lf s q] r by simp
  then have rec1: "\<not> rs_recorded s1" using rec by (simp add: calm_unrecorded)
  show ?thesis
  proof (cases ok)
    case no: False
    have "outcome p lf ?P s1 (newErrorHandler ev p (Rec lf) q (Some (Sentinel ErrUnauthorized)) s1)"
      by (rule outcome_error [OF tr k rec1]) simp
    then show ?thesis using outcome_before [OF c] r no True by (simp add: rs withTokenReview_def)
  next
    case yes: True
    from r yes have "reviewToken p q s = (True, s1)" by simp
    then obtain tok resp s0 where ok: "ParseFromRequest (Header q) = Some tok"
      "p_tokenReviewer p (RequestIDFrom q) tok s = ((resp, True, None), s0)" "quiet s0 s1"
      by (rule reviewToken_accepts)
    let ?q = "WithNoImpersonation (withAuthMethod q ''tokenreview'')"
    have rs1: "rs = withImpersonateRequest ev p (base_handler ev p) (Rec lf) ?q s1"
      using r yes True by (simp add: rs withTokenReview_def)
    have "outcome p lf (imp_admits ev p ?q s1 (snd rs)) s1 rs"
      using k wf True by (intro impersonate_outcome [OF tr w _ _ rec1 _ rs1]) simp_all
    moreover have "?P c" if "imp_admits ev p ?q s1 (snd rs) c" for c
      using that
    proof cases
      case (passthrough b)
      have "recontext q ?q" by (rule recontext_trans [of _ "withAuthMethod q ''tokenreview''"]) simp_all
      from recontext_trans [OF this passthrough(3)] passthrough(1,4) show ?thesis
        using True ok(1,2) quiet_trans [OF ok(3) passthrough(5)] by (intro conjI exI [of _ tok] exI [of _ "RequestIDFrom q"] exI [of _ resp] exI [of _ s0] exI [of _ b]) simp_all
    qed simp_all
    ultimately have "outcome p lf ?P s1 rs" by (rule outcome_mono)
    then show ?thesis by (rule outcome_before [OF c])
  qed
qed

lemma accepted_outcome:
  assumes tr: "transparent_audit (p_auditor p)" and w: "wired ev p" and kh: "keeps_headers ev"
    and k: "decisionKey (Ctx a)" and can: "canonical_header (Header a)" and no: "\<not> NoImpersonation a" and rec: "\<not> rs_recorded s"
    and acc: "accepted ev p a s ans" and d: "decided s1 = decided s"
    and q: "q = WithUser (withAuthMethod (WithIssuerName (a\<lparr>Header := oa_header ans\<rparr>) n) m) (oa_User ans)"
    and rs: "rs = withImpersonateRequest ev p (base_handler ev p) (Rec lf) q s1"
  shows "outcome p lf (admits ev p a s (snd rs)) s1 rs"
proof -
  have h: "canonical_header (oa_header ans)"
    "hdr_values (oa_header ans) ''X-Forwarded-For'' = hdr_values (Header a) ''X-Forwarded-For''"
    using kh can acc unfolding keeps_headers_def accepted_def by (simp_all add: canonical_xff)
  have qs: "decisionKey (Ctx q)" "Header q = oa_header ans" "\<not> NoImpersonation q" "UserFrom q = Some (oa_User ans)"
    "BearerToken q = BearerToken a" "client_addr p q = client_addr p a"
    using k no h by (auto simp: q intro!: client_addr_cong)
  have rc: "recontext (a\<lparr>Header := oa_header ans\<rparr>) q"
    unfolding q by (meson recontext_intros(5-7) recontext_trans)
  have rec1: "\<not> rs_recorded s1" using d rec by (simp add: decided_def)
  have "outcome p lf (imp_admits ev p q s1 (snd rs)) s1 rs"
    using qs h(1) by (intro impersonate_outcome [OF tr w _ _ rec1 _ rs]) (simp_all add: canonical_header_def)
  moreover have "admits ev p a s (snd rs) c" if "imp_admits ev p q s1 (snd rs) c" for c
    using that
  proof cases
    case (disabled b)
    then show ?thesis using admits.disabled [OF acc] rc qs(5) recontext_trans by metis
  next
    case (self u conf b)
    then show ?thesis
      using admits.self [OF acc] rc qs recontext_trans by (metis client_addr_def option.inject)
  next
    case (target u t q2 s2 conf b)
    have "recontext (a\<lparr>Header := oa_header ans\<rparr>) (fst (RemoteAddr (p_trustedProxies p) q))"
      by (rule recontext_trans [OF rc]) simp
    then show ?thesis
      using admits.target [OF acc _ _ _ d] target qs by (metis client_addr_def option.inject)
  qed (use qs in simp)
  ultimately show ?thesis by (rule outcome_mono)
qed

lemma authenticate_outcome:
  assumes tr: "transparent_audit (p_auditor p)" and w: "wired ev p" and rv: "calm_reviewer (p_tokenReviewer p)"
    and kh: "keeps_headers ev" and k: "decisionKey (Ctx a)" and can: "canonical_header (Header a)"
    and no: "\<not> NoImpersonation a" and rec: "\<not> rs_recorded s"
    and rs: "rs = withAuthenticateRequest ev p (withImpersonateRequest ev p (base_handler ev p)) (Rec lf) a s"
  shows "outcome p lf (admits ev p a s (snd rs)) s rs"
proof -
  define ans where "ans = ev_AuthenticateRequest ev a s"
  define q where "q = a\<lparr>Header := oa_header ans\<rparr>"
  have h: "canonical_header (oa_header ans)" using kh can unfolding keeps_headers_def ans_def by blast
  have qk: "decisionKey (Ctx q)" "BearerToken q = BearerToken a" using k by (simp_all add: q_def)
  consider (failed) "oa_err ans \<noteq> None" | (none) "oa_err ans = None" "\<not> oa_ok ans" | (ok) "oa_err ans = None" "oa_ok ans" by blast
  then show ?thesis
  proof cases
    case failed
    define q1 where "q1 = fst (RemoteAddr (p_trustedProxies p) q)"
    define s2 where "s2 = Emit (RequestIDFrom q1) (componentLogger (p_oidcLog p)) EventAuthnOIDCFailed
      [(''src_ip'', AStr (snd (RemoteAddr (p_trustedProxies p) q))), (''reason'', AStr ''unauthorized'')]
      (AuthenticationAttempt (p_metrics p) ''oidc'' ''rejected'' s)"
    have c: "calm lf s s2" by (auto simp: s2_def intro!: calm_then)
    have d: "decided s2 = decided s" by (simp add: s2_def AuthenticationAttempt_def)
    have q1: "decisionKey (Ctx q1)" "Header q1 = oa_header ans" "recontext q q1" "BearerToken q1 = BearerToken a"
      using qk by (simp_all add: q1_def q_def)
    have rs1: "rs = withTokenReview ev p (withImpersonateRequest ev p (base_handler ev p)) (Rec lf) q1 s2"
      using failed by (simp add: rs withAuthenticateRequest_def Let_def ans_def [symmetric] q_def [symmetric] q1_def [symmetric]
          s2_def [symmetric] case_prod_beta)
    have "outcome p lf (admits ev p a s (snd rs)) s2 rs"
      by (rule outcome_mono [OF token_review_outcome [OF tr w rv q1(1) _ _ rs1]])
         (use h q1 rec calm_unrecorded [OF c] recontext_trans failed d in
           \<open>auto simp: canonical_header_def q_def ans_def intro: admits.reviewed\<close>)
    then show ?thesis by (rule outcome_before [OF c])
  next
    case none
    let ?s1 = "AuthenticationAttempt (p_metrics p) ''none'' ''rejected'' s"
    have c: "calm lf s ?s1" by (rule calm_counters)
    have "outcome p lf (admits ev p a s (snd rs)) ?s1 (newErrorHandler ev p (Rec lf) q (Some (Sentinel ErrUnauthorized)) ?s1)"
      using calm_unrecorded [OF c] rec by (intro outcome_error [OF tr qk(1)]) simp_all
    then show ?thesis
      using outcome_before [OF c] none by (simp add: rs withAuthenticateRequest_def Let_def ans_def [symmetric] q_def [symmetric])
  next
    case ok
    define q2 where "q2 = WithUser (withAuthMethod (WithIssuerName q (oa_issuer ans)) ''oidc'') (oa_User ans)"
    define s2 where "s2 = Emit (RequestIDFrom (WithIssuerName q (oa_issuer ans))) (componentLogger (p_oidcLog p)) EventAuthnOIDCSucceeded
      [(''issuer_name'', AStr (Bound (oa_issuer ans) MaxIdentity))] (AuthenticationAttempt (p_metrics p) ''oidc'' ''accepted'' s)"
    have c: "calm lf s s2" by (auto simp: s2_def intro!: calm_then)
    have d: "decided s2 = decided s" by (simp add: s2_def AuthenticationAttempt_def)
    have eq: "withAuthenticateRequest ev p h (Rec lf) a s =
        (case checkReservedIdentity (oa_User ans) (p_allowedReservedGroups p) of
           Some e \<Rightarrow> newErrorHandler ev p (Rec lf) q2 (Some e) s2 | None \<Rightarrow> h (Rec lf) q2 s2)" for h
      using ok by (simp add: withAuthenticateRequest_def Let_def ans_def [symmetric] q_def [symmetric] q2_def s2_def split: option.split)
    show ?thesis
    proof (cases "checkReservedIdentity (oa_User ans) (p_allowedReservedGroups p)")
      case None
      then have "accepted ev p a s ans" using ok by (simp add: accepted_def ans_def)
      from outcome_before [OF c accepted_outcome [OF tr w kh k can no rec this d q2_def [unfolded q_def]]] show ?thesis
        by (simp add: rs eq None)
    next
      case (Some e)
      then have "refusal e" by (auto simp: checkReservedIdentity_def split: if_splits option.splits)
      moreover have "decisionKey (Ctx q2)" using qk by (simp add: q2_def)
      ultimately have "outcome p lf (admits ev p a s (snd rs)) s2 (newErrorHandler ev p (Rec lf) q2 (Some e) s2)"
        using calm_unrecorded [OF c] rec by (intro outcome_error [OF tr]) simp_all
      then show ?thesis using outcome_before [OF c] by (simp add: rs eq Some)
    qed
  qed
qed

end
