(* ===== verification/Serve.thy ===== *)
theory Serve
  imports Gate
begin

text \<open>
  Serving one request from end to end: request id, request info, lifecycle filter, sanitising,
  authentication, impersonation, audit and the reverse proxy, composed as \<open>withHandlers\<close> composes them.
\<close>

section \<open>What the theorems rely on\<close>

text \<open>
  The filters of the audit library are transparent, the transport without credentials exists whenever
  the configuration can need it, the token reviewer only asks and answers, and the bearer-token
  authenticator takes nothing but the credential off the request.
\<close>

definition sound_env :: "env \<Rightarrow> proxy \<Rightarrow> bool" where
  "sound_env ev p = (transparent_audit (p_auditor p) \<and> wired ev p \<and> calm_reviewer (p_tokenReviewer p) \<and> keeps_headers ev)"

text \<open>A request as the server hands it over: an empty context and headers in canonical form.\<close>

definition fresh :: "request \<Rightarrow> bool" where
  "fresh r0 = (Ctx r0 = background \<and> canonical_header (Header r0))"

text \<open>The request \<open>a\<close> the authentication filter gets for the client's request \<open>r0\<close>.\<close>

definition arrives :: "proxy \<Rightarrow> request \<Rightarrow> request \<Rightarrow> bool" where
  "arrives p r0 a =
     (Method a = Method r0 \<and> URLPath a = URLPath r0 \<and> RemoteAddress a = RemoteAddress r0 \<and> canonical_header (Header a) \<and>
      BearerToken a = [] \<and>
      (\<forall>k. canonical_key k \<notin> {''Audit-Id'', ''X-Request-Id'', ''X-Forwarded-For'', ''X-Real-Ip''} \<longrightarrow>
         hdr_values (Header a) k = hdr_values (Header r0) k) \<and>
      (let ip = ResolveClientIP (RemoteAddress r0) (forwardedFor (Header r0)) (p_trustedProxies p) in
       client_addr p a = ip \<and>
       (forwardedFor (Header r0) \<noteq> [] \<longrightarrow>
          hdr_values (Header a) ''X-Forwarded-For'' = (if ip = PeerHost (RemoteAddress r0) then [] else [ip])) \<and>
       (hdr_values (Header r0) ''X-Forwarded-For'' = [] \<longrightarrow> hdr_values (Header a) ''X-Forwarded-For'' = [])))"

text \<open>The parts of the state the answers of the back ends depend on.\<close>

definition backends :: "world \<Rightarrow> _" where
  "backends s = (t_now s, (tr_store s, tr_calls s), (sar_cache s, sar_calls s, sar_asked s))"

lemma backends_decided: "decided s1 = decided s \<Longrightarrow> backends s1 = backends s"
  by (simp add: decided_def backends_def)

section \<open>Sanitising\<close>

lemma decided_logForwardHeaders: "decided (snd (logForwardHeaders ev p r x y s)) = decided s"
  by (simp add: logForwardHeaders_def Let_def case_prod_beta)

lemma logForwardHeaders_request: "fst (logForwardHeaders ev p r x y s) = fst (RemoteAddr (p_trustedProxies p) r)"
  by (simp add: logForwardHeaders_def Let_def case_prod_beta)

lemma client_addr_RemoteAddr [simp]: "client_addr p (fst (RemoteAddr (p_trustedProxies p) q)) = client_addr p q"
  by (simp add: client_addr_def RemoteAddr_def Let_def split: option.splits)

lemma canonical_sanitized: "canonical_header (Header q) \<Longrightarrow> canonical_header (Header (SanitizeForwardHeaders tr q))"
  by (simp add: SanitizeForwardHeaders_def Let_def)

text \<open>The request after \<open>withSanitizedForwardHeaders\<close>: sanitised, and perhaps with its client address cached.\<close>

definition sanitized :: "proxy \<Rightarrow> request \<Rightarrow> request \<Rightarrow> bool" where
  "sanitized p q a = (let q1 = SanitizeForwardHeaders (p_trustedProxies p) q in a \<in> {q1, fst (RemoteAddr (p_trustedProxies p) q1)})"

lemma sanitized_fields:
  assumes "sanitized p q a"
  shows "Header a = Header (SanitizeForwardHeaders (p_trustedProxies p) q)" "RemoteAddress a = RemoteAddress q"
    "Method a = Method q" "URLPath a = URLPath q" "decisionKey (Ctx a) = decisionKey (Ctx q)"
    "NoImpersonation a = NoImpersonation q" "BearerToken a = BearerToken q"
    "client_addr p a = client_addr p (SanitizeForwardHeaders (p_trustedProxies p) q)"
  using assms by (auto simp: sanitized_def Let_def frame NoImpersonation_def BearerToken_def split: if_splits)

lemma sanitize_forwards:
  fixes ev p q s
  obtains a s1 where "\<forall>h lf. withSanitizedForwardHeaders ev p h (Rec lf) q s = h (Rec lf) a s1" "sanitized p q a"
    "decided s1 = decided s" "\<forall>lf. calm lf s s1"
proof -
  define q1 where "q1 = SanitizeForwardHeaders (p_trustedProxies p) q"
  define x y where "x = hdr_get (Header q) ''X-Forwarded-For''" and "y = hdr_get (Header q) ''X-Real-Ip''"
  define a s1 where "a = (if x \<noteq> [] \<or> y \<noteq> [] then fst (logForwardHeaders ev p q1 x y s) else q1)"
    and "s1 = (if x \<noteq> [] \<or> y \<noteq> [] then snd (logForwardHeaders ev p q1 x y s) else s)"
  show thesis
  proof (rule that)
    show "\<forall>h lf. withSanitizedForwardHeaders ev p h (Rec lf) q s = h (Rec lf) a s1"
      by (simp add: withSanitizedForwardHeaders_def Let_def a_def s1_def q1_def x_def y_def case_prod_beta)
    show "sanitized p q a" by (simp add: sanitized_def Let_def a_def q1_def logForwardHeaders_request)
  qed (simp_all add: s1_def decided_logForwardHeaders calm_logForwardHeaders)
qed

lemma inner_outcome:
  assumes env: "sound_env ev p" and k: "decisionKey (Ctx q)" and can: "canonical_header (Header q)"
    and no: "\<not> NoImpersonation q" and rec: "\<not> rs_recorded s"
    and rs: "rs = inner_chain ev p (proxyHandler ev p) (Rec lf) q s"
  shows "outcome p lf (\<lambda>c. \<exists>a s1. sanitized p q a \<and> decided s1 = decided s \<and> admits ev p a s1 (snd rs) c) s rs"
    (is "outcome p lf ?P s _")
proof -
  obtain a s1 where eq: "\<forall>h lf. withSanitizedForwardHeaders ev p h (Rec lf) q s = h (Rec lf) a s1"
    and san: "sanitized p q a" and d: "decided s1 = decided s" and "\<forall>lf. calm lf s s1"
    by (rule sanitize_forwards)
  then have c: "calm lf s s1" by blast
  note f = sanitized_fields [OF san]
  have rs1: "rs = withAuthenticateRequest ev p (withImpersonateRequest ev p (base_handler ev p)) (Rec lf) a s1"
    by (simp add: rs inner_chain_def eq)
  have "outcome p lf (admits ev p a s1 (snd rs)) s1 rs"
    using env f k can no calm_unrecorded [OF c] rec canonical_sanitized
    by (intro authenticate_outcome [OF _ _ _ _ _ _ _ _ rs1]) (simp_all add: sound_env_def)
  then have "outcome p lf ?P s1 rs" using san d by (elim outcome_mono) blast
  then show ?thesis by (rule outcome_before [OF c])
qed

section \<open>Request ids\<close>

lemma canonical_ids:
  "canonical_key ''Audit-ID'' = ''Audit-Id''" "canonical_key ''X-Request-ID'' = ''X-Request-Id''"
  by code_simp+

text \<open>The id the request is served under, and the request and state the next filter gets.\<close>

definition request_id :: "env \<Rightarrow> proxy \<Rightarrow> request \<Rightarrow> world \<Rightarrow> string" where
  "request_id ev p r0 s0 =
     (let inb1 = validRequestID (hdr_get (Header r0) ''Audit-ID'');
          inbound = (if inb1 = [] then validRequestID (hdr_get (Header r0) ''X-Request-ID'') else inb1) in
      if inbound \<noteq> [] \<and> peerIsTrusted (RemoteAddress r0) (p_trustedProxies p) then inbound else ev_NewUUID ev (w_uuids s0))"

lemma withRequestID_forwards:
  fixes ev p r0 s0
  obtains q s where "\<forall>h w. withRequestID ev p h w r0 s0 = h w q s"
    "Header q = hdr_del (hdr_set (Header r0) ''Audit-ID'' (request_id ev p r0 s0)) ''X-Request-ID''"
    "s = s0\<lparr>w_uuids := Suc (w_uuids s0), w_respHeader := hdr_set (w_respHeader s0) ''Audit-ID'' (request_id ev p r0 s0)\<rparr>"
    "Method q = Method r0" "URLPath q = URLPath r0" "RemoteAddress q = RemoteAddress r0" "FromContext q = p_logger p"
    "RequestIDFrom q = request_id ev p r0 s0"
    "noImpersonationKey (Ctx q) = noImpersonationKey (Ctx r0)" "bearerTokenKey (Ctx q) = bearerTokenKey (Ctx r0)"
    "clientAddressKey (Ctx q) = clientAddressKey (Ctx r0)"
proof -
  define inb1 where "inb1 = validRequestID (hdr_get (Header r0) ''Audit-ID'')"
  define inbound where "inbound = (if inb1 = [] then validRequestID (hdr_get (Header r0) ''X-Request-ID'') else inb1)"
  define r1 where "r1 = (if inbound \<noteq> [] then WithClientRequestID r0 inbound else r0)"
  define i where "i = request_id ev p r0 s0"
  define q where "q = WithRequestID (NewContext (r1\<lparr>Header := hdr_del (hdr_set (Header r1) ''Audit-ID'' i) ''X-Request-ID'',
    Ctx := (Ctx r1)\<lparr>logRequestIDKey := Some i\<rparr>\<rparr>) (p_logger p)) i"
  have r1: "RemoteAddress r1 = RemoteAddress r0" "Header r1 = Header r0" "Method r1 = Method r0" "URLPath r1 = URLPath r0"
    "noImpersonationKey (Ctx r1) = noImpersonationKey (Ctx r0)" "bearerTokenKey (Ctx r1) = bearerTokenKey (Ctx r0)"
    "clientAddressKey (Ctx r1) = clientAddressKey (Ctx r0)"
    by (simp_all add: r1_def WithClientRequestID_def)
  have i: "i = (if inbound \<noteq> [] \<and> peerIsTrusted (RemoteAddress r1) (p_trustedProxies p) then inbound else ev_NewUUID ev (w_uuids s0))"
    by (simp add: i_def request_id_def Let_def inbound_def inb1_def r1(1))
  show thesis
  proof (rule that [of q "s0\<lparr>w_uuids := Suc (w_uuids s0), w_respHeader := hdr_set (w_respHeader s0) ''Audit-ID'' i\<rparr>"])
    show "\<forall>h w. withRequestID ev p h w r0 s0 =
      h w q (s0\<lparr>w_uuids := Suc (w_uuids s0), w_respHeader := hdr_set (w_respHeader s0) ''Audit-ID'' i\<rparr>)"
      unfolding withRequestID_def Let_def q_def i r1_def inbound_def inb1_def by simp
  qed (simp_all add: q_def r1 i_def [symmetric] WithRequestID_def NewContext_def FromContext_def RequestIDFrom_def)
qed

text \<open>The headers at the authentication filter, exactly.\<close>

definition arriving_header :: "env \<Rightarrow> proxy \<Rightarrow> request \<Rightarrow> world \<Rightarrow> header" where
  "arriving_header ev p r0 s0 = Header (SanitizeForwardHeaders (p_trustedProxies p)
     (r0\<lparr>Header := hdr_del (hdr_set (Header r0) ''Audit-ID'' (request_id ev p r0 s0)) ''X-Request-ID''\<rparr>))"

lemma sanitize_header_cong:
  "Header q = h \<Longrightarrow> RemoteAddress q = RemoteAddress r0 \<Longrightarrow>
   Header (SanitizeForwardHeaders tr q) = Header (SanitizeForwardHeaders tr (r0\<lparr>Header := h\<rparr>))"
  by (simp add: SanitizeForwardHeaders_def Let_def)

section \<open>The whole chain\<close>

lemma lifecycle_entry_request:
  assumes "lifecycle_entry a r req0 s0 = (lf, req, s)"
  shows "Header req = Header req0" "Method req = Method req0" "URLPath req = URLPath req0"
    "RemoteAddress req = RemoteAddress req0" "clientAddressKey (Ctx req) = clientAddressKey (Ctx req0)"
    "NoImpersonation req = NoImpersonation req0" "BearerToken req = BearerToken req0" "backends s = backends s0"
  using assms
  by (auto simp: lifecycle_entry_def Let_def WithTerminationHolder_def WithDecisionHolder_def RequestStarted_def
      new_responseRecorder_def frame NoImpersonation_def BearerToken_def backends_def record_ops_def)

lemma arrives_sanitized:
  assumes "fresh r0" "Header q = hdr_del (hdr_set (Header r0) ''Audit-ID'' i) ''X-Request-ID''"
    "Method q = Method r0" "URLPath q = URLPath r0" "RemoteAddress q = RemoteAddress r0"
    "BearerToken q = []" "clientAddressKey (Ctx q) = None" "sanitized p q a"
  shows "arrives p r0 a"
proof -
  note f = sanitized_fields [OF assms(8)]
  have vals: "hdr_values (Header q) k = hdr_values (Header r0) k" if "canonical_key k \<notin> {''Audit-Id'', ''X-Request-Id''}" for k
    using that by (simp add: assms(2) hdr_simps canonical_ids)
  have xff: "hdr_values (Header q) ''X-Forwarded-For'' = hdr_values (Header r0) ''X-Forwarded-For''"
    by (rule vals) (simp add: canonical_xff)
  then have ff: "forwardedFor (Header q) = forwardedFor (Header r0)"
    by (simp add: forwardedFor_def hdr_get_def)
  let ?q1 = "SanitizeForwardHeaders (p_trustedProxies p) q"
  have "clientAddressKey (Ctx ?q1) = None" using assms(7) by (simp add: frame)
  from RemoteAddr_addr [OF this, of "p_trustedProxies p"]
  have addr: "client_addr p a = ResolveClientIP (RemoteAddress r0) (forwardedFor (Header r0)) (p_trustedProxies p)"
    unfolding f(8) unfolding client_addr_def
    using SanitizeForwardHeaders_resolve [of q "p_trustedProxies p"] by (simp add: frame assms(5) ff)
  have "hdr_values (Header ?q1) ''X-Forwarded-For'' = []" if "hdr_values (Header r0) ''X-Forwarded-For'' = []"
    using that xff by (simp add: sfh_defs hdr_simps hdr_get_def)
  moreover have "canonical_header (Header a)"
    using assms(1) by (simp add: f(1) canonical_sanitized assms(2) fresh_def)
  ultimately show ?thesis
    using SanitizeForwardHeaders_xff [of q "p_trustedProxies p"] SanitizeForwardHeaders_other [of _ "p_trustedProxies p" q] vals
    by (simp add: arrives_def Let_def addr f assms(3-6) ff)
qed

lemma defer_decided:
  "decision_log (lifecycle_defer r ctxErr lf req pn s) = decision_log s"
  "w_upstream (lifecycle_defer r ctxErr lf req pn s) = w_upstream s"
proof -
  have "nameRequestsTotal \<noteq> nameAccessDecisions" "nameRequestsInFlight \<noteq> nameAccessDecisions"
    "nameLongRunningRequests \<noteq> nameAccessDecisions" "nameRequestDuration \<noteq> nameAccessDecisions"
    by (simp_all add: metric_names)
  then have "ops_of nameAccessDecisions (t_met (lifecycle_defer r ctxErr lf req pn s)) = ops_of nameAccessDecisions (t_met s)"
    by (cases r) (simp_all add: lifecycle_defer_ops, simp add: lifecycle_defer_def Let_def RequestFinished_def frame)
  then show "decision_log (lifecycle_defer r ctxErr lf req pn s) = decision_log s"
    by (simp add: decision_log_def lifecycle_defer_log records_of_Emit)
qed (simp add: lifecycle_defer_def Let_def RequestFinished_def frame)

text \<open>A call that may be sent for the client's request \<open>r0\<close>, served from \<open>s0\<close> to \<open>s'\<close>.\<close>

definition admitted :: "env \<Rightarrow> proxy \<Rightarrow> request \<Rightarrow> world \<Rightarrow> world \<Rightarrow> up_call \<Rightarrow> bool" where
  "admitted ev p r0 s0 s' c = (\<exists>a s. arrives p r0 a \<and> Header a = arriving_header ev p r0 s0 \<and>
     backends s = backends s0 \<and> admits ev p a s s' c)"

lemma admitted_later: "admitted ev p r0 s0 s' c \<Longrightarrow> quiet s' s'' \<Longrightarrow> admitted ev p r0 s0 s'' c"
  unfolding admitted_def using admits_later by blast

text \<open>
  The stages of serving \<open>r0\<close>: the lifecycle filter gets \<open>q\<close> in \<open>sA\<close> and hands \<open>req\<close> in \<open>s\<close> to the inner chain,
  which leaves \<open>s1\<close>; its deferred function leaves \<open>sB\<close>.
\<close>

definition stages ::
  "env \<Rightarrow> proxy \<Rightarrow> rwriter \<Rightarrow> request \<Rightarrow> world \<Rightarrow> panic option \<Rightarrow> world \<Rightarrow>
   request \<Rightarrow> world \<Rightarrow> life \<Rightarrow> request \<Rightarrow> world \<Rightarrow> world \<Rightarrow> world \<Rightarrow> bool" where
  "stages ev p w r0 s0 r s' q sA lf req s s1 sB =
     (t_log sA = t_log s0 \<and> t_met sA = t_met s0 \<and> w_upstream sA = w_upstream s0 \<and>
      FromContext q = p_logger p \<and> RequestIDFrom q = request_id ev p r0 s0 \<and>
      lifecycle_entry (p_auditor p) (p_metrics p) q sA = (lf, req, s) \<and>
      inner_chain ev p (proxyHandler ev p) (Rec lf) req s = (r, s1) \<and>
      sB = lifecycle_defer (p_metrics p) (ev_ctxErr ev) lf req r s1 \<and>
      withRequestLifecycle (p_auditor p) (p_metrics p) (ev_ctxErr ev) (inner_chain ev p (proxyHandler ev p)) w q sA = (r, sB) \<and>
      audit_only sB s' \<and> \<not> NoImpersonation req \<and> backends s = backends s0 \<and>
      (\<forall>a. sanitized p req a \<longrightarrow> arrives p r0 a \<and> Header a = arriving_header ev p r0 s0) \<and>
      outcome p lf (admitted ev p r0 s0 s1) s (r, s1))"

lemma serve_request_stages:
  assumes env: "sound_env ev p" and fr: "fresh r0" and out: "serve_request ev p w r0 s0 = (r, s')"
  shows "\<exists>q sA lf req s s1 sB. stages ev p w r0 s0 r s' q sA lf req s s1 sB"
proof -
  let ?inner = "inner_chain ev p (proxyHandler ev p)"
  let ?life = "withRequestLifecycle (p_auditor p) (p_metrics p) (ev_ctxErr ev) ?inner"
  obtain q0 s00 where q0: "\<forall>h w. withRequestID ev p h w r0 s0 = h w q0 s00"
    "Header q0 = hdr_del (hdr_set (Header r0) ''Audit-ID'' (request_id ev p r0 s0)) ''X-Request-ID''"
    "s00 = s0\<lparr>w_uuids := Suc (w_uuids s0), w_respHeader := hdr_set (w_respHeader s0) ''Audit-ID'' (request_id ev p r0 s0)\<rparr>"
    "Method q0 = Method r0" "URLPath q0 = URLPath r0" "RemoteAddress q0 = RemoteAddress r0" "FromContext q0 = p_logger p"
    "RequestIDFrom q0 = request_id ev p r0 s0"
    "noImpersonationKey (Ctx q0) = noImpersonationKey (Ctx r0)" "bearerTokenKey (Ctx q0) = bearerTokenKey (Ctx r0)"
    "clientAddressKey (Ctx q0) = clientAddressKey (Ctx r0)"
    using withRequestID_forwards [of ev p r0 s0] .
  have "serve_request ev p w r0 s0 = WithRequestInfo (p_auditor p) ?life w q0 s00"
    by (simp add: serve_request_def withHandlers_def q0(1))
  moreover have "transparent (WithRequestInfo (p_auditor p))" using env transparent_chains by (simp add: sound_env_def)
  ultimately obtain ri sA sB where A: "audit_only s00 sA" "?life w (with_info ri q0) sA = (r, sB)" "audit_only sB s'"
    using transparentE [of "WithRequestInfo (p_auditor p)" s00 ?life w q0] out by (metis prod.inject)
  let ?q = "with_info ri q0"
  obtain lf req s where en: "lifecycle_entry (p_auditor p) (p_metrics p) ?q sA = (lf, req, s)" by (metis prod_cases3)
  obtain r1 s1 where run: "?inner (Rec lf) req s = (r1, s1)" by (metis surj_pair)
  have B: "r1 = r" "sB = lifecycle_defer (p_metrics p) (ev_ctxErr ev) lf req r s1"
    using A(2) en run by (auto simp: withRequestLifecycle_def)
  note e = lifecycle_entry_eq [OF en] and er = lifecycle_entry_request [OF en]
  have bg: "noImpersonationKey (Ctx r0) = None" "bearerTokenKey (Ctx r0) = None" "clientAddressKey (Ctx r0) = None"
    "canonical_header (Header r0)"
    using fr by (simp_all add: fresh_def background_def)
  have q: "Header req = hdr_del (hdr_set (Header r0) ''Audit-ID'' (request_id ev p r0 s0)) ''X-Request-ID''"
    "Method req = Method r0" "URLPath req = URLPath r0" "RemoteAddress req = RemoteAddress r0"
    "BearerToken req = []" "clientAddressKey (Ctx req) = None" "\<not> NoImpersonation req" "canonical_header (Header req)"
    using q0(2,4-11) bg unfolding er by (simp_all add: with_info_def BearerToken_def NoImpersonation_def)
  have bk: "backends s = backends s0" using er(8) A(1) q0(3) by (auto simp: backends_def audit_only_def)
  have hd: "Header a = arriving_header ev p r0 s0" if "sanitized p req a" for a
    unfolding sanitized_fields(1) [OF that] arriving_header_def by (rule sanitize_header_cong [OF q(1,4)])
  have "outcome p lf (\<lambda>c. \<exists>a s2. sanitized p req a \<and> decided s2 = decided s \<and> admits ev p a s2 s1 c) s (r, s1)"
    using inner_outcome [OF env e(4) q(8,7) e(13), of "(r, s1)" lf] run B by simp
  then have oc: "outcome p lf (admitted ev p r0 s0 s1) s (r, s1)"
    unfolding admitted_def by (rule outcome_mono) (use arrives_sanitized [OF fr q(1-6)] hd backends_decided bk in metis)
  have init: "t_log sA = t_log s0" "t_met sA = t_met s0" "w_upstream sA = w_upstream s0" "FromContext ?q = p_logger p"
    "RequestIDFrom ?q = request_id ev p r0 s0"
    using A(1) q0(3,7,8) by (auto simp: audit_only_def with_info_def FromContext_def RequestIDFrom_def)
  have "stages ev p w r0 s0 r s' ?q sA lf req s s1 sB"
    unfolding stages_def using init en run [unfolded B(1)] B(2) A(2,3) q(7) bk arrives_sanitized [OF fr q(1-6)] hd oc by (intro conjI allI impI)
  then show ?thesis by blast
qed

text \<open>The outcome of serving a request, as the state before and after shows it.\<close>

lemma decision_log_started:
  assumes "t_log s = t_log s0" "t_met s = t_met (RequestStarted r s0)"
  shows "decision_log s = decision_log s0"
proof -
  have "nameRequestsInFlight \<noteq> nameAccessDecisions" by (simp add: metric_names)
  then show ?thesis using assms by (simp add: decision_log_def RequestStarted_def record_ops_def)
qed

lemma serve_request_result:
  assumes "sound_env ev p" "fresh r0" "serve_request ev p w r0 s0 = (r, s')"
  obtains ups req d where "w_upstream s' = w_upstream s0 @ ups"
    "decision_log s' = (fst (decision_log s0) @ decision_records p req d, snd (decision_log s0) @ decision_ops p d)"
    "d_Allowed d = (ups \<noteq> [])"
    "ups = [] \<or> (\<exists>c. ups = [c] \<and> admitted ev p r0 s0 s' c)"
proof -
  obtain q sA lf req s s1 sB where "stages ev p w r0 s0 r s' q sA lf req s s1 sB"
    using serve_request_stages [OF assms] by blast
  then have tr: "t_log sA = t_log s0" "t_met sA = t_met s0" "w_upstream sA = w_upstream s0"
    "lifecycle_entry (p_auditor p) (p_metrics p) q sA = (lf, req, s)"
    "sB = lifecycle_defer (p_metrics p) (ev_ctxErr ev) lf req r s1" "audit_only sB s'"
    "outcome p lf (admitted ev p r0 s0 s1) s (r, s1)"
    unfolding stages_def by blast+
  note e = lifecycle_entry_eq [OF tr(4)]
  have d0: "decision_log s = decision_log s0"
    using decision_log_started [OF e(2,3)] tr(1,2) by (simp add: decision_log_def)
  have d1: "decision_log s' = decision_log s1" "w_upstream s' = w_upstream s1"
    using audit_only_fields(2,3) [OF tr(6)] tr(5,6) defer_decided [of "p_metrics p" "ev_ctxErr ev" lf req r s1]
    by (auto simp: decision_log_def audit_only_def)
  obtain ups where "one_decision p lf s s1 ups"
    "ups = [] \<or> (\<exists>c. ups = [c] \<and> admitted ev p r0 s0 s1 c)"
    using tr(7) unfolding outcome_def by auto
  moreover have "quiet s1 s'" using quiet_trans [OF _ quiet_audit_only [OF tr(6)]] quiet_defer by (simp add: tr(5))
  ultimately show thesis
    using that [of ups] admitted_later d0 d1 tr(3) e(12) unfolding one_decision_def by metis
qed

lemma serve_request_balanced:
  assumes env: "sound_env ev p" "fresh r0" "serve_request ev p w r0 s0 = (r, s')"
    and on: "p_metrics p = Recorder" "emits (p_logger p) EventRequestResponseCompleted"
  shows "gauge nameRequestsInFlight [] s' = gauge nameRequestsInFlight [] s0 \<and>
    (\<forall>ls. gauge nameLongRunningRequests ls s' = gauge nameLongRunningRequests ls s0) \<and>
    (\<exists>rec status term ls. records_of EventRequestResponseCompleted (t_log s') =
         records_of EventRequestResponseCompleted (t_log s0) @ [rec] \<and>
       map_of (lr_attrs rec) ''http_status'' = Some (AInt status) \<and>
       map_of (lr_attrs rec) ''termination'' = Some (AStr term) \<and>
       ops_of nameRequestsTotal (t_met s') = ops_of nameRequestsTotal (t_met s0) @
         [MInc nameRequestsTotal (ls @ [CodeFor status, projectTermination term])])"
proof -
  obtain q sA lf req s s1 sB where "stages ev p w r0 s0 r s' q sA lf req s s1 sB"
    using serve_request_stages [OF env] by blast
  then have tr: "t_log sA = t_log s0" "t_met sA = t_met s0" "FromContext q = p_logger p"
    "lifecycle_entry (p_auditor p) (p_metrics p) q sA = (lf, req, s)"
    "inner_chain ev p (proxyHandler ev p) (Rec lf) req s = (r, s1)"
    "withRequestLifecycle (p_auditor p) (p_metrics p) (ev_ctxErr ev) (inner_chain ev p (proxyHandler ev p)) w q sA = (r, sB)"
    "audit_only sB s'"
    "outcome p lf (admitted ev p r0 s0 s1) s (r, s1)"
    unfolding stages_def by blast+
  have "steady lf s s1" using tr(8) by (auto simp: outcome_def one_decision_def)
  from lifecycle_balanced [OF tr(4) [unfolded on(1)] tr(5) this tr(6) [unfolded on(1)]] on(2) tr(3)
  have *: "gauge nameRequestsInFlight [] sB = gauge nameRequestsInFlight [] sA"
    "\<forall>ls. gauge nameLongRunningRequests ls sB = gauge nameLongRunningRequests ls sA"
    "\<exists>rec status term. records_of EventRequestResponseCompleted (t_log sB) =
         records_of EventRequestResponseCompleted (t_log sA) @ [rec] \<and>
       map_of (lr_attrs rec) ''http_status'' = Some (AInt status) \<and>
       map_of (lr_attrs rec) ''termination'' = Some (AStr term) \<and>
       ops_of nameRequestsTotal (t_met sB) = ops_of nameRequestsTotal (t_met sA) @
         [MInc nameRequestsTotal (long_labels lf @ [CodeFor status, projectTermination term])]"
    by simp_all
  note fin = audit_only_fields(2,3) [OF tr(7)]
  have g: "gauge n ls s' = gauge n ls sB" "gauge n ls sA = gauge n ls s0" for n ls
    using fin(2) tr(2) by (simp_all add: gauge_def)
  show ?thesis using * unfolding g fin tr(1,2) by blast
qed

end
