(* ===== verification/Forward.thy ===== *)
theory Forward
  imports Serve
begin

text \<open>
  What an admitted call carries: the headers of the request that reaches the API server, related to the
  headers the client sent, and the identity it is sent under.
\<close>

section \<open>Headers of the outgoing request\<close>

lemma hop_header_names:
  "canonical_key ''Te'' = ''Te''" "canonical_key ''Connection'' = ''Connection''" "canonical_key ''Upgrade'' = ''Upgrade''"
  "canonical_key ''User-Agent'' = ''User-Agent''" "canonical_key ''Authorization'' = ''Authorization''"
  by code_simp+

lemma fold_del_values: "hdr_values (fold (\<lambda>n h. hdr_del h n) ns h) k \<in> {[], hdr_values h k}"
  by (induction ns arbitrary: h) (fastforce simp: hdr_simps)+

lemma hop_by_hop_values: "hdr_values (removeHopByHopHeaders h) k \<in> {[], hdr_values h k}"
  unfolding removeHopByHopHeaders_def by (rule fold_del_values)

text \<open>The headers after the hop-by-hop ones are dealt with.\<close>

definition hop_headers :: "header \<Rightarrow> header" where
  "hop_headers h =
     (let up = upgradeType h;
          h1 = removeHopByHopHeaders h;
          h2 = (if has_token (hdr_values h ''Te'') ''trailers'' then hdr_set h1 ''Te'' ''trailers'' else h1) in
      if up \<noteq> [] then hdr_set (hdr_set h2 ''Connection'' ''Upgrade'') ''Upgrade'' up else h2)"

lemma Header_outgoing:
  "Header (outgoing q) =
     (let h = appendForwardedFor (RemoteAddress q) (hop_headers (Header q)) in
      if map_of h ''User-Agent'' = None then hdr_set h ''User-Agent'' [] else h)"
  by (simp add: outgoing_def hop_headers_def Let_def)

lemma hop_headers_values:
  "canonical_key k \<notin> {''Te'', ''Connection'', ''Upgrade''} \<Longrightarrow> hdr_values (hop_headers h) k \<in> {[], hdr_values h k}"
  using hop_by_hop_values [of h k] by (simp add: hop_headers_def Let_def hdr_simps hop_header_names)

lemma outgoing_values:
  assumes "canonical_key k \<notin> {''Te'', ''Connection'', ''Upgrade'', ''X-Forwarded-For'', ''User-Agent''}"
  shows "hdr_values (Header (outgoing q)) k \<in> {[], hdr_values (Header q) k}"
proof -
  have "hdr_values (Header (outgoing q)) k = hdr_values (hop_headers (Header q)) k"
    using assms
    by (simp add: Header_outgoing Let_def appendForwardedFor_def hdr_simps hop_header_names canonical_xff split: option.splits)
  then show ?thesis using hop_headers_values [of k "Header q"] assms by simp
qed

text \<open>The address list sent: the peer, after what the request carried unless the client had it removed.\<close>

lemma outgoing_xff:
  assumes "split_host_port (RemoteAddress q) = Some (peer, port)"
  shows "hdr_values (Header (outgoing q)) ''X-Forwarded-For'' \<in>
    (let prior = hdr_values (Header q) ''X-Forwarded-For'' in
     if prior = [] then {[peer]} else {[peer], [join_with '', '' prior @ '', '' @ peer]})"
proof -
  have "hdr_values (Header (outgoing q)) ''X-Forwarded-For'' =
      (let prior = hdr_values (hop_headers (Header q)) ''X-Forwarded-For'' in
       [if prior = [] then peer else join_with '', '' prior @ '', '' @ peer])"
    by (simp add: Header_outgoing Let_def appendForwardedFor_def assms hdr_simps hop_header_names canonical_xff)
  moreover have "hdr_values (hop_headers (Header q)) ''X-Forwarded-For'' \<in> {[], hdr_values (Header q) ''X-Forwarded-For''}"
    by (rule hop_headers_values) (simp add: canonical_xff)
  ultimately show ?thesis by (auto simp: Let_def)
qed

section \<open>Impersonation headers\<close>

abbreviation header_keys :: "header \<Rightarrow> string set" where
  "header_keys h \<equiv> fst ` set h"

lemma hasImpersonation_keys: "hasImpersonation h = (\<exists>k \<in> header_keys h. impersonation_key k)"
  by (auto simp: hasImpersonation_iff list_ex_iff)

lemma header_keys_set: "header_keys (hdr_set h k v) = insert (canonical_key k) (header_keys h)"
  by (simp add: hdr_set_def set_hdr_put_keys)

lemma header_keys_del: "header_keys (hdr_del h k) \<subseteq> header_keys h"
  by (auto simp: hdr_del_def)

lemma header_keys_hop: "header_keys (removeHopByHopHeaders h) \<subseteq> header_keys h"
proof -
  have "header_keys (fold (\<lambda>n h. hdr_del h n) ns h) \<subseteq> header_keys h" for ns
  proof (induction ns arbitrary: h)
    case (Cons n ns)
    have "header_keys (fold (\<lambda>n h. hdr_del h n) ns (hdr_del h n)) \<subseteq> header_keys h"
      using Cons [of "hdr_del h n"] header_keys_del [of h n] by (rule order.trans)
    then show ?case by simp
  qed simp
  then show ?thesis unfolding removeHopByHopHeaders_def .
qed

lemma header_keys_outgoing:
  "header_keys (Header (outgoing q)) \<subseteq>
     header_keys (Header q) \<union> {''Te'', ''Connection'', ''Upgrade'', ''X-Forwarded-For'', ''User-Agent''}"
  using header_keys_hop [of "Header q"]
  by (auto simp: Header_outgoing Let_def appendForwardedFor_def hop_headers_def header_keys_set hop_header_names canonical_xff
      split: option.splits if_splits)

lemma added_not_impersonation:
  "\<not> impersonation_key ''Te''" "\<not> impersonation_key ''Connection''" "\<not> impersonation_key ''Upgrade''"
  "\<not> impersonation_key ''X-Forwarded-For''" "\<not> impersonation_key ''User-Agent''" "\<not> impersonation_key ''Authorization''"
  "\<not> impersonation_key ''Audit-Id''" "\<not> impersonation_key ''X-Request-Id''" "\<not> impersonation_key ''X-Real-Ip''"
  "\<not> impersonation_key ''Sec-Websocket-Protocol''"
  by code_simp+

lemma outgoing_no_impersonation: "\<not> hasImpersonation (Header q) \<Longrightarrow> \<not> hasImpersonation (Header (outgoing q))"
  using header_keys_outgoing [of q] added_not_impersonation by (fastforce simp: hasImpersonation_keys)

text \<open>Two canonical headers with the same values on the impersonation keys.\<close>

lemma canonical_values_nonempty: "canonical_header h \<Longrightarrow> k \<in> header_keys h \<Longrightarrow> canonical_key k = k \<and> hdr_values h k \<noteq> []"
  using map_of_is_SomeI [of h k] by (fastforce simp: canonical_header_def wf_header_def hdr_values_def)

lemma hasImpersonation_mono:
  assumes "canonical_header h" "\<And>k. impersonation_key (canonical_key k) \<Longrightarrow> hdr_values h' k = hdr_values h k" "hasImpersonation h"
  shows "hasImpersonation h'"
proof -
  obtain k where k: "k \<in> header_keys h" "impersonation_key k" using assms(3) by (auto simp: hasImpersonation_keys)
  with canonical_values_nonempty [OF assms(1)] assms(2) [of k] have "hdr_values h' k \<noteq> []" "canonical_key k = k" by auto
  then have "k \<in> header_keys h'" by (auto simp: hdr_values_def dest!: map_of_SomeD split: option.splits intro: rev_image_eqI)
  then show ?thesis using k(2) by (auto simp: hasImpersonation_keys)
qed

lemma impersonation_key_ordinary:
  "impersonation_key k \<Longrightarrow> k \<notin> {''Authorization'', ''Sec-Websocket-Protocol'', ''Audit-Id'', ''X-Request-Id'',
     ''X-Forwarded-For'', ''X-Real-Ip''}"
  using added_not_impersonation by auto

section \<open>From the client's request to the call\<close>

fun call_request :: "up_call \<Rightarrow> request" where
  "call_request (UpNoAuth q) = q"
| "call_request (UpImpersonated _ q) = q"

lemma recontext_header: "recontext (a\<lparr>Header := h\<rparr>) b \<Longrightarrow> Header b = h \<and> RemoteAddress b = RemoteAddress a \<and>
    Method b = Method a \<and> URLPath b = URLPath a"
  using recontext_fields [of "a\<lparr>Header := h\<rparr>" b] by simp

lemma answer_headers:
  assumes "keeps_headers ev" "canonical_header (Header a)" "ans = ev_AuthenticateRequest ev a s"
  shows "canonical_header (oa_header ans)"
    "canonical_key k \<notin> {''Authorization'', ''Sec-Websocket-Protocol''} \<Longrightarrow> hdr_values (oa_header ans) k = hdr_values (Header a) k"
  using assms unfolding keeps_headers_def by blast+

text \<open>The request handed to the reverse proxy for an admitted call.\<close>

definition carries :: "request \<Rightarrow> request \<Rightarrow> up_call \<Rightarrow> bool" where
  "carries a b c =
     (Method b = Method a \<and> URLPath b = URLPath a \<and> RemoteAddress b = RemoteAddress a \<and>
      (\<forall>k. canonical_key k \<notin> {''Authorization'', ''Sec-Websocket-Protocol''} \<longrightarrow>
         hdr_values (Header b) k = hdr_values (Header a) k \<or>
         impersonation_key (canonical_key k) \<and> hdr_values (Header b) k = []) \<and>
      (c = plain_call b \<or> (\<exists>conf. c = UpImpersonated conf (outgoing b) \<and> \<not> hasImpersonation (Header b))))"

lemma carries_header:
  assumes "carries a b c" "canonical_key k \<notin> {''Authorization'', ''Sec-Websocket-Protocol''}" "\<not> impersonation_key (canonical_key k)"
  shows "hdr_values (Header b) k = hdr_values (Header a) k"
  using assms unfolding carries_def by blast

lemma admitted_carries:
  assumes "admits ev p a s s' c" and kh: "keeps_headers ev" and can: "canonical_header (Header a)"
  shows "\<exists>b. carries a b c"
  using assms(1)
proof cases
  case (reviewed ans tok s1 rid resp s2 b)
  then have "carries a b c" using recontext_header [where a = a and b = b] answer_headers [OF kh can] by (simp add: carries_def)
  then show ?thesis ..
next
  case (disabled ans b)
  then have "carries a b c" using recontext_header [where a = a and b = b] answer_headers [OF kh can] by (simp add: carries_def accepted_def)
  then show ?thesis ..
next
  case (self ans conf b)
  then have "carries a b c" using recontext_header [where a = a and b = b] answer_headers [OF kh can] by (simp add: carries_def accepted_def)
  then show ?thesis ..
next
  case (target ans q s1 t q2 s2 conf b)
  have ans: "ans = ev_AuthenticateRequest ev a s" using target(2) by (simp add: accepted_def)
  note h = answer_headers [OF kh can ans]
  have q: "Header q = oa_header ans" using recontext_header target by blast
  have b: "Header b = kept_headers (oa_header ans) (oa_header ans) []"
    using recontext_fields target Check_request q by fastforce
  have f: "Method b = Method a \<and> URLPath b = URLPath a \<and> RemoteAddress b = RemoteAddress a"
    using recontext_fields [of q2 b] target recontext_header [where a = a and b = q] Check_request [OF target(7)] by simp
  have "carries a b c"
    using f target(1) h(2) kept_headers_clean [OF h(1)]
    by (auto simp: carries_def b hasImpersonation_iff)
  then show ?thesis ..
qed

end
