(* ===== verification/Delivery.thy ===== *)
theory Delivery
  imports Forward
begin

text \<open>
  The other direction of the contract: a caller who authenticates, has a name that is not reserved and
  asks for no impersonation is served. \<open>delivers h w q s\<close>: serving \<open>q\<close> through \<open>h\<close> sends a call.
\<close>

definition delivers :: "handler \<Rightarrow> rwriter \<Rightarrow> request \<Rightarrow> world \<Rightarrow> bool" where
  "delivers h w q s = (w_upstream (snd (h w q s)) \<noteq> w_upstream s)"

lemma delivers_calm: "calm lf s s1 \<Longrightarrow> delivers h w q s1 \<Longrightarrow> h' w q' s = h w q s1 \<Longrightarrow> delivers h' w q' s"
  by (simp add: delivers_def calm_def)

lemma delivers_transparent:
  assumes F: "transparent F" and "\<And>ri s1. delivers h w (with_info ri q) s1"
  shows "delivers (F h) w q s"
proof -
  obtain ri s1 r s2 s3 where *: "audit_only s s1" "h w (with_info ri q) s1 = (r, s2)" "audit_only s2 s3" "F h w q s = (r, s3)"
    using transparentE [OF F] .
  have "w_upstream s1 = w_upstream s" "w_upstream s3 = w_upstream s2" using *(1,3) by (auto simp: audit_only_def)
  then show ?thesis using assms(2) [of ri s1] * by (simp add: delivers_def)
qed

lemma proxyHandler_delivers:
  assumes "transparent_audit (p_auditor p)" "ready ev q" "ascii_print (upgradeType (Header q))"
  shows "delivers (proxyHandler ev p) (Rec lf) q s"
  using ReverseProxy_sends [OF assms, of lf s] by (simp add: delivers_def one_decision_def)

lemma base_delivers:
  assumes "transparent_audit (p_auditor p)" "ready ev q" "ascii_print (upgradeType (Header q))"
  shows "delivers (base_handler ev p) (Rec lf) q s"
  by (rule delivers_transparent [OF transparent_chains(2) [OF assms(1)]])
     (use assms in \<open>simp add: proxyHandler_delivers\<close>)

lemma impersonate_delivers:
  assumes tr: "transparent_audit (p_auditor p)" and k: "decisionKey (Ctx q)" and up: "ascii_print (upgradeType (Header q))"
    and q: "\<not> NoImpersonation q" "\<not> DisableImpersonation (p_config p)" "UserFrom q = Some u" "u_name u \<noteq> []"
      "\<not> hasImpersonation (Header q)"
  shows "delivers (withImpersonateRequest ev p (base_handler ev p)) (Rec lf) q s"
proof -
  define q1 a where "q1 = fst (RemoteAddr (p_trustedProxies p) q)" and "a = snd (RemoteAddr (p_trustedProxies p) q)"
  obtain conf where conf: "impersonation_config (p_config p) u None a = Inr conf" using json_total by blast
  let ?q2 = "WithImpersonationConfig q1 \<lparr>r_ImpersonationConfig = conf, r_InboundUser = Some u, r_ImpersonatedUser = None\<rparr>"
  let ?s1 = "Emit (RequestIDFrom q1) (FromContext q1) EventRequestImpersonationApplied
    [(''outbound_user'', AStr (Bound (i_UserName conf) MaxIdentity)),
     (''impersonated_header_names'', AStrs (impersonatedHeaderNames conf))] s"
  have q1: "Header q1 = Header q" "decisionKey (Ctx q1)" "\<not> NoImpersonation q1" using k q(1) by (simp_all add: q1_def)
  have eq: "withImpersonateRequest ev p (base_handler ev p) (Rec lf) q s = base_handler ev p (Rec lf) ?q2 ?s1"
    unfolding withImpersonate_user [OF q(1-4)] impersonate_user_def q1_def [symmetric] a_def [symmetric]
    using conf q1(1) q(5) by (simp add: apply_impersonation_def Let_def)
  have "Header ?q2 = Header q" using q1(1) by (simp add: WithImpersonationConfig_def Let_def split: option.splits)
  moreover have "ready ev ?q2" using q1 by (simp add: ready_def)
  ultimately have "delivers (base_handler ev p) (Rec lf) ?q2 ?s1" using base_delivers [OF tr] up by metis
  then show ?thesis unfolding delivers_def eq using calm_Emit [OF unwatched_events(7)] by (simp add: frame)
qed

lemma impersonate_disabled_delivers:
  assumes tr: "transparent_audit (p_auditor p)" and w: "wired ev p" and k: "decisionKey (Ctx q)"
    and up: "ascii_print (upgradeType (Header q))" and q: "\<not> NoImpersonation q" "DisableImpersonation (p_config p)"
  shows "delivers (withImpersonateRequest ev p (base_handler ev p)) (Rec lf) q s"
proof -
  define q1 where "q1 = WithNoImpersonation (fst (RemoteAddr (p_trustedProxies p) q))"
  obtain rid l as where eq: "withImpersonateRequest ev p (base_handler ev p) (Rec lf) q s =
      base_handler ev p (Rec lf) q1 (Emit rid l EventRequestImpersonationSkipped as s)"
    using q by (simp add: withImpersonateRequest_def Let_def case_prod_beta q1_def)
  have "ready ev q1" using k w q(2) by (simp add: ready_def wired_def q1_def)
  then have "delivers (base_handler ev p) (Rec lf) q1 (Emit rid l EventRequestImpersonationSkipped as s)"
    using up by (intro base_delivers [OF tr]) (simp_all add: q1_def)
  then show ?thesis unfolding delivers_def eq by (simp add: frame)
qed

lemma impersonate_target_delivers:
  assumes tr: "transparent_audit (p_auditor p)" and k: "decisionKey (Ctx q)" and can: "canonical_header (Header q)"
    and up: "hdr_values (Header q) ''Connection'' = []"
    and q: "\<not> NoImpersonation q" "\<not> DisableImpersonation (p_config p)" "UserFrom q = Some u" "u_name u \<noteq> []"
      "hasImpersonation (Header q)"
    and chk: "CheckAuthorizedForImpersonation (ev_sar ev) (p_subjectAccessReviewer p) (fst (RemoteAddr (p_trustedProxies p) q)) u s =
      (SarOk (Some t), q2, s2)"
  shows "delivers (withImpersonateRequest ev p (base_handler ev p)) (Rec lf) q s"
proof -
  define q1 a where "q1 = fst (RemoteAddr (p_trustedProxies p) q)" and "a = snd (RemoteAddr (p_trustedProxies p) q)"
  obtain conf where conf: "impersonation_config (p_config p) u (Some t) a = Inr conf" using json_total by blast
  let ?q3 = "WithImpersonationConfig q2 \<lparr>r_ImpersonationConfig = conf, r_InboundUser = Some u, r_ImpersonatedUser = Some t\<rparr>"
  let ?s3 = "Emit (RequestIDFrom q2) (FromContext q2) EventRequestImpersonationApplied
    [(''outbound_user'', AStr (Bound (i_UserName conf) MaxIdentity)),
     (''impersonated_header_names'', AStrs (impersonatedHeaderNames conf))] s2"
  have q1: "Header q1 = Header q" "decisionKey (Ctx q1)" "\<not> NoImpersonation q1" using k q(1) by (simp_all add: q1_def)
  have q2: "Header q2 = kept_headers (Header q) (Header q) []" "Ctx q2 = Ctx q1"
    using Check_request [OF chk] Check_fields [OF chk] q1(1) by (simp_all add: q1_def)
  have eq: "withImpersonateRequest ev p (base_handler ev p) (Rec lf) q s = base_handler ev p (Rec lf) ?q3 ?s3"
    unfolding withImpersonate_user [OF q(1-4)] impersonate_user_def q1_def [symmetric] a_def [symmetric]
    using conf q1(1) q(5) chk by (simp add: apply_impersonation_def Let_def q1_def)
  have "hdr_values (Header q2) ''Connection'' = []" using kept_headers_clean(1) [OF can] up by (simp add: q2(1))
  then have "ascii_print (upgradeType (Header ?q3))"
    by (simp add: upgradeType_def has_token_def ascii_print_def WithImpersonationConfig_def Let_def split: option.splits)
  moreover have "\<not> NoImpersonation q2" using q1(3) q2(2) by (simp add: NoImpersonation_def)
  then have "ready ev ?q3" using q1(2) q2(2) by (simp add: ready_def)
  ultimately have "delivers (base_handler ev p) (Rec lf) ?q3 ?s3" by (intro base_delivers [OF tr])
  moreover have "w_upstream s2 = w_upstream s"
    using calm_Check [of lf s "ev_sar ev" "p_subjectAccessReviewer p" "fst (RemoteAddr (p_trustedProxies p) q)" u] chk
    by (simp add: calm_def)
  ultimately show ?thesis unfolding delivers_def eq by (simp add: frame)
qed

text \<open>An answer that lets the caller through, for a request as the authentication filter gets it.\<close>

definition lets_in :: "env \<Rightarrow> proxy \<Rightarrow> request \<Rightarrow> bool" where
  "lets_in ev p r0 = (\<forall>a s. arrives p r0 a \<longrightarrow>
     (let ans = ev_AuthenticateRequest ev a s in
      accepted ev p a s ans \<and> u_name (oa_User ans) \<noteq> []))"

lemma authenticate_hands_on:
  assumes acc: "accepted ev p a s ans"
  obtains q s2 where "\<forall>g lf. withAuthenticateRequest ev p g (Rec lf) a s = g (Rec lf) q s2" "Header q = oa_header ans"
    "UserFrom q = Some (oa_User ans)" "decisionKey (Ctx q) = decisionKey (Ctx a)" "NoImpersonation q = NoImpersonation a"
    "decided s2 = decided s"
proof -
  have ans: "ans = ev_AuthenticateRequest ev a s" "oa_err ans = None" "oa_ok ans"
    "checkReservedIdentity (oa_User ans) (p_allowedReservedGroups p) = None"
    using acc unfolding accepted_def by blast+
  define q where "q = WithUser (withAuthMethod (WithIssuerName (a\<lparr>Header := oa_header ans\<rparr>) (oa_issuer ans)) ''oidc'') (oa_User ans)"
  define s2 where "s2 = Emit (RequestIDFrom (WithIssuerName (a\<lparr>Header := oa_header ans\<rparr>) (oa_issuer ans)))
    (componentLogger (p_oidcLog p)) EventAuthnOIDCSucceeded
    [(''issuer_name'', AStr (Bound (oa_issuer ans) MaxIdentity))] (AuthenticationAttempt (p_metrics p) ''oidc'' ''accepted'' s)"
  show thesis
  proof (rule that)
    show "\<forall>g lf. withAuthenticateRequest ev p g (Rec lf) a s = g (Rec lf) q s2"
      using ans(2-4) by (simp add: withAuthenticateRequest_def Let_def ans(1) [symmetric] q_def s2_def)
  qed (simp_all add: q_def s2_def AuthenticationAttempt_def)
qed

lemma no_upgrade: "hdr_values h ''Connection'' = [] \<Longrightarrow> ascii_print (upgradeType h)"
  by (simp add: upgradeType_def has_token_def ascii_print_def)

lemma arrives_headers:
  assumes "keeps_headers ev" "arrives p r0 a" "ans = ev_AuthenticateRequest ev a s"
    "canonical_key k \<notin> {''Audit-Id'', ''X-Request-Id'', ''X-Forwarded-For'', ''X-Real-Ip'', ''Authorization'', ''Sec-Websocket-Protocol''}"
  shows "hdr_values (oa_header ans) k = hdr_values (Header r0) k"
  using answer_headers(2) [OF assms(1) _ assms(3), of k] assms(2,4) by (simp add: arrives_def)

lemma arrives_no_impersonation:
  assumes "keeps_headers ev" "arrives p r0 a" "ans = ev_AuthenticateRequest ev a s" "\<not> hasImpersonation (Header r0)"
  shows "\<not> hasImpersonation (oa_header ans)"
proof
  assume i: "hasImpersonation (oa_header ans)"
  have can: "canonical_header (oa_header ans)"
    using answer_headers(1) [OF assms(1) _ assms(3)] assms(2) by (simp add: arrives_def)
  have "hdr_values (Header r0) k = hdr_values (oa_header ans) k" if "impersonation_key (canonical_key k)" for k
    using arrives_headers [OF assms(1-3), of k] impersonation_key_ordinary [OF that] by simp
  from hasImpersonation_mono [OF can this i] assms(4) show False by simp
qed

text \<open>The identity the request asks for is granted, by the answers the reviewer has and gets.\<close>

definition lets_impersonate :: "env \<Rightarrow> proxy \<Rightarrow> request \<Rightarrow> world \<Rightarrow> bool" where
  "lets_impersonate ev p r0 s0 = (\<forall>a s q s1. Header a = arriving_header ev p r0 s0 \<longrightarrow> backends s1 = backends s0 \<longrightarrow>
     Header q = oa_header (ev_AuthenticateRequest ev a s) \<longrightarrow>
     (\<exists>t. fst (CheckAuthorizedForImpersonation (ev_sar ev) (p_subjectAccessReviewer p) q
        (oa_User (ev_AuthenticateRequest ev a s)) s1) = SarOk (Some t)))"

text \<open>Serving a request delivers when the authentication filter, given the request that arrives at it, does.\<close>

lemma serve_delivers_inner:
  assumes env: "sound_env ev p" and fr: "fresh r0" and out: "serve_request ev p w r0 s0 = (r, s')"
  obtains lf a s where "arrives p r0 a" "Header a = arriving_header ev p r0 s0" "decisionKey (Ctx a)" "\<not> NoImpersonation a"
    "backends s = backends s0"
    "delivers (withAuthenticateRequest ev p (withImpersonateRequest ev p (base_handler ev p))) (Rec lf) a s \<Longrightarrow> w_upstream s' \<noteq> w_upstream s0"
proof -
  obtain q0 sA lf req s s1 sB where "stages ev p w r0 s0 r s' q0 sA lf req s s1 sB"
    using serve_request_stages [OF env fr out] by blast
  then have tr: "w_upstream sA = w_upstream s0" "lifecycle_entry (p_auditor p) (p_metrics p) q0 sA = (lf, req, s)"
    "inner_chain ev p (proxyHandler ev p) (Rec lf) req s = (r, s1)"
    "sB = lifecycle_defer (p_metrics p) (ev_ctxErr ev) lf req r s1" "audit_only sB s'" "\<not> NoImpersonation req"
    "\<And>a. sanitized p req a \<Longrightarrow> arrives p r0 a \<and> Header a = arriving_header ev p r0 s0" "backends s = backends s0"
    unfolding stages_def by blast+
  obtain a s2 where eq: "\<forall>h lf. withSanitizedForwardHeaders ev p h (Rec lf) req s = h (Rec lf) a s2"
    and san: "sanitized p req a" and d: "decided s2 = decided s"
    by (rule sanitize_forwards)
  have "decisionKey (Ctx a)" "\<not> NoImpersonation a"
    using sanitized_fields(5,6) [OF san] tr(6) lifecycle_entry_eq(4) [OF tr(2)] by simp_all
  moreover have "backends s2 = backends s0" using backends_decided d tr(8) by metis
  moreover have "w_upstream s' \<noteq> w_upstream s0"
    if "delivers (withAuthenticateRequest ev p (withImpersonateRequest ev p (base_handler ev p))) (Rec lf) a s2"
  proof -
    have "w_upstream s1 \<noteq> w_upstream s2" using that tr(3) by (simp add: delivers_def inner_chain_def eq)
    moreover have "w_upstream s' = w_upstream s1" using tr(4,5) defer_decided(2) by (auto simp: audit_only_def)
    moreover have "w_upstream s2 = w_upstream s0" using d tr(1) lifecycle_entry_eq(12) [OF tr(2)] by (simp add: decided_def)
    ultimately show ?thesis by simp
  qed
  ultimately show thesis using that tr(7) [OF san] by blast
qed

lemma serve_delivers:
  assumes env: "sound_env ev p" and fr: "fresh r0" and out: "serve_request ev p w r0 s0 = (r, s')"
    and ok: "lets_in ev p r0" and h: "hdr_values (Header r0) ''Connection'' = []"
      "DisableImpersonation (p_config p) \<or> \<not> hasImpersonation (Header r0) \<or> lets_impersonate ev p r0 s0"
  shows "w_upstream s' \<noteq> w_upstream s0"
proof (rule serve_delivers_inner [OF env fr out])
  fix lf a s2
  assume a: "arrives p r0 a" "Header a = arriving_header ev p r0 s0" and ka: "decisionKey (Ctx a)" "\<not> NoImpersonation a"
    and bk: "backends s2 = backends s0"
    and goal: "delivers (withAuthenticateRequest ev p (withImpersonateRequest ev p (base_handler ev p))) (Rec lf) a s2 \<Longrightarrow>
      w_upstream s' \<noteq> w_upstream s0"
  define ans where "ans = ev_AuthenticateRequest ev a s2"
  have kh: "keeps_headers ev" and ta: "transparent_audit (p_auditor p)" using env by (simp_all add: sound_env_def)
  have acc: "accepted ev p a s2 ans" "u_name (oa_User ans) \<noteq> []"
    using ok a(1) unfolding lets_in_def ans_def Let_def by blast+
  obtain q s3 where on: "\<forall>g lf. withAuthenticateRequest ev p g (Rec lf) a s2 = g (Rec lf) q s3"
    and q: "Header q = oa_header ans" "UserFrom q = Some (oa_User ans)" "decisionKey (Ctx q) = decisionKey (Ctx a)"
      "NoImpersonation q = NoImpersonation a" and d3: "decided s3 = decided s2"
    by (rule authenticate_hands_on [OF acc(1)])
  have kq: "decisionKey (Ctx q)" "\<not> NoImpersonation q" using q(3,4) ka by simp_all
  have conn: "hdr_values (Header q) ''Connection'' = []"
    using arrives_headers [OF kh a(1) ans_def, of "''Connection''"] h(1) by (simp add: hop_header_names q(1))
  consider (disabled) "DisableImpersonation (p_config p)"
    | (self) "\<not> DisableImpersonation (p_config p)" "\<not> hasImpersonation (Header q)"
    | (target) "\<not> DisableImpersonation (p_config p)" "hasImpersonation (Header q)" by blast
  then have "delivers (withImpersonateRequest ev p (base_handler ev p)) (Rec lf) q s3"
  proof cases
    case disabled
    have "wired ev p" using env by (simp add: sound_env_def)
    from impersonate_disabled_delivers [OF ta this kq(1) no_upgrade [OF conn] kq(2) disabled] show ?thesis .
  next
    case self
    show ?thesis by (rule impersonate_delivers [OF ta kq(1) no_upgrade [OF conn] kq(2) self(1) q(2) acc(2) self(2)])
  next
    case target
    have can: "canonical_header (Header q)" using answer_headers(1) [OF kh _ ans_def] a(1) by (simp add: q(1) arrives_def)
    have "hasImpersonation (Header r0)" using arrives_no_impersonation [OF kh a(1) ans_def] target(2) q(1) by auto
    then have "lets_impersonate ev p r0 s0" using h(2) target(1) by blast
    moreover note a(2)
    moreover have "backends s3 = backends s0" using backends_decided d3 bk by metis
    ultimately obtain t where "fst (CheckAuthorizedForImpersonation (ev_sar ev) (p_subjectAccessReviewer p)
        (fst (RemoteAddr (p_trustedProxies p) q)) (oa_User ans) s3) = SarOk (Some t)"
      using q(1) unfolding lets_impersonate_def ans_def by force
    then obtain q4 s4 where "CheckAuthorizedForImpersonation (ev_sar ev) (p_subjectAccessReviewer p)
        (fst (RemoteAddr (p_trustedProxies p) q)) (oa_User ans) s3 = (SarOk (Some t), q4, s4)" by (metis prod.collapse)
    from impersonate_target_delivers [OF ta kq(1) can conn kq(2) target(1) q(2) acc(2) target(2) this] show ?thesis .
  qed
  then show "w_upstream s' \<noteq> w_upstream s0" using d3 by (intro goal) (simp add: delivers_def on decided_def)
qed

section \<open>Callers the API server vouches for\<close>

text \<open>The token is not an OIDC token, but the API server authenticates it.\<close>

definition lets_pass :: "env \<Rightarrow> proxy \<Rightarrow> request \<Rightarrow> world \<Rightarrow> bool" where
  "lets_pass ev p r0 s0 = (TokenReviewEnabled (p_config p) \<and> (\<forall>a s s1 rid. Header a = arriving_header ev p r0 s0 \<longrightarrow>
     backends s1 = backends s0 \<longrightarrow>
     oa_err (ev_AuthenticateRequest ev a s) \<noteq> None \<and>
     (\<exists>token resp s2. ParseFromRequest (oa_header (ev_AuthenticateRequest ev a s)) = Some token \<and>
        p_tokenReviewer p rid token s1 = ((resp, True, None), s2))))"

lemma passthrough_delivers:
  assumes tr: "transparent_audit (p_auditor p)" and w: "wired ev p" and k: "decisionKey (Ctx q)"
    and up: "ascii_print (upgradeType (Header q))" and on: "TokenReviewEnabled (p_config p)" "NoImpersonation q"
  shows "delivers (withImpersonateRequest ev p (base_handler ev p)) (Rec lf) q s"
proof -
  let ?s1 = "Emit (RequestIDFrom q) (FromContext q) EventRequestImpersonationSkipped [(''skip_reason'', AStr ''passthrough'')] s"
  have "ready ev q" using k w on by (simp add: ready_def wired_def)
  then have "delivers (base_handler ev p) (Rec lf) q ?s1" using up by (intro base_delivers [OF tr])
  then show ?thesis using on(2) by (simp add: delivers_def withImpersonateRequest_def frame)
qed

lemma serve_delivers_passthrough:
  assumes env: "sound_env ev p" and fr: "fresh r0" and out: "serve_request ev p w r0 s0 = (r, s')"
    and ok: "lets_pass ev p r0 s0" and h: "hdr_values (Header r0) ''Connection'' = []"
  shows "w_upstream s' \<noteq> w_upstream s0"
proof (rule serve_delivers_inner [OF env fr out])
  fix lf a s2
  assume a: "arrives p r0 a" "Header a = arriving_header ev p r0 s0" and ka: "decisionKey (Ctx a)" "\<not> NoImpersonation a"
    and bk: "backends s2 = backends s0"
    and goal: "delivers (withAuthenticateRequest ev p (withImpersonateRequest ev p (base_handler ev p))) (Rec lf) a s2 \<Longrightarrow>
      w_upstream s' \<noteq> w_upstream s0"
  define ans where "ans = ev_AuthenticateRequest ev a s2"
  have kh: "keeps_headers ev" and ta: "transparent_audit (p_auditor p)" and wi: "wired ev p"
    and cr: "calm_reviewer (p_tokenReviewer p)" using env by (simp_all add: sound_env_def)
  define q where "q = fst (RemoteAddr (p_trustedProxies p) (a\<lparr>Header := oa_header ans\<rparr>))"
  define s3 where "s3 = Emit (RequestIDFrom q) (componentLogger (p_oidcLog p)) EventAuthnOIDCFailed
    [(''src_ip'', AStr (snd (RemoteAddr (p_trustedProxies p) (a\<lparr>Header := oa_header ans\<rparr>)))), (''reason'', AStr ''unauthorized'')]
    (AuthenticationAttempt (p_metrics p) ''oidc'' ''rejected'' s2)"
  have d3: "decided s3 = decided s2" by (simp add: s3_def AuthenticationAttempt_def)
  then have "backends s3 = backends s0" using backends_decided bk by metis
  then obtain token resp s4 where t: "oa_err ans \<noteq> None" "ParseFromRequest (Header q) = Some token"
    "p_tokenReviewer p (RequestIDFrom q) token s3 = ((resp, True, None), s4)" and on: "TokenReviewEnabled (p_config p)"
    using ok a(2) unfolding lets_pass_def ans_def q_def by (simp add: RemoteAddr_keeps) metis
  let ?q = "WithNoImpersonation (withAuthMethod q ''tokenreview'')"
  obtain s5 where s5: "reviewToken p q s3 = (True, s5)" using t by (simp add: reviewToken_def)
  have run: "withAuthenticateRequest ev p g (Rec lf) a s2 = g (Rec lf) ?q s5" for g
    using t(1) on s5
    by (simp add: withAuthenticateRequest_def withTokenReview_def Let_def ans_def [symmetric] q_def [symmetric] s3_def [symmetric] case_prod_beta)
  have conn: "hdr_values (Header q) ''Connection'' = []"
    using arrives_headers [OF kh a(1) ans_def, of "''Connection''"] h by (simp add: hop_header_names q_def)
  have "delivers (withImpersonateRequest ev p (base_handler ev p)) (Rec lf) ?q s5"
    using no_upgrade [OF conn] ka(1) on by (intro passthrough_delivers [OF ta wi]) (simp_all add: q_def)
  moreover have "w_upstream s5 = w_upstream s2"
    using calm_reviewToken [OF cr, of lf s3 q] s5 d3 by (simp add: calm_def decided_def)
  ultimately show "w_upstream s' \<noteq> w_upstream s0" by (intro goal) (simp add: delivers_def run)
qed

end
