(* ===== verification/Paths.thy ===== *)
theory Paths
  imports Delivery
begin

text \<open>
  What serving a request can do to the state the reviewers share between requests. Every step of the
  request path is \<open>quiet\<close>, but for the token reviewer and the impersonation check; so a transitive
  relation that includes the quiet steps and holds of these two holds of every request served. This is
  the locale \<open>path_relation\<close>. It is interpreted twice: for the decision cache of the impersonation check
  and for the cache of the token reviewer.
\<close>

lemma quiet_backends: "backends s' = backends s \<Longrightarrow> quiet s s'"
  by (simp add: backends_def quiet_def reviews_def)

lemma quiet_entry: "lifecycle_entry a r q s = (lf, q1, s1) \<Longrightarrow> quiet s s1"
  by (rule quiet_backends) (rule lifecycle_entry_request(8))

section \<open>Serving along a relation\<close>

text \<open>\<open>ok\<close> is what is asked of the proxy and its environment, \<open>R\<close> the relation between the states before and after.\<close>

locale path_relation =
  fixes ok :: "env \<Rightarrow> proxy \<Rightarrow> bool" and R :: "env \<Rightarrow> proxy \<Rightarrow> world \<Rightarrow> world \<Rightarrow> bool"
  assumes audited: "ok ev p \<Longrightarrow> transparent_audit (p_auditor p)"
    and quiet_R: "quiet s s' \<Longrightarrow> R ev p s s'"
    and trans_R: "R ev p s s' \<Longrightarrow> R ev p s' s'' \<Longrightarrow> R ev p s s''"
    and review_R: "ok ev p \<Longrightarrow> R ev p s (snd (p_tokenReviewer p rid token s))"
    and check_R: "ok ev p \<Longrightarrow>
      R ev p s (snd (snd (CheckAuthorizedForImpersonation (ev_sar ev) (p_subjectAccessReviewer p) q u s)))"
begin

lemma decided_R: "decided s' = decided s \<Longrightarrow> R ev p s s'"
  by (rule quiet_R [OF quiet_decided])

lemma after_quiet: "R ev p s s' \<Longrightarrow> quiet s' s'' \<Longrightarrow> R ev p s s''"
  by (rule trans_R [OF _ quiet_R])

lemma before_quiet: "quiet s s' \<Longrightarrow> R ev p s' s'' \<Longrightarrow> R ev p s s''"
  by (rule trans_R [OF quiet_R])

lemma filter_R:
  assumes "transparent F" "\<And>q s. R ev p s (snd (h w q s))"
  shows "R ev p s (snd (F h w q s))"
proof -
  obtain ri s1 r s2 s3 where *: "audit_only s s1" "h w (with_info ri q) s1 = (r, s2)" "audit_only s2 s3" "F h w q s = (r, s3)"
    using transparentE [OF assms(1)] .
  have "R ev p s1 s2" using assms(2) [of s1 "with_info ri q"] *(2) by simp
  then show ?thesis using before_quiet after_quiet quiet_audit_only *(1,3,4) by (metis snd_conv)
qed

lemma error_handler_R: "ok ev p \<Longrightarrow> R ev p s (snd (newErrorHandler ev p w q eo s))"
  by (rule quiet_R [OF quiet_error_handler [OF audited]])

lemma impersonate_R:
  assumes ok: "ok ev p" and h: "\<And>q s. R ev p s (snd (h w q s))"
  shows "R ev p s (snd (withImpersonateRequest ev p h w q s))"
proof -
  have apply_R: "R ev p s1 (snd (apply_impersonation ev p h w q1 u t a s1))" for q1 u t a s1
    using h error_handler_R [OF ok]
    by (auto simp: apply_impersonation_def Let_def intro: before_quiet quiet_telemetry(1) split: sum.splits)
  have emit: "R ev p s (snd (h w q1 (Emit rid l e as s)))" for q1 rid l e as
    by (rule before_quiet [OF quiet_telemetry(1) h])
  define q1 a where "q1 = fst (RemoteAddr (p_trustedProxies p) q)" and "a = snd (RemoteAddr (p_trustedProxies p) q)"
  have check: "R ev p s (snd (case CheckAuthorizedForImpersonation (ev_sar ev) (p_subjectAccessReviewer p) q1 u s of
       (SarPanic, req1, s1) \<Rightarrow> (Some (PanicValue ''index out of range''), s1)
     | (SarErr e, req1, s1) \<Rightarrow> newErrorHandler ev p w req1 (Some e) s1
     | (SarOk target, req1, s1) \<Rightarrow> apply_impersonation ev p h w req1 u target a s1))" for u
  proof -
    obtain res q2 s2 where c: "CheckAuthorizedForImpersonation (ev_sar ev) (p_subjectAccessReviewer p) q1 u s = (res, q2, s2)"
      by (metis prod_cases3)
    then have "R ev p s s2" using check_R [OF ok, of s q1 u] by simp
    then show ?thesis
      using c error_handler_R [OF ok] apply_R by (auto split: sar_result.splits intro: trans_R)
  qed
  show ?thesis
    unfolding withImpersonateRequest_def case_prod_beta [of _ "RemoteAddr (p_trustedProxies p) q"] Let_def
      q1_def [symmetric] a_def [symmetric]
    using emit check apply_R error_handler_R [OF ok] by (simp split: option.splits)
qed

lemma reviewToken_R:
  assumes "ok ev p"
  shows "R ev p s (snd (reviewToken p q s))"
proof (cases "ParseFromRequest (Header q)")
  case None
  then show ?thesis by (simp add: reviewToken_def AuthenticationAttempt_def quiet_R quiet_def frame)
next
  case (Some token)
  obtain resp a er s1 where r: "p_tokenReviewer p (RequestIDFrom q) token s = ((resp, a, er), s1)" by (metis prod_cases3 surj_pair)
  have "R ev p s s1" using review_R [OF assms, of s "RequestIDFrom q" token] r by simp
  moreover have "quiet s1 (snd (reviewToken p q s))"
    using r Some by (simp add: reviewToken_def AuthenticationAttempt_def quiet_def frame split: option.splits)
  ultimately show ?thesis by (rule after_quiet)
qed

lemma tokenReview_R:
  assumes ok: "ok ev p" and h: "\<And>q s. R ev p s (snd (h w q s))"
  shows "R ev p s (snd (withTokenReview ev p h w q s))"
proof -
  obtain a s1 where r: "reviewToken p q s = (a, s1)" by (metis surj_pair)
  then have "R ev p s s1" using reviewToken_R [OF ok, of s q] by simp
  then show ?thesis
    using r h error_handler_R [OF ok] by (auto simp: withTokenReview_def Let_def intro: trans_R)
qed

lemma authenticate_R:
  assumes ok: "ok ev p" and h: "\<And>q s. R ev p s (snd (h w q s))"
  shows "R ev p s (snd (withAuthenticateRequest ev p h w q s))"
proof -
  note err = error_handler_R [OF ok] and tr = tokenReview_R [where h = h and w = w, OF ok h]
  have pre: "quiet s (AuthenticationAttempt r m oc s)" "quiet s (Emit rid l e as (AuthenticationAttempt r m oc s))" for rid l e as r m oc
    by (simp_all add: AuthenticationAttempt_def quiet_def frame)
  note steps = before_quiet [OF pre(1) err] before_quiet [OF pre(2) err] before_quiet [OF pre(2) tr] before_quiet [OF pre(2) h]
  show ?thesis
    unfolding withAuthenticateRequest_def Let_def case_prod_beta
    using steps by (simp split: option.splits)
qed

lemma inner_chain_R:
  assumes ok: "ok ev p"
  shows "R ev p s (snd (inner_chain ev p (proxyHandler ev p) (Rec lf) q s))"
proof -
  obtain a s1 where eq: "\<forall>h lf. withSanitizedForwardHeaders ev p h (Rec lf) q s = h (Rec lf) a s1" and d: "decided s1 = decided s"
    using sanitize_forwards [of ev p q s] by metis
  have base: "R ev p s (snd (base_handler ev p (Rec lf) q s))" for q s
    by (rule quiet_R [OF quiet_base [OF audited [OF ok]]])
  show ?thesis
    unfolding inner_chain_def eq [rule_format]
    by (rule before_quiet [OF quiet_decided [OF d]], rule authenticate_R [OF ok], rule impersonate_R [OF ok], rule base)
qed

theorem serve_request_R:
  assumes ok: "ok ev p"
  shows "R ev p s (snd (serve_request ev p w q s))"
proof -
  have life: "R ev p s (snd (withRequestLifecycle (p_auditor p) (p_metrics p) (ev_ctxErr ev)
      (inner_chain ev p (proxyHandler ev p)) w q s))" for q s
  proof -
    obtain lf q1 s1 where en: "lifecycle_entry (p_auditor p) (p_metrics p) q s = (lf, q1, s1)" by (metis prod_cases3)
    have "R ev p s1 (snd (inner_chain ev p (proxyHandler ev p) (Rec lf) q1 s1))" by (rule inner_chain_R [OF ok])
    from after_quiet [OF before_quiet [OF quiet_entry [OF en] this] quiet_defer]
    show ?thesis by (simp add: withRequestLifecycle_def en case_prod_beta)
  qed
  obtain q1 s1 where eq: "\<forall>h w. withRequestID ev p h w q s = h w q1 s1"
    "s1 = s\<lparr>w_uuids := Suc (w_uuids s), w_respHeader := hdr_set (w_respHeader s) ''Audit-ID'' (request_id ev p q s)\<rparr>"
    by (rule withRequestID_forwards [of ev p q s], rule that)
  let ?life = "withRequestLifecycle (p_auditor p) (p_metrics p) (ev_ctxErr ev) (inner_chain ev p (proxyHandler ev p))"
  have run: "serve_request ev p w q s = WithRequestInfo (p_auditor p) ?life w q1 s1"
    by (simp add: serve_request_def withHandlers_def eq(1))
  have "R ev p s1 (snd (WithRequestInfo (p_auditor p) ?life w q1 s1))"
    by (rule filter_R [where h = ?life, OF transparent_chains(1) [OF audited [OF ok]] life])
  moreover have "quiet s s1" by (simp add: eq(2) quiet_def reviews_def)
  ultimately show ?thesis unfolding run using before_quiet by blast
qed

end

section \<open>The decision cache\<close>

text \<open>A token reviewer has no business with the decision cache.\<close>

definition sar_untouched :: "token_authenticator \<Rightarrow> bool" where
  "sar_untouched a = (\<forall>rid token s. sar_cache (snd (a rid token s)) = sar_cache s \<and>
     sar_calls (snd (a rid token s)) = sar_calls s \<and> t_now s \<le> t_now (snd (a rid token s)))"

definition sar_keeps :: "env \<Rightarrow> proxy \<Rightarrow> world \<Rightarrow> world \<Rightarrow> bool" where
  "sar_keeps ev p s s' = (sar_inv (ev_sar ev) s \<longrightarrow> sar_inv (ev_sar ev) s' \<and> sar_extends s s')"

lemma sar_keeps_same:
  "sar_cache s' = sar_cache s \<Longrightarrow> sar_calls s' = sar_calls s \<Longrightarrow> t_now s \<le> t_now s' \<Longrightarrow> sar_keeps ev p s s'"
  by (simp add: sar_keeps_def sar_inv_def sar_extends_def)

interpretation decisions: path_relation
  "\<lambda>ev p. transparent_audit (p_auditor p) \<and> sar_untouched (p_tokenReviewer p)" sar_keeps
proof unfold_locales
  fix ev :: env and p :: proxy and q u and s :: world
  obtain res q' s' where "CheckAuthorizedForImpersonation (ev_sar ev) (p_subjectAccessReviewer p) q u s = (res, q', s')"
    by (metis prod_cases3)
  then show "sar_keeps ev p s (snd (snd (CheckAuthorizedForImpersonation (ev_sar ev) (p_subjectAccessReviewer p) q u s)))"
    using Check_ok by (fastforce simp: sar_keeps_def)
next
  fix ev :: env and p :: proxy and s :: world and rid token
  assume "transparent_audit (p_auditor p) \<and> sar_untouched (p_tokenReviewer p)"
  then show "sar_keeps ev p s (snd (p_tokenReviewer p rid token s))"
    by (intro sar_keeps_same) (simp_all add: sar_untouched_def)
next
  fix ev :: env and p :: proxy and s s'
  assume "quiet s s'"
  then show "sar_keeps ev p s s'" by (intro sar_keeps_same) (simp_all add: quiet_def reviews_def)
qed (auto simp: sar_keeps_def intro: sar_extends_trans)

lemma sar_untouched_live: "sar_untouched (TokenReview_AuthenticateToken env t)"
  by (simp add: sar_untouched_def tr_live_defs sar_frame frame split: sum.splits)

lemma sar_untouched_cached: "sar_untouched (cached_AuthenticateToken env t)"
  unfolding sar_untouched_def
proof (intro allI)
  fix rid token and s :: world
  define c where "c = snd (tr_cache_Get (t_now s) (cacheKey (tr_hmac env) token (tr_audiences t)) (tr_store s))"
  define s1 where "s1 = CacheLookup (tr_metrics t) ''tokenreview'' ''miss''
    (Emit rid (tr_log t) EventCacheTokenReviewLookup [(''cache_result'', AStr ''miss'')] (s\<lparr>tr_store := c\<rparr>))"
  have s1: "sar_cache s1 = sar_cache s" "sar_calls s1 = sar_calls s" "t_now s1 = t_now s"
    by (simp_all add: s1_def CacheLookup_def sar_frame frame)
  have "sar_cache (snd (TokenReview_AuthenticateToken env t rid token s1)) = sar_cache s \<and>
    sar_calls (snd (TokenReview_AuthenticateToken env t rid token s1)) = sar_calls s \<and>
    t_now s \<le> t_now (snd (TokenReview_AuthenticateToken env t rid token s1))"
    using sar_untouched_live [of env t] unfolding sar_untouched_def s1 [symmetric] by blast
  then show "sar_cache (snd (cached_AuthenticateToken env t rid token s)) = sar_cache s \<and>
    sar_calls (snd (cached_AuthenticateToken env t rid token s)) = sar_calls s \<and>
    t_now s \<le> t_now (snd (cached_AuthenticateToken env t rid token s))"
    unfolding cached_AuthenticateToken_def Let_def case_prod_beta c_def [symmetric] s1_def [symmetric]
    by (simp add: CacheLookup_def sar_frame frame split: option.splits)
qed

lemma sar_untouched_reviewers: "sar_untouched (NewCached env t a f)" "sar_untouched no_reviewer"
  by (simp_all add: NewCached_def sar_untouched_live sar_untouched_cached, simp add: sar_untouched_def no_reviewer_def)

section \<open>The token cache\<close>

text \<open>The impersonation check has no business with the token cache.\<close>

definition tr_untouched :: "world \<Rightarrow> world \<Rightarrow> bool" where
  "tr_untouched s s' = (tr_store s' = tr_store s \<and> tr_calls s' = tr_calls s \<and> t_now s \<le> t_now s')"

named_theorems untouched \<open>steps of the impersonation check that leave the token cache alone\<close>

lemma tr_untouched_refl [simp, untouched]: "tr_untouched s s"
  by (simp add: tr_untouched_def)

lemma tr_untouched_trans: "tr_untouched s' s'' \<Longrightarrow> tr_untouched s s' \<Longrightarrow> tr_untouched s s''"
  by (simp add: tr_untouched_def)

lemmas EmitLevel_tr = EmitLevel_frame(3) [THEN sar_more_eq(4)] EmitLevel_frame(3) [THEN sar_more_eq(5)]

lemma tr_untouched_steps [untouched]:
  "tr_untouched s s1 \<Longrightarrow> tr_untouched s (Emit rid l e as s1)" "tr_untouched s s1 \<Longrightarrow> tr_untouched s (EmitLevel rid l e lv as s1)"
  "tr_untouched s s1 \<Longrightarrow> tr_untouched s (ReviewRequest r rv oc d s1)" "tr_untouched s s1 \<Longrightarrow> tr_untouched s (CacheLookup r rv res s1)"
  "tr_untouched s s1 \<Longrightarrow> tr_untouched s (s1\<lparr>sar_cache := sc\<rparr>)" "tr_untouched s s1 \<Longrightarrow> tr_untouched s (s1\<lparr>sar_asked := n\<rparr>)"
  by (simp_all add: tr_untouched_def ReviewRequest_def CacheLookup_def Let_def tr_frame EmitLevel_tr frame)

lemma untouched_liveCheck [untouched]: "tr_untouched s (snd (liveCheck env sr spec s))"
  by (simp add: liveCheck_def Let_def case_prod_beta tr_untouched_def ReviewRequest_def tr_frame frame split: option.splits)

lemma untouched_observe [untouched]: "tr_untouched s s1 \<Longrightarrow> tr_untouched s (observeLiveCheck sr d rid k st co a er s1)"
  by (auto simp: observeLiveCheck_def Let_def intro!: untouched split: option.splits)

lemma untouched_timed: "tr_untouched s (snd (timedLiveCheck env sr q rid k co spec s))"
  by (auto simp: timedLiveCheck_def Let_def case_prod_beta intro!: untouched)

lemma untouched_flight: "tr_untouched s (snd (flight_fn env sr key sp s))"
  using untouched_liveCheck [of s env sr sp]
  by (auto simp: flight_fn_def Let_def case_prod_beta intro!: untouched split: option.splits)

lemma untouched_shared: "tr_untouched s (snd (sharedLiveCheck env sr q rid k key spec s))"
  by (auto simp: sharedLiveCheck_def Let_def case_prod_beta split: option.splits
      intro!: untouched untouched_timed [THEN tr_untouched_trans] untouched_flight)

lemma untouched_checkRbac: "tr_untouched s (snd (checkRbacImpersonationAuthorization env sr rid res n u s))"
  by (auto simp: checkRbacImpersonationAuthorization_def Let_def case_prod_beta split: option.splits
      intro!: untouched untouched_shared [THEN tr_untouched_trans] untouched_timed [THEN tr_untouched_trans])

lemma untouched_check_values: "tr_untouched s (snd (check_values env sr rid res u deny vs s))"
proof (induction vs arbitrary: s)
  case (Cons v vs)
  obtain a er s1 where c: "checkRbacImpersonationAuthorization env sr rid res v u s = ((a, er), s1)" by (metis surj_pair)
  then have "tr_untouched s s1" using untouched_checkRbac [of s env sr rid res v u] by simp
  then show ?case using Cons [of s1] c by (auto split: option.splits intro: tr_untouched_trans)
qed simp

lemma untouched_imp_loop: "tr_untouched s (snd (imp_loop env sr rid u hu h t s))"
proof (induction h arbitrary: t s)
  case (Cons kv h)
  obtain k vs where kv: "kv = (k, vs)" by (cases kv)
  have "tr_untouched s (snd (imp_header env sr rid u k vs t s))"
    by (auto simp: imp_header_def Let_def snd_case_option_pair untouched_check_values simp del: check_values.simps split: list.splits)
  then show ?case using Cons kv by (auto split: sum.splits prod.splits intro: tr_untouched_trans [rotated])
qed simp

lemma untouched_Check: "tr_untouched s (snd (snd (CheckAuthorizedForImpersonation env sr req u s)))"
  using untouched_imp_loop [of s env sr "RequestIDFrom req" u "hdr_get (Header req) ''impersonate-user'' \<noteq> []" "Header req" emptyTarget]
  by (auto simp: CheckAuthorizedForImpersonation_def Let_def intro!: untouched split: prod.splits sum.splits)

text \<open>What every step keeps of the token cache: the calls grow, time does not go back, the lifetimes are fixed.\<close>

definition tr_extends :: "world \<Rightarrow> world \<Rightarrow> bool" where
  "tr_extends s s' = ((\<exists>ext. tr_calls s' = tr_calls s @ ext) \<and> t_now s \<le> t_now s' \<and> tr_ttl (tr_store s') = tr_ttl (tr_store s))"

lemma tr_extends_trans: "tr_extends s s' \<Longrightarrow> tr_extends s' s'' \<Longrightarrow> tr_extends s s''"
  by (auto simp: tr_extends_def)

definition tr_keeps :: "tr_env \<Rightarrow> world \<Rightarrow> world \<Rightarrow> bool" where
  "tr_keeps env s s' = (tr_inv env s \<longrightarrow> tr_inv env s' \<and> tr_extends s s')"

text \<open>The reviewer is the one built from \<open>env\<close>, or there is none.\<close>

definition reviews_through :: "tr_env \<Rightarrow> token_authenticator \<Rightarrow> bool" where
  "reviews_through env a = (a = no_reviewer \<or> (\<exists>t ok fail. a = NewCached env t ok fail))"

lemma tr_keeps_untouched: "tr_untouched s s' \<Longrightarrow> tr_keeps env s s'"
  by (simp add: tr_keeps_def tr_untouched_def tr_inv_def tr_extends_def)

lemma tr_keeps_live: "tr_keeps env s (snd (TokenReview_AuthenticateToken env t rid token s))"
proof -
  obtain res s' where run: "TokenReview_AuthenticateToken env t rid token s = (res, s')" by (metis surj_pair)
  note l = tr_live_calls [OF run]
  have "faithful_to tr_written (tr_store s) (tr_answers env (tr_calls s'))"
    if "faithful_to tr_written (tr_store s) (tr_answers env (tr_calls s))"
    unfolding l(1) by (rule token_cache.faithful_mono [OF that tr_answers_mono])
  then show ?thesis using l by (simp add: run tr_keeps_def tr_inv_def tr_extends_def)
qed

lemma tr_keeps_cached: "tr_keeps env s (snd (cached_AuthenticateToken env t rid token s))"
proof -
  obtain res s' where run: "cached_AuthenticateToken env t rid token s = (res, s')" by (metis surj_pair)
  obtain h c where get: "tr_cache_Get (t_now s) (cacheKey (tr_hmac env) token (tr_audiences t)) (tr_store s) = (h, c)"
    by (meson surj_pair)
  have "\<exists>ext. tr_calls s' = tr_calls s @ ext"
    using cached_hit(1) [OF _ run] cached_miss(1) [OF _ run] get by (cases h) fastforce+
  then show ?thesis using cached_preserves [OF _ run] by (simp add: run tr_keeps_def tr_extends_def)
qed

lemma tr_keeps_reviewer: "reviews_through env a \<Longrightarrow> tr_keeps env s (snd (a rid token s))"
  by (auto simp: reviews_through_def NewCached_def tr_keeps_live tr_keeps_cached)
     (simp add: no_reviewer_def tr_keeps_untouched)

interpretation tokens: path_relation
  "\<lambda>ev p. transparent_audit (p_auditor p) \<and> reviews_through env (p_tokenReviewer p)" "\<lambda>ev p. tr_keeps env" for env
proof unfold_locales
  fix s s'
  assume "quiet s s'"
  then show "tr_keeps env s s'" by (intro tr_keeps_untouched) (simp add: tr_untouched_def quiet_def reviews_def)
qed (auto simp: tr_keeps_reviewer tr_keeps_untouched untouched_Check, auto simp: tr_keeps_def intro: tr_extends_trans)

end
