(* ===== verification/Machines.thy ===== *)
theory Machines
  imports Main
begin

text \<open>
  State machines with interleaved steps: what is reachable, and the contract of an inductive invariant,
  stated once and interpreted by the components that run concurrently.
\<close>

inductive reachable :: "('s \<Rightarrow> bool) \<Rightarrow> ('s \<Rightarrow> 's \<Rightarrow> bool) \<Rightarrow> 's \<Rightarrow> bool" for init step where
  reach_init: "init s \<Longrightarrow> reachable init step s"
| reach_step: "reachable init step s \<Longrightarrow> step s s' \<Longrightarrow> reachable init step s'"

lemma reachable_star: "step\<^sup>*\<^sup>* s s' \<Longrightarrow> reachable init step s \<Longrightarrow> reachable init step s'"
  by (induction rule: rtranclp_induct) (auto intro: reach_step)

text \<open>\<open>inv\<close> holds at the start and every step keeps it.\<close>

locale inductive_invariant =
  fixes init :: "'s \<Rightarrow> bool" and step :: "'s \<Rightarrow> 's \<Rightarrow> bool" and inv :: "'s \<Rightarrow> bool"
  assumes inv_init: "init s \<Longrightarrow> inv s"
    and inv_step: "inv s \<Longrightarrow> step s s' \<Longrightarrow> inv s'"
begin

lemma always: "reachable init step s \<Longrightarrow> inv s"
  by (induction rule: reachable.induct) (auto intro: inv_init inv_step)

end

text \<open>A machine with a quantity that no step takes back.\<close>

locale latched_machine = inductive_invariant +
  fixes le :: "'s \<Rightarrow> 's \<Rightarrow> bool"
  assumes le_refl: "le s s" and le_trans: "le s s' \<Longrightarrow> le s' s'' \<Longrightarrow> le s s''"
    and step_le: "inv s \<Longrightarrow> step s s' \<Longrightarrow> le s s'"
begin

lemma later: "step\<^sup>*\<^sup>* s s' \<Longrightarrow> reachable init step s \<Longrightarrow> le s s'"
proof (induction rule: rtranclp_induct)
  case (step y z)
  have "inv y" by (rule always [OF reachable_star [OF step.hyps(1) step.prems]])
  from step_le [OF this step.hyps(2)] step.IH [OF step.prems] show ?case by (rule le_trans [rotated])
qed (rule le_refl)

end

text \<open>A machine that, under an invariant of its own, has less left to do after every step.\<close>

locale terminating_machine =
  fixes step :: "'s \<Rightarrow> 's \<Rightarrow> bool" and inv :: "'s \<Rightarrow> bool" and work :: "'s \<Rightarrow> nat"
  assumes inv_kept: "inv s \<Longrightarrow> step s s' \<Longrightarrow> inv s'"
    and work_less: "inv s \<Longrightarrow> step s s' \<Longrightarrow> work s' < work s"
begin

lemma inv_later: "step\<^sup>*\<^sup>* s s' \<Longrightarrow> inv s \<Longrightarrow> inv s'"
  by (induction rule: rtranclp_induct) (auto intro: inv_kept)

lemma steps_bounded: "(step ^^ n) s s' \<Longrightarrow> inv s \<Longrightarrow> n + work s' \<le> work s"
proof (induction n arbitrary: s')
  case (Suc n)
  then obtain y where y: "(step ^^ n) s y" "step y s'" by auto
  have "inv y" by (rule inv_later [OF relpowp_imp_rtranclp [OF y(1)] Suc.prems(2)])
  from work_less [OF this y(2)] Suc.IH [OF y(1) Suc.prems(2)] show ?case by simp
qed simp

lemma comes_to_rest: "inv s \<Longrightarrow> \<exists>s'. step\<^sup>*\<^sup>* s s' \<and> (\<forall>s''. \<not> step s' s'')"
proof (induction "work s" arbitrary: s rule: less_induct)
  case less
  show ?case
  proof (cases "\<exists>s1. step s s1")
    case True
    then obtain s1 where s1: "step s s1" by blast
    from less.hyps [OF work_less [OF less.prems s1] inv_kept [OF less.prems s1]] s1 show ?thesis
      by (meson converse_rtranclp_into_rtranclp)
  qed blast
qed

end

end
