(* ===== verification/Traffic.thy ===== *)
theory Traffic
  imports Paths Machines
begin

text \<open>
  The proxy under traffic: a state machine whose steps are serving one more request, on a connection
  of its own, and time passing. The history of exchanges is kept beside the state of the process, so
  an invariant can speak of every request ever served. Two invariants are interpreted: the caches
  answer only with what the API server said, and the books balance.
\<close>

section \<open>One exchange\<close>

record exchange =
  x_before :: world
  x_request :: request
  x_panic :: "panic option"
  x_after :: world

text \<open>A new connection: nothing written yet.\<close>

definition accept :: "conn \<Rightarrow> world \<Rightarrow> world" where
  "accept c s = s\<lparr>w_conn := c, w_wire := [], w_respHeader := []\<rparr>"

definition serve_exchange :: "env \<Rightarrow> proxy \<Rightarrow> conn \<Rightarrow> request \<Rightarrow> world \<Rightarrow> exchange" where
  "serve_exchange ev p c r0 s = (let s0 = accept c s; (r, s') = serve_request ev p Raw r0 s0 in
     \<lparr>x_before = s0, x_request = r0, x_panic = r, x_after = s'\<rparr>)"

text \<open>The calls an exchange sent.\<close>

definition x_calls :: "exchange \<Rightarrow> up_call list" where
  "x_calls x = drop (length (w_upstream (x_before x))) (w_upstream (x_after x))"

definition x_verdict :: "exchange \<Rightarrow> string" where
  "x_verdict x = (if x_calls x = [] then ''deny'' else ''allow'')"

section \<open>The machine\<close>

record traffic =
  tf_world :: world
  tf_served :: "exchange list"

definition at_start :: "world \<Rightarrow> traffic" where
  "at_start w = \<lparr>tf_world = w, tf_served = []\<rparr>"

inductive traffic_step :: "env \<Rightarrow> proxy \<Rightarrow> traffic \<Rightarrow> traffic \<Rightarrow> bool" for ev p where
  serve: "fresh r0 \<Longrightarrow> x = serve_exchange ev p c r0 (tf_world T) \<Longrightarrow>
    traffic_step ev p T \<lparr>tf_world = x_after x, tf_served = tf_served T @ [x]\<rparr>"
| idle: "traffic_step ev p T (T\<lparr>tf_world := (tf_world T)\<lparr>t_now := t_now (tf_world T) + int d\<rparr>\<rparr>)"

lemma serve_exchange_runs:
  assumes "x = serve_exchange ev p c r0 s"
  shows "serve_request ev p Raw (x_request x) (x_before x) = (x_panic x, x_after x)" "x_request x = r0" "x_before x = accept c s"
  using assms by (simp_all add: serve_exchange_def Let_def case_prod_beta)

lemma accept_fields [simp]:
  "w_upstream (accept c s) = w_upstream s" "t_log (accept c s) = t_log s" "t_met (accept c s) = t_met s"
  "sar_inv env (accept c s) = sar_inv env s" "tr_inv tenv (accept c s) = tr_inv tenv s"
  "sar_extends s' (accept c s) = sar_extends s' s" "tr_extends s' (accept c s) = tr_extends s' s"
  "gauge n ls (accept c s) = gauge n ls s" "decision_log (accept c s) = decision_log s"
  by (simp_all add: accept_def sar_inv_def tr_inv_def sar_extends_def tr_extends_def gauge_def decision_log_def)

section \<open>The caches answer with what was said\<close>

text \<open>\<open>x\<close> was served since the start in \<open>w0\<close>, its reviews are in the log of \<open>w\<close>, and the caches it met were truthful.\<close>

definition exchange_ok :: "tr_env \<Rightarrow> env \<Rightarrow> proxy \<Rightarrow> world \<Rightarrow> world \<Rightarrow> exchange \<Rightarrow> bool" where
  "exchange_ok tenv ev p w0 w x = (fresh (x_request x) \<and>
     serve_request ev p Raw (x_request x) (x_before x) = (x_panic x, x_after x) \<and>
     sar_inv (ev_sar ev) (x_before x) \<and> tr_inv tenv (x_before x) \<and>
     sar_extends w0 (x_before x) \<and> tr_extends w0 (x_before x) \<and> sar_extends (x_after x) w \<and> tr_extends (x_after x) w)"

definition cached_truth :: "tr_env \<Rightarrow> env \<Rightarrow> proxy \<Rightarrow> world \<Rightarrow> traffic \<Rightarrow> bool" where
  "cached_truth tenv ev p w0 T = (sar_inv (ev_sar ev) (tf_world T) \<and> tr_inv tenv (tf_world T) \<and>
     sar_extends w0 (tf_world T) \<and> tr_extends w0 (tf_world T) \<and>
     (\<forall>x \<in> set (tf_served T). exchange_ok tenv ev p w0 (tf_world T) x))"

text \<open>What the machine relies on: the environment is sound and the token reviewer is the one the command builds.\<close>

definition running :: "tr_env \<Rightarrow> env \<Rightarrow> proxy \<Rightarrow> bool" where
  "running tenv ev p = (sound_env ev p \<and> reviews_through tenv (p_tokenReviewer p))"

lemma running_paths:
  assumes "running tenv ev p"
  shows "sar_keeps ev p s (snd (serve_request ev p w q s))" "tr_keeps tenv s (snd (serve_request ev p w q s))"
proof -
  have "sar_untouched (p_tokenReviewer p)" "transparent_audit (p_auditor p)"
    using assms sar_untouched_reviewers by (auto simp: running_def reviews_through_def sound_env_def)
  then show "sar_keeps ev p s (snd (serve_request ev p w q s))" by (intro decisions.serve_request_R) simp
  show "tr_keeps tenv s (snd (serve_request ev p w q s))"
    using tokens.serve_request_R [of p tenv] assms by (simp add: running_def sound_env_def)
qed

lemma exchange_ok_later:
  "exchange_ok tenv ev p w0 w x \<Longrightarrow> sar_extends w w' \<Longrightarrow> tr_extends w w' \<Longrightarrow> exchange_ok tenv ev p w0 w' x"
  unfolding exchange_ok_def using sar_extends_trans tr_extends_trans by blast

lemma extends_refl [simp]: "tr_extends w w"
  by (simp add: tr_extends_def)

lemma cached_truth_step:
  assumes run: "running tenv ev p" and inv: "cached_truth tenv ev p w0 T" and step: "traffic_step ev p T T'"
  shows "cached_truth tenv ev p w0 T'"
  using step
proof cases
  case (serve r0 x c)
  note ex = serve_exchange_runs [OF serve(3)]
  have inv0: "sar_inv (ev_sar ev) (x_before x)" "tr_inv tenv (x_before x)" "sar_extends w0 (x_before x)" "tr_extends w0 (x_before x)"
    using inv by (simp_all add: ex(3) cached_truth_def)
  have after: "sar_inv (ev_sar ev) (x_after x)" "sar_extends (x_before x) (x_after x)"
    "tr_inv tenv (x_after x)" "tr_extends (x_before x) (x_after x)"
    using running_paths [OF run, of "x_before x" Raw "x_request x"] inv0 ex(1) by (simp_all add: sar_keeps_def tr_keeps_def)
  have grow: "sar_extends (tf_world T) (x_after x)" "tr_extends (tf_world T) (x_after x)"
    using after(2,4) sar_extends_trans [of "tf_world T" "x_before x"] tr_extends_trans [of "tf_world T" "x_before x"]
    by (simp_all add: ex(3))
  have "exchange_ok tenv ev p w0 (x_after x) y" if "y \<in> set (tf_served T)" for y
    using inv that exchange_ok_later [OF _ grow] by (simp add: cached_truth_def)
  moreover have "exchange_ok tenv ev p w0 (x_after x) x" using serve(2) ex inv0 by (simp add: exchange_ok_def)
  ultimately show ?thesis
    using serve(1) after sar_extends_trans [OF inv0(3) after(2)] tr_extends_trans [OF inv0(4) after(4)] by (simp add: cached_truth_def)
next
  case (idle d)
  let ?w = "(tf_world T)\<lparr>t_now := t_now (tf_world T) + int d\<rparr>"
  have grow: "sar_extends (tf_world T) ?w" "tr_extends (tf_world T) ?w"
    by (simp_all add: sar_extends_def tr_extends_def)
  have "exchange_ok tenv ev p w0 ?w y" if "y \<in> set (tf_served T)" for y
    using inv that exchange_ok_later [OF _ grow] by (simp add: cached_truth_def)
  moreover have "sar_extends w0 ?w" "tr_extends w0 ?w"
    using inv sar_extends_trans [OF _ grow(1)] tr_extends_trans [OF _ grow(2)] by (simp_all add: cached_truth_def)
  ultimately show ?thesis using inv idle by (simp add: cached_truth_def sar_inv_def tr_inv_def)
qed

lemma cached_truth_start: "cached_truth tenv ev p w (at_start w) = (sar_inv (ev_sar ev) w \<and> tr_inv tenv w)"
  by (simp add: cached_truth_def at_start_def)

interpretation truth: inductive_invariant
  "\<lambda>T. running tenv ev p \<and> T = at_start w0 \<and> sar_inv (ev_sar ev) w0 \<and> tr_inv tenv w0"
  "traffic_step ev p" "\<lambda>T. running tenv ev p \<and> cached_truth tenv ev p w0 T" for tenv ev p w0
  by unfold_locales (auto simp: cached_truth_start intro: cached_truth_step)

section \<open>What a call was let through for\<close>

lemma served_call:
  assumes "sound_env ev p" "fresh r0" "serve_request ev p w r0 s0 = (r, s')" "w_upstream s' = w_upstream s0 @ ups" "c \<in> set ups"
  obtains a s where "ups = [c]" "arrives p r0 a" "Header a = arriving_header ev p r0 s0" "backends s = backends s0"
    "admits ev p a s s' c"
proof -
  obtain ups' where "w_upstream s' = w_upstream s0 @ ups'" "ups' = [] \<or> (\<exists>c. ups' = [c] \<and> admitted ev p r0 s0 s' c)"
    using serve_request_result [OF assms(1-3)] by metis
  then show thesis using that assms(4,5) unfolding admitted_def by auto
qed

lemma impersonation_config_identity:
  "impersonation_config cfg u t a = Inr conf \<Longrightarrow>
   i_UserName conf = u_name (case t of Some t \<Rightarrow> t | None \<Rightarrow> u) \<and> i_UID conf = u_uid (case t of Some t \<Rightarrow> t | None \<Rightarrow> u) \<and>
   set (i_Groups conf) = insert AllAuthenticated (set (u_groups (case t of Some t \<Rightarrow> t | None \<Rightarrow> u)))"
  by (auto simp: impersonation_config_def Let_def split: option.splits sum.splits if_splits)

lemma user_is_impersonation: "impersonation_key ''Impersonate-User''"
  by code_simp

lemma target_granted_quiet:
  "quiet s s' \<Longrightarrow> target_granted env t0 a s u t \<Longrightarrow> target_granted env t0 a s' u t"
  by (simp add: target_granted_def granted_def quiet_def reviews_def)

text \<open>
  \<open>acts_as_granted\<close>: the identity \<open>conf\<close> is the one the headers of \<open>r0\<close> ask for, and each part of it was
  granted to the caller \<open>u\<close> by reviews logged in \<open>w\<close>, at most \<open>ttl\<close> before \<open>t0\<close>.
\<close>

definition acts_as_granted :: "env \<Rightarrow> request \<Rightarrow> imp_config \<Rightarrow> user_info \<Rightarrow> int \<Rightarrow> int \<Rightarrow> world \<Rightarrow> bool" where
  "acts_as_granted ev r0 conf u t0 ttl w = (\<exists>t. i_UserName conf = u_name t \<and> i_UID conf = u_uid t \<and>
     set (i_Groups conf) = insert ''system:authenticated'' (set (u_groups t)) \<and>
     u_name t = hdr_get (Header r0) ''impersonate-user'' \<and> u_name t \<noteq> [] \<and> target_granted (ev_sar ev) t0 ttl w u t)"

lemma granted_call:
  assumes "sound_env ev p" "fresh r0" "serve_request ev p w r0 s0 = (r, s')" "w_upstream s' = w_upstream s0 @ ups"
    and "UpImpersonated conf q \<in> set ups" "hasImpersonation (Header r0)" "sar_inv (ev_sar ev) s0"
  obtains a s where "accepted ev p a s (ev_AuthenticateRequest ev a s)" "arrives p r0 a" "backends s = backends s0"
    "acts_as_granted ev r0 conf (oa_User (ev_AuthenticateRequest ev a s)) (t_now s0) (dc_ttl (sar_cache s0) True) s'"
proof -
  obtain a s where a: "arrives p r0 a" "backends s = backends s0" "admits ev p a s s' (UpImpersonated conf q)"
    by (rule served_call [OF assms(1-5)])
  have kh: "keeps_headers ev" using assms(1) by (simp add: sound_env_def)
  have vals: "hdr_values (oa_header (ev_AuthenticateRequest ev a s)) k = hdr_values (Header r0) k" if "impersonation_key (canonical_key k)" for k
    using arrives_headers [OF kh a(1) refl, of k] impersonation_key_ordinary [OF that] by simp
  from a(3) show thesis
  proof cases
    case (self ans b)
    have ans: "ans = ev_AuthenticateRequest ev a s" using self(2) by (simp add: accepted_def)
    have "hasImpersonation (oa_header ans)"
      using hasImpersonation_mono [OF _ _ assms(6)] vals assms(2) by (simp add: ans fresh_def)
    then show ?thesis using self(5) by simp
  next
    case (target ans q' s1 t q2 s2 b)
    have ans: "ans = ev_AuthenticateRequest ev a s" using target(2) by (simp add: accepted_def)
    have h: "Header q' = oa_header ans" using recontext_header target(5) by blast
    have bk: "sar_cache s1 = sar_cache s0" "sar_calls s1 = sar_calls s0" "t_now s1 = t_now s0"
      using a(2) target(6) by (simp_all add: backends_def decided_def)
    then have "sar_inv (ev_sar ev) s1" using assms(7) by (simp add: sar_inv_def)
    from Check_ok [OF this target(7)] have ok: "t = requested_target (oa_header ans) emptyTarget"
      "hdr_get (oa_header ans) ''impersonate-user'' \<noteq> []"
      "target_granted (ev_sar ev) (t_now s0) (dc_ttl (sar_cache s0) True) s2 (oa_User ans) t"
      unfolding h bk by auto
    have can: "canonical_header (oa_header ans)" using answer_headers(1) [OF kh _ ans] a(1) by (simp add: arrives_def)
    have "hdr_get (oa_header ans) ''impersonate-user'' = hdr_get (Header r0) ''impersonate-user''"
      using vals [of "''impersonate-user''"] by (simp add: hdr_get_def ans canonical_user user_is_impersonation)
    then have "u_name t = hdr_get (Header r0) ''impersonate-user''" "u_name t \<noteq> []"
      using requested_target_name [OF can ok(2)] ok(1,2) by simp_all
    then have "acts_as_granted ev r0 conf (oa_User ans) (t_now s0) (dc_ttl (sar_cache s0) True) s'"
      using target_granted_quiet [OF target(8) ok(3)] impersonation_config_identity [OF target(9)]
      unfolding acts_as_granted_def AllAuthenticated_def by (intro exI [of _ t]) simp
    then show ?thesis using that target(2) a unfolding ans by blast
  qed (simp_all add: plain_call_def)
qed

lemma acts_as_granted_later: "acts_as_granted ev r0 conf u t0 ttl w \<Longrightarrow> sar_extends w w' \<Longrightarrow> acts_as_granted ev r0 conf u t0 ttl w'"
  unfolding acts_as_granted_def by (elim ex_forward conj_forward; (assumption | rule target_granted_extends))

lemma acts_as_granted_max:
  "max 0 ttl = max 0 ttl' \<Longrightarrow> acts_as_granted ev r0 conf u t0 ttl w \<Longrightarrow> acts_as_granted ev r0 conf u t0 ttl' w"
  by (simp add: acts_as_granted_def target_granted_def granted_def)

text \<open>The API server authenticated a token with the cache key of \<open>token\<close>, at most \<open>ttl\<close> before \<open>t0\<close>.\<close>

definition token_vouched :: "tr_env \<Rightarrow> token_review \<Rightarrow> string \<Rightarrow> int \<Rightarrow> int \<Rightarrow> world \<Rightarrow> bool" where
  "token_vouched tenv t token t0 ttl w = (\<exists>tm sp st. (tm, sp, Inr st) \<in> set (tr_calls w) \<and>
     cacheKey (tr_hmac tenv) (s_token sp) (s_audiences sp) = cacheKey (tr_hmac tenv) token (tr_audiences t) \<and>
     st_Authenticated st \<and> st_Error st = [] \<and> t0 \<le> tm + max 0 ttl)"

lemma token_vouched_later: "token_vouched tenv t token t0 ttl w \<Longrightarrow> tr_extends w w' \<Longrightarrow> token_vouched tenv t token t0 ttl w'"
  by (fastforce simp: token_vouched_def tr_extends_def)

lemma reviewer_accepts:
  assumes "tr_inv tenv s" "NewCached tenv t ok fail rid token s = ((resp, True, er), s')"
  shows "token_vouched tenv t token (t_now s) (tc_successTTL (tr_store s)) s'"
proof (cases "ok \<le> 0 \<and> fail \<le> 0")
  case True
  with assms(2) have run: "TokenReview_AuthenticateToken tenv t rid token s = ((resp, True, er), s')" by (simp add: NewCached_def)
  note l = tr_live_calls [OF run]
  obtain st where st: "tr_reply tenv t token s = Inr st" "st_Error st = []" "st_Authenticated st"
    using l(2) by (auto simp: tr_result_def verdict_of_def split: sum.splits if_splits)
  have "(t_now s', buildReview t token, Inr st) \<in> set (tr_calls s')" using l(1) st(1) by simp
  then show ?thesis
    using st l(4) unfolding token_vouched_def by (intro exI [of _ "t_now s'"] exI [of _ "buildReview t token"] exI [of _ st])
      (auto simp: buildReview_def)
next
  case False
  with assms(2) have run: "cached_AuthenticateToken tenv t rid token s = ((resp, True, er), s')" by (auto simp: NewCached_def)
  have "t_now s \<le> t_now s'" by (rule cached_preserves(2) [OF assms(1) run])
  then show ?thesis using cached_accepts [OF assms(1) run] unfolding token_vouched_def by (meson order_trans)
qed

lemma reviewed_call:
  assumes "sound_env ev p" "fresh r0" "serve_request ev p w r0 s0 = (r, s')" "w_upstream s' = w_upstream s0 @ ups"
    and "UpNoAuth q \<in> set ups" "\<not> DisableImpersonation (p_config p)"
    and "p_tokenReviewer p = NewCached tenv t ok fail" "tr_inv tenv s0"
  obtains a s token where "arrives p r0 a" "backends s = backends s0" "oa_err (ev_AuthenticateRequest ev a s) \<noteq> None"
    "TokenReviewEnabled (p_config p)" "ParseFromRequest (oa_header (ev_AuthenticateRequest ev a s)) = Some token"
    "token_vouched tenv t token (t_now s0) (tc_successTTL (tr_store s0)) s'"
proof -
  obtain a s where a: "arrives p r0 a" "backends s = backends s0" "admits ev p a s s' (UpNoAuth q)"
    by (rule served_call [OF assms(1-5)])
  from a(3) assms(6) show thesis
  proof cases
    case (reviewed ans tok s1 rid resp s2 b)
    have bk: "tr_store s1 = tr_store s0" "tr_calls s1 = tr_calls s0" "t_now s1 = t_now s0"
      using a(2) reviewed(6) by (simp_all add: backends_def decided_def)
    then have "tr_inv tenv s1" using assms(8) by (simp add: tr_inv_def)
    from reviewer_accepts [OF this reviewed(7) [unfolded assms(7)]]
    have "token_vouched tenv t tok (t_now s0) (tc_successTTL (tr_store s0)) s2" by (simp add: bk)
    then have "token_vouched tenv t tok (t_now s0) (tc_successTTL (tr_store s0)) s'"
      using reviewed(8) by (simp add: token_vouched_def quiet_def reviews_def)
    then show ?thesis using that a(1,2) reviewed(2-5) by blast
  qed simp_all
qed

section \<open>The books balance\<close>

lemma map_of_skip: "k \<notin> fst ` set xs \<Longrightarrow> map_of (xs @ ys) k = map_of ys k"
  by (simp add: map_add_def map_of_eq_None_iff [THEN iffD2])

lemma map_of_optional: "k \<noteq> k' \<Longrightarrow> map_of ((if c then [(k', v)] else []) @ ys) k = map_of ys k"
  by simp

lemma kubernetes_keys: "''decision'' \<notin> fst ` set (kubernetesAttrs req)"
  by (auto simp: kubernetesAttrs_def split: option.splits if_splits)

lemma decision_attr: "map_of (decision_attrs a req d) ''decision'' = Some (AStr (if d_Allowed d then ''allow'' else ''deny''))"
  unfolding decision_attrs_def Let_def
  by (simp only: append_Cons append_Nil map_of.simps map_of_skip [OF kubernetes_keys] map_of_optional fun_upd_def
      list.inject char.inject simp_thms if_False if_True fst_conv snd_conv list.distinct)

text \<open>The access record and the access metric of an exchange, and its terminal record and counted request.\<close>

definition same_verdict :: "string \<Rightarrow> log_record \<Rightarrow> metric_op \<Rightarrow> bool" where
  "same_verdict v rec op = (map_of (lr_attrs rec) ''decision'' = Some (AStr v) \<and>
     (\<exists>m reason. op = MInc nameAccessDecisions [m, v, reason]))"

definition same_outcome :: "log_record \<Rightarrow> metric_op \<Rightarrow> bool" where
  "same_outcome rec op = (\<exists>status term ls. map_of (lr_attrs rec) ''http_status'' = Some (AInt status) \<and>
     map_of (lr_attrs rec) ''termination'' = Some (AStr term) \<and>
     op = MInc nameRequestsTotal (ls @ [CodeFor status, projectTermination term]))"

lemma served_decision:
  assumes "sound_env ev p" "fresh r0" "serve_request ev p w r0 s0 = (r, s')"
    and "p_metrics p = Recorder" "emits (al_logger (p_access p)) EventRequestAccessDecided"
  obtains ups rec op where "w_upstream s' = w_upstream s0 @ ups" "length ups \<le> 1"
    "decision_log s' = (fst (decision_log s0) @ [rec], snd (decision_log s0) @ [op])"
    "same_verdict (if ups = [] then ''deny'' else ''allow'') rec op"
proof -
  obtain ups req d where r: "w_upstream s' = w_upstream s0 @ ups"
    "decision_log s' = (fst (decision_log s0) @ decision_records p req d, snd (decision_log s0) @ decision_ops p d)"
    "d_Allowed d = (ups \<noteq> [])" "ups = [] \<or> (\<exists>c. ups = [c] \<and> admitted ev p r0 s0 s' c)"
    by (rule serve_request_result [OF assms(1-3)])
  obtain rec where rec: "decision_records p req d = [rec]"
    "map_of (lr_attrs rec) ''decision'' = Some (AStr (if d_Allowed d then ''allow'' else ''deny''))"
    using assms(5) decision_attr [of "p_access p" req d]
    by (cases "al_logger (p_access p)") (auto simp: decision_records_def emits_def withContextRequestID_def)
  obtain op where op: "decision_ops p d = [op]" "\<exists>m reason. op = MInc nameAccessDecisions [m, if d_Allowed d then ''allow'' else ''deny'', reason]"
    using assms(4) by (simp add: decision_ops_def)
  have "same_verdict (if ups = [] then ''deny'' else ''allow'') rec op"
    using rec(2) op(2) r(3) by (auto simp: same_verdict_def)
  moreover have "length ups \<le> 1" using r(4) by auto
  ultimately show thesis using that r(1,2) rec(1) op(1) by metis
qed

definition entered_once :: "world \<Rightarrow> traffic \<Rightarrow> bool" where
  "entered_once w0 T = (\<exists>recs ops. records_of EventRequestAccessDecided (t_log (tf_world T)) =
       records_of EventRequestAccessDecided (t_log w0) @ recs \<and>
     ops_of nameAccessDecisions (t_met (tf_world T)) = ops_of nameAccessDecisions (t_met w0) @ ops \<and>
     length recs = length (tf_served T) \<and> length ops = length (tf_served T) \<and>
     (\<forall>i < length (tf_served T). same_verdict (x_verdict (tf_served T ! i)) (recs ! i) (ops ! i)))"

definition calls_of_served :: "world \<Rightarrow> traffic \<Rightarrow> bool" where
  "calls_of_served w0 T = (w_upstream (tf_world T) = w_upstream w0 @ concat (map x_calls (tf_served T)) \<and>
     (\<forall>x \<in> set (tf_served T). length (x_calls x) \<le> 1))"

definition finished_once :: "world \<Rightarrow> traffic \<Rightarrow> bool" where
  "finished_once w0 T = (gauge nameRequestsInFlight [] (tf_world T) = gauge nameRequestsInFlight [] w0 \<and>
     (\<forall>ls. gauge nameLongRunningRequests ls (tf_world T) = gauge nameLongRunningRequests ls w0) \<and>
     (\<exists>recs ops. records_of EventRequestResponseCompleted (t_log (tf_world T)) =
         records_of EventRequestResponseCompleted (t_log w0) @ recs \<and>
       ops_of nameRequestsTotal (t_met (tf_world T)) = ops_of nameRequestsTotal (t_met w0) @ ops \<and>
       length recs = length (tf_served T) \<and> list_all2 same_outcome recs ops))"

definition recording :: "env \<Rightarrow> proxy \<Rightarrow> bool" where
  "recording ev p = (sound_env ev p \<and> p_metrics p = Recorder \<and>
     emits (al_logger (p_access p)) EventRequestAccessDecided \<and> emits (p_logger p) EventRequestResponseCompleted)"

lemma decisions_step:
  assumes rec: "recording ev p" and inv: "calls_of_served w0 T" "entered_once w0 T" and step: "traffic_step ev p T T'"
  shows "calls_of_served w0 T' \<and> entered_once w0 T'"
  using step
proof cases
  case (serve r0 x c)
  note ex = serve_exchange_runs [OF serve(3)]
  have fr: "fresh (x_request x)" using serve(2) ex(2) by simp
  obtain ups rec op where d: "w_upstream (x_after x) = w_upstream (x_before x) @ ups" "length ups \<le> 1"
    "decision_log (x_after x) = (fst (decision_log (x_before x)) @ [rec], snd (decision_log (x_before x)) @ [op])"
    "same_verdict (if ups = [] then ''deny'' else ''allow'') rec op"
    using served_decision [OF _ fr ex(1)] rec unfolding recording_def by metis
  have calls: "x_calls x = ups" using d(1) by (simp add: x_calls_def)
  have before: "w_upstream (x_before x) = w_upstream (tf_world T)" "decision_log (x_before x) = decision_log (tf_world T)"
    by (simp_all add: ex(3))
  have up: "calls_of_served w0 T'" using inv(1) d(1,2) calls before(1) by (simp add: serve(1) calls_of_served_def)
  obtain recs ops where old: "records_of EventRequestAccessDecided (t_log (tf_world T)) = records_of EventRequestAccessDecided (t_log w0) @ recs"
    "ops_of nameAccessDecisions (t_met (tf_world T)) = ops_of nameAccessDecisions (t_met w0) @ ops"
    "length recs = length (tf_served T)" "length ops = length (tf_served T)"
    "\<And>i. i < length (tf_served T) \<Longrightarrow> same_verdict (x_verdict (tf_served T ! i)) (recs ! i) (ops ! i)"
    using inv(2) unfolding entered_once_def by blast
  have "same_verdict (x_verdict ((tf_served T @ [x]) ! i)) ((recs @ [rec]) ! i) ((ops @ [op]) ! i)" if "i < Suc (length (tf_served T))" for i
    using that old(3-5) d(4) calls by (auto simp: nth_append x_verdict_def less_Suc_eq)
  then have "entered_once w0 T'"
    unfolding entered_once_def using old(1-4) d(3) before(2)
    by (intro exI [of _ "recs @ [rec]"] exI [of _ "ops @ [op]"]) (simp add: serve(1) decision_log_def)
  with up show ?thesis ..
next
  case (idle d)
  then show ?thesis using inv by (simp add: calls_of_served_def entered_once_def)
qed

lemma finished_step:
  assumes rec: "recording ev p" and inv: "finished_once w0 T" and step: "traffic_step ev p T T'"
  shows "finished_once w0 T'"
  using step
proof cases
  case (serve r0 x c)
  note ex = serve_exchange_runs [OF serve(3)]
  have fr: "fresh (x_request x)" using serve(2) ex(2) by simp
  obtain rec op where b: "gauge nameRequestsInFlight [] (x_after x) = gauge nameRequestsInFlight [] (tf_world T)"
    "\<And>ls. gauge nameLongRunningRequests ls (x_after x) = gauge nameLongRunningRequests ls (tf_world T)"
    "records_of EventRequestResponseCompleted (t_log (x_after x)) = records_of EventRequestResponseCompleted (t_log (tf_world T)) @ [rec]"
    "ops_of nameRequestsTotal (t_met (x_after x)) = ops_of nameRequestsTotal (t_met (tf_world T)) @ [op]" "same_outcome rec op"
    using serve_request_balanced [OF _ fr ex(1)] rec unfolding recording_def same_outcome_def ex(3) accept_fields by metis
  obtain recs ops where old: "records_of EventRequestResponseCompleted (t_log (tf_world T)) = records_of EventRequestResponseCompleted (t_log w0) @ recs"
    "ops_of nameRequestsTotal (t_met (tf_world T)) = ops_of nameRequestsTotal (t_met w0) @ ops"
    "length recs = length (tf_served T)" "list_all2 same_outcome recs ops"
    using inv unfolding finished_once_def by blast
  have "list_all2 same_outcome (recs @ [rec]) (ops @ [op])" using old(4) b(5) by (simp add: list_all2_appendI)
  then show ?thesis
    using inv b old(1-3) unfolding finished_once_def serve(1)
    by (intro conjI exI [of _ "recs @ [rec]"] exI [of _ "ops @ [op]"]) simp_all
next
  case (idle d)
  then show ?thesis using inv by (simp add: finished_once_def gauge_def)
qed

definition books :: "world \<Rightarrow> traffic \<Rightarrow> bool" where
  "books w0 T = (calls_of_served w0 T \<and> entered_once w0 T \<and> finished_once w0 T)"

lemma books_start: "books w0 (at_start w0)"
  by (simp add: books_def calls_of_served_def entered_once_def finished_once_def at_start_def)

lemma books_step: "recording ev p \<and> books w0 T \<Longrightarrow> traffic_step ev p T T' \<Longrightarrow> books w0 T'"
  using decisions_step [of ev p w0 T T'] finished_step [of ev p w0 T T'] by (simp add: books_def)

interpretation accounts: inductive_invariant
  "\<lambda>T. recording ev p \<and> T = at_start w0" "traffic_step ev p" "\<lambda>T. recording ev p \<and> books w0 T" for ev p w0
  by unfold_locales (auto simp: books_start intro: books_step)

end
