(* ===== verification/Flags.thy ===== *)
theory Flags
  imports Prelude
begin

text \<open>
  The map-valued flag of \<^verbatim>\<open>pkg/util/flags/string_to_string_slice.go\<close>, and the part of \<open>encoding/csv\<close> it
  uses: the first record of a default \<open>Reader\<close> and one record of a default \<open>Writer\<close>. A Go map is a
  list of its entries in the order a range visits them; theorems hold for every order. The positions in
  a CSV parse error are left out.
\<close>

section \<open>Reading and writing one CSV record\<close>

abbreviation nl :: char where "nl \<equiv> CHR 0x0A"
abbreviation cr :: char where "cr \<equiv> CHR 0x0D"
abbreviation dquote :: char where "dquote \<equiv> CHR 0x22"
abbreviation comma :: char where "comma \<equiv> CHR 0x2C"

datatype csv_error = CsvEOF | ErrBareQuote | ErrQuote

text \<open>\<open>bytes.IndexByte\<close> and the cut at it: what is before the first occurrence, and what is after it if there is one.\<close>

fun cut_at :: "char \<Rightarrow> string \<Rightarrow> string \<times> string option" where
  "cut_at c [] = ([], None)"
| "cut_at c (x # xs) = (if x = c then ([], Some xs) else let (a, b) = cut_at c xs in (x # a, b))"

lemma cut_shorter: "cut_at c s = (a, Some b) \<Longrightarrow> length a + length b < length s"
  by (induction s arbitrary: a) (auto split: if_splits prod.splits)

lemma cut_none: "cut_at c s = (a, None) \<Longrightarrow> a = s"
  by (induction s arbitrary: a) (auto split: if_splits prod.splits)

lemma cut_append: "c \<notin> set a \<Longrightarrow> cut_at c (a @ c # b) = (a, Some b)"
  by (induction a) auto

lemma cut_absent: "c \<notin> set a \<Longrightarrow> cut_at c a = (a, None)"
  by (induction a) auto

lemma cut_subset: "set (fst (cut_at c s)) \<subseteq> set s"
  by (induction s) (auto split: prod.splits)

text \<open>\<open>readLine\<close>: a line with its newline, and the rest. A final carriage return is dropped, \<open>CR LF\<close> becomes \<open>LF\<close>.\<close>

definition drop_cr :: "string \<Rightarrow> string" where
  "drop_cr l = (if l \<noteq> [] \<and> last l = cr then butlast l else l)"

definition csv_readLine :: "string \<Rightarrow> (string \<times> string) option" where
  "csv_readLine s =
     (if s = [] then None
      else case cut_at nl s of
        (l, None) \<Rightarrow> Some (drop_cr l, [])
      | (l, Some r) \<Rightarrow> Some (drop_cr l @ [nl], r))"

lemma length_drop_cr: "length (drop_cr l) \<le> length l"
  by (simp add: drop_cr_def)

lemma csv_readLine_shorter:
  assumes "csv_readLine s = Some (l, r)"
  shows "length l + length r \<le> length s" "length r < length s"
proof -
  obtain a b where c: "cut_at nl s = (a, b)" by fastforce
  have "length l + length r \<le> length s \<and> length r < length s"
  proof (cases b)
    case None
    with assms c cut_none [of nl s a] length_drop_cr [of a] show ?thesis by (auto simp: csv_readLine_def split: if_splits)
  next
    case (Some x)
    with assms c cut_shorter [of nl s a x] length_drop_cr [of a] show ?thesis by (auto simp: csv_readLine_def split: if_splits)
  qed
  then show "length l + length r \<le> length s" "length r < length s" by auto
qed

definition drop_nl :: "string \<Rightarrow> string" where
  "drop_nl l = (if l \<noteq> [] \<and> last l = nl then butlast l else l)"

text \<open>\<open>readRecord\<close>: the fields of the current line; a quoted field may go on over the lines of the rest.\<close>

function (sequential) csv_fields :: "string \<Rightarrow> string \<Rightarrow> string list \<Rightarrow> csv_error + string list"
  and csv_quoted :: "string \<Rightarrow> string \<Rightarrow> string \<Rightarrow> string list \<Rightarrow> csv_error + string list" where
  "csv_fields line rest acc =
     (if line \<noteq> [] \<and> hd line = dquote then csv_quoted (tl line) rest [] acc
      else case cut_at comma line of
        (field, Some after) \<Rightarrow>
          if dquote \<in> set field then Inl ErrBareQuote else csv_fields after rest (acc @ [field])
      | (field, None) \<Rightarrow>
          if dquote \<in> set (drop_nl field) then Inl ErrBareQuote else Inr (acc @ [drop_nl field]))"
| "csv_quoted line rest buf acc = (case cut_at dquote line of
     (pre, Some line') \<Rightarrow>
       if line' \<noteq> [] \<and> hd line' = dquote then csv_quoted (tl line') rest (buf @ pre @ [dquote]) acc
       else if line' \<noteq> [] \<and> hd line' = comma then csv_fields (tl line') rest (acc @ [buf @ pre])
       else if drop_nl line' = [] then Inr (acc @ [buf @ pre])
       else Inl ErrQuote
   | (_, None) \<Rightarrow>
       if line \<noteq> [] then
         (case csv_readLine rest of
            None \<Rightarrow> csv_quoted [] [] (buf @ line) acc
          | Some (l, r) \<Rightarrow> csv_quoted l r (buf @ line) acc)
       else Inl ErrQuote)"
  by pat_completeness auto

termination
proof (relation "measure (case_sum (\<lambda>(l, r, _). length l + length r) (\<lambda>(l, r, _). length l + length r))")
  show "wf (measure (case_sum (\<lambda>(l :: string, r :: string, _ :: string list). length l + length r)
     (\<lambda>(l :: string, r :: string, _ :: string \<times> string list). length l + length r)))" by simp
qed (auto dest!: cut_shorter [OF sym] dest: csv_readLine_shorter(1) simp: neq_Nil_conv)

declare csv_fields.simps [simp del] csv_quoted.simps [simp del]

text \<open>\<open>Read\<close>: empty lines are skipped.\<close>

function csv_Read :: "string \<Rightarrow> csv_error + string list" where
  "csv_Read s = (case csv_readLine s of
     None \<Rightarrow> Inl CsvEOF
   | Some (l, r) \<Rightarrow> if drop_nl l = [] then csv_Read r else csv_fields l r [])"
  by pat_completeness auto

termination
  by (relation "measure length") (auto dest: csv_readLine_shorter(2))

declare csv_Read.simps [simp del]

definition csv_special :: "char \<Rightarrow> bool" where
  "csv_special c = (c = nl \<or> c = cr \<or> c = dquote \<or> c = comma)"

definition csv_needs_quotes :: "string \<Rightarrow> bool" where
  "csv_needs_quotes f =
     (if f = [] then False
      else if f = [CHR 0x5C, CHR ''.''] then True
      else list_ex csv_special f \<or> is_space (fst (decode_rune f)))"

definition csv_escape :: "string \<Rightarrow> string" where
  "csv_escape f = concat (map (\<lambda>c. if c = dquote then [dquote, dquote] else [c]) f)"

definition csv_field :: "string \<Rightarrow> string" where
  "csv_field f = (if csv_needs_quotes f then [dquote] @ csv_escape f @ [dquote] else f)"

definition csv_Write :: "string list \<Rightarrow> string" where
  "csv_Write rs = join_with [comma] (map csv_field rs) @ [nl]"

section \<open>The flag value\<close>

datatype flag_error = CsvError csv_error | NotKeyValue string

fun append_value :: "header \<Rightarrow> string \<Rightarrow> string \<Rightarrow> header" where
  "append_value [] k v = [(k, [v])]"
| "append_value ((k', vs) # m) k v = (if k' = k then (k', vs @ [v]) # m else (k', vs) # append_value m k v)"

fun set_pairs :: "header \<Rightarrow> string list \<Rightarrow> flag_error option \<times> header" where
  "set_pairs m [] = (None, m)"
| "set_pairs m (pair # ps) =
     (let kv = split_on CHR ''='' pair in
      if length kv \<noteq> 2 then (Some (NotKeyValue pair), [])
      else set_pairs (append_value m (kv ! 0) (kv ! 1)) ps)"

text \<open>\<open>Set\<close> and \<open>String\<close> of \<open>stringToStringSliceValue\<close>; a nil map is the empty one.\<close>

definition flag_Set :: "header \<Rightarrow> string \<Rightarrow> flag_error option \<times> header" where
  "flag_Set m val =
     (if val = [] then (None, m)
      else case csv_Read val of
        Inl e \<Rightarrow> (Some (CsvError e), [])
      | Inr ss \<Rightarrow> set_pairs m ss)"

definition flag_records :: "header \<Rightarrow> string list" where
  "flag_records m = concat (map (\<lambda>(k, vs). map (\<lambda>v. k @ ''='' @ v) vs) m)"

definition flag_String :: "header \<Rightarrow> string" where
  "flag_String m = ''['' @ trim_space (csv_Write (flag_records m)) @ '']''"

section \<open>What is written reads back\<close>

text \<open>The current line of a text without carriage returns, and what follows it.\<close>

definition line_of :: "string \<Rightarrow> string" where
  "line_of x = (case cut_at nl x of (l, None) \<Rightarrow> l | (l, Some _) \<Rightarrow> l @ [nl])"

definition rest_of :: "string \<Rightarrow> string" where
  "rest_of x = (case cut_at nl x of (_, None) \<Rightarrow> [] | (_, Some r) \<Rightarrow> r)"

lemma line_of_Cons [simp]:
  "line_of (nl # x) = [nl]" "rest_of (nl # x) = x"
  "c \<noteq> nl \<Longrightarrow> line_of (c # x) = c # line_of x" "c \<noteq> nl \<Longrightarrow> rest_of (c # x) = rest_of x"
  by (simp_all add: line_of_def rest_of_def split: prod.split option.split)

lemma line_of_Nil [simp]: "line_of [] = []" "rest_of [] = []"
  by (simp_all add: line_of_def rest_of_def)

lemma line_of_eq_Nil [simp]: "line_of x = [] \<longleftrightarrow> x = []"
  by (cases x; cases "hd x = nl") simp_all

lemma csv_readLine_eq:
  assumes "x \<noteq> []" "cr \<notin> set x"
  shows "csv_readLine x = Some (line_of x, rest_of x)"
proof -
  obtain l r where c: "cut_at nl x = (l, r)" by fastforce
  have "cr \<notin> set l" using assms(2) cut_subset [of nl x] c by auto
  then have "drop_cr l = l" by (cases l rule: rev_cases) (auto simp: drop_cr_def)
  then show ?thesis using assms(1) c by (cases r) (simp_all add: csv_readLine_def line_of_def rest_of_def)
qed

text \<open>A quoted field, one character at a time.\<close>

lemma csv_quoted_char:
  assumes "c \<noteq> dquote" "l \<noteq> []"
  shows "csv_quoted (c # l) r buf acc = csv_quoted l r (buf @ [c]) acc"
proof -
  obtain a b where "cut_at dquote l = (a, b)" by fastforce
  with assms show ?thesis
    by (cases b) (simp_all add: csv_quoted.simps [of "c # l"] csv_quoted.simps [of l] split: option.split)
qed

lemma csv_quoted_newline:
  "x \<noteq> [] \<Longrightarrow> cr \<notin> set x \<Longrightarrow> csv_quoted [nl] x buf acc = csv_quoted (line_of x) (rest_of x) (buf @ [nl]) acc"
  by (simp add: csv_quoted.simps [of "[nl]"] csv_readLine_eq)

lemma csv_quoted_pair: "csv_quoted (dquote # dquote # l) r buf acc = csv_quoted l r (buf @ [dquote]) acc"
  by (simp add: csv_quoted.simps [of "dquote # dquote # l"])

lemma csv_quoted_end:
  "csv_quoted [dquote] r buf acc = Inr (acc @ [buf])"
  "csv_quoted (dquote # comma # l) r buf acc = csv_fields l r (acc @ [buf])"
  by (simp_all add: csv_quoted.simps [of "dquote # _"] drop_nl_def)

lemma csv_quoted_reads:
  "cr \<notin> set f \<Longrightarrow> cr \<notin> set t \<Longrightarrow>
   csv_quoted (line_of (csv_escape f @ dquote # t)) (rest_of (csv_escape f @ dquote # t)) buf acc =
   csv_quoted (dquote # line_of t) (rest_of t) (buf @ f) acc"
proof (induction f arbitrary: buf)
  case (Cons c f)
  let ?x = "csv_escape f @ dquote # t"
  have x: "cr \<notin> set ?x" using Cons.prems by (auto simp: csv_escape_def)
  have e: "csv_escape (c # f) @ dquote # t = (if c = dquote then [dquote, dquote] else [c]) @ ?x" by (simp add: csv_escape_def)
  have IH: "csv_quoted (line_of ?x) (rest_of ?x) (buf @ [c]) acc = csv_quoted (dquote # line_of t) (rest_of t) (buf @ c # f) acc"
    using Cons.IH [of "buf @ [c]"] Cons.prems by simp
  consider "c = dquote" | "c = nl" | "c \<noteq> dquote" "c \<noteq> nl" by blast
  then show ?case
  proof cases
    case 1
    have "csv_escape (dquote # f) @ dquote # t = dquote # dquote # ?x" by (simp add: csv_escape_def)
    with IH 1 show ?thesis by (simp add: csv_quoted_pair)
  next
    case 2
    have "csv_escape (nl # f) @ dquote # t = nl # ?x" by (simp add: csv_escape_def)
    with IH 2 x show ?thesis by (simp add: csv_quoted_newline)
  next
    case 3
    with IH show ?thesis by (simp add: e csv_quoted_char)
  qed
qed (simp add: csv_escape_def)

lemma not_special_append:
  "list_all (\<lambda>c. \<not> csv_special c) f \<Longrightarrow> line_of (f @ t) = f @ line_of t \<and> rest_of (f @ t) = rest_of t"
  by (induction f) (auto simp: csv_special_def)

lemma not_special_facts:
  assumes "list_all (\<lambda>c. \<not> csv_special c) f"
  shows "comma \<notin> set f" "dquote \<notin> set f" "drop_nl f = f"
proof -
  show "comma \<notin> set f" "dquote \<notin> set f" using assms by (auto simp: list_all_iff csv_special_def)
  have "nl \<notin> set f" using assms by (auto simp: list_all_iff csv_special_def)
  then show "drop_nl f = f" by (cases f rule: rev_cases) (auto simp: drop_nl_def)
qed

lemma csv_fields_reads:
  assumes "cr \<notin> set f" "cr \<notin> set t"
  shows "csv_fields (line_of (csv_field f)) (rest_of (csv_field f)) acc = Inr (acc @ [f])" (is ?last)
    and "csv_fields (line_of (csv_field f @ comma # t)) (rest_of (csv_field f @ comma # t)) acc =
      csv_fields (line_of t) (rest_of t) (acc @ [f])" (is ?more)
proof -
  have q: "?last \<and> ?more" if "csv_needs_quotes f"
    using that csv_quoted_reads [OF assms(1), of "[]" "[]" acc] csv_quoted_reads [OF assms(1), of "comma # t" "[]" acc] assms(2)
    by (simp add: csv_field_def csv_fields.simps [of "dquote # _"] csv_quoted_end)
  have u: "?last \<and> ?more" if "\<not> csv_needs_quotes f"
  proof -
    have n: "list_all (\<lambda>c. \<not> csv_special c) f"
      using that by (auto simp: csv_needs_quotes_def list_all_iff list_ex_iff split: if_splits)
    have h: "f \<noteq> [] \<Longrightarrow> hd f \<noteq> dquote" using n by (cases f) (auto simp: csv_special_def)
    have f: "csv_field f = f" using that by (simp add: csv_field_def)
    note ns = not_special_facts [OF n]
    have hc: "hd (f @ comma # line_of t) \<noteq> dquote" using h by (cases f) auto
    have l: "line_of f = f" "rest_of f = []" "line_of (f @ comma # t) = f @ comma # line_of t" "rest_of (f @ comma # t) = rest_of t"
      using not_special_append [OF n, of "[]"] not_special_append [OF n, of "comma # t"] by simp_all
    have ?last using h ns by (auto simp: f l csv_fields.simps [of f] cut_absent)
    moreover have ?more using hc ns by (simp add: f l csv_fields.simps [of "f @ comma # line_of t"] cut_append)
    ultimately show ?thesis ..
  qed
  show ?last ?more using q u by blast+
qed

lemma csv_field_cr: "cr \<notin> set f \<Longrightarrow> cr \<notin> set (csv_field f)"
  by (auto simp: csv_field_def csv_escape_def)

lemma csv_line_cr: "\<forall>f \<in> set rs. cr \<notin> set f \<Longrightarrow> cr \<notin> set (join_with [comma] (map csv_field rs))"
proof (induction rs)
  case (Cons f rs)
  then show ?case by (cases rs) (auto simp: csv_field_cr)
qed simp

lemma csv_fields_line:
  "rs \<noteq> [] \<Longrightarrow> \<forall>f \<in> set rs. cr \<notin> set f \<Longrightarrow>
   (let x = join_with [comma] (map csv_field rs) in csv_fields (line_of x) (rest_of x) acc) = Inr (acc @ rs)"
proof (induction rs arbitrary: acc)
  case (Cons f rs)
  show ?case
  proof (cases rs)
    case Nil
    with Cons.prems show ?thesis by (simp add: csv_fields_reads(1) [of f "[]"])
  next
    case (Cons g gs)
    let ?t = "join_with [comma] (map csv_field (g # gs))"
    have "cr \<notin> set f" "cr \<notin> set ?t" using Cons Cons.prems csv_line_cr [of "g # gs"] by auto
    note r = csv_fields_reads(2) [OF this, of acc]
    show ?thesis using r Cons.IH [of "acc @ [f]"] Cons.prems Cons by (simp add: Let_def)
  qed
qed simp

lemma csv_Read_line:
  assumes "rs \<noteq> []" "hd rs \<noteq> []" "\<forall>f \<in> set rs. cr \<notin> set f"
  shows "csv_Read (join_with [comma] (map csv_field rs)) = Inr rs"
proof -
  let ?x = "join_with [comma] (map csv_field rs)"
  obtain f fs where rs: "rs = f # fs" using assms(1) by (cases rs) auto
  obtain c cs where f: "f = c # cs" using assms(2) rs by (cases f) auto
  have c: "\<exists>c' cs'. csv_field f = c' # cs' \<and> c' \<noteq> nl"
    using f by (auto simp: csv_field_def csv_needs_quotes_def csv_special_def split: if_splits)
  then obtain c' y where x: "?x = c' # y" "c' \<noteq> nl"
    by (cases fs) (auto simp: rs)
  have "drop_nl (line_of ?x) \<noteq> []"
    using x by (auto simp: drop_nl_def)
  with x csv_readLine_eq [of ?x] csv_line_cr [OF assms(3)] csv_fields_line [OF assms(1,3), of "[]"] show ?thesis
    by (subst csv_Read.simps) (simp add: Let_def)
qed

lemma trim_space_newline:
  assumes "\<forall>c \<in> set x. byte_of c < 128" "x \<noteq> []" "\<not> is_space (byte_of (hd x))" "\<not> is_space (byte_of (last x))"
  shows "trim_space (x @ [nl]) = x"
proof -
  let ?g = "\<lambda>c. (byte_of c, [c])"
  have r: "rune_chunks (x @ [nl]) = map ?g x @ [?g nl]"
    using rune_chunks_ascii [of "x @ [nl]"] assms(1) by simp
  have n: "is_space (byte_of nl)" by (simp add: is_space_def)
  obtain y z where x: "x = y @ [z]" using assms(2) by (cases x rule: rev_cases) auto
  have a: "dropWhile (is_space \<circ> fst) (map ?g x @ [?g nl]) = map ?g x @ [?g nl]"
    using assms(2,3) by (cases x) simp_all
  have b: "dropWhile (is_space \<circ> fst) (List.rev (map ?g x @ [?g nl])) = List.rev (map ?g x)"
    using assms(4) n by (simp add: x)
  have "concat (map snd (map ?g x)) = x" by (induction x) simp_all
  then show ?thesis by (simp only: trim_space_def r a b rev_rev_ident)
qed

lemma split_on_absent: "c \<notin> set a \<Longrightarrow> split_on c a = [a]"
  by (induction a) auto

lemma split_on_pair: "c \<notin> set k \<Longrightarrow> c \<notin> set v \<Longrightarrow> split_on c (k @ c # v) = [k, v]"
  by (induction k) (auto simp: split_on_absent)

lemma append_value_new: "k \<notin> fst ` set m \<Longrightarrow> append_value m k v = m @ [(k, [v])]"
  by (induction m) auto

lemma append_value_last: "k \<notin> fst ` set m \<Longrightarrow> append_value (m @ [(k, vs)]) k v = m @ [(k, vs @ [v])]"
  by (induction m) auto

definition flag_plain :: "string \<Rightarrow> bool" where
  "flag_plain s = (\<forall>c \<in> set s. byte_of c < 128 \<and> c \<noteq> CHR ''='' \<and> c \<noteq> cr)"

lemma set_pairs_values:
  "flag_plain k \<Longrightarrow> \<forall>v \<in> set vs. flag_plain v \<Longrightarrow> k \<notin> fst ` set m \<Longrightarrow>
   set_pairs (m @ [(k, ws)]) (map (\<lambda>v. k @ ''='' @ v) vs @ rs) = set_pairs (m @ [(k, ws @ vs)]) rs"
proof (induction vs arbitrary: ws)
  case (Cons v vs)
  have "split_on CHR ''='' (k @ CHR ''='' # v) = [k, v]"
    using Cons.prems by (intro split_on_pair) (auto simp: flag_plain_def)
  with Cons show ?case by (simp add: append_value_last)
qed simp

lemma set_pairs_records:
  "distinct (map fst m) \<Longrightarrow> fst ` set m \<inter> fst ` set m0 = {} \<Longrightarrow>
   \<forall>(k, vs) \<in> set m. vs \<noteq> [] \<and> flag_plain k \<and> (\<forall>v \<in> set vs. flag_plain v) \<Longrightarrow>
   set_pairs m0 (flag_records m) = (None, m0 @ m)"
proof (induction m arbitrary: m0)
  case Nil
  then show ?case by (simp add: flag_records_def)
next
  case (Cons e m)
  obtain k v vs where e: "e = (k, v # vs)" using Cons.prems(3) by (cases e; cases "snd e") auto
  have p: "flag_plain k" "flag_plain v" "\<forall>v \<in> set vs. flag_plain v" "k \<notin> fst ` set m0"
    using Cons.prems e by auto
  have sp: "split_on CHR ''='' (k @ CHR ''='' # v) = [k, v]"
    using p by (intro split_on_pair) (auto simp: flag_plain_def)
  have "set_pairs m0 (flag_records (e # m)) = set_pairs (m0 @ [(k, [v])]) (map (\<lambda>v. k @ ''='' @ v) vs @ flag_records m)"
    using sp by (simp add: flag_records_def e append_value_new [OF p(4)])
  also have "\<dots> = set_pairs (m0 @ [e]) (flag_records m)"
    using set_pairs_values [OF p(1,3,4), of "[v]"] by (simp add: e)
  also have "\<dots> = (None, (m0 @ [e]) @ m)" using Cons.prems e by (intro Cons.IH) auto
  finally show ?case by simp
qed

lemma csv_field_ends:
  assumes "f \<noteq> []" "\<forall>c \<in> set f. byte_of c < 128"
  shows "csv_field f \<noteq> []" "\<forall>c \<in> set (csv_field f). byte_of c < 128" "\<not> is_space (byte_of (hd (csv_field f)))"
    "\<not> is_space (byte_of (last f)) \<Longrightarrow> \<not> is_space (byte_of (last (csv_field f)))"
proof -
  obtain c cs where f: "f = c # cs" using assms(1) by (cases f) auto
  have d: "fst (decode_rune f) = byte_of c" using assms(2) by (simp add: f)
  have q: "\<not> is_space (byte_of dquote)" by (simp add: is_space_def)
  show "csv_field f \<noteq> []" "\<forall>c \<in> set (csv_field f). byte_of c < 128" using assms by (auto simp: csv_field_def csv_escape_def)
  show "\<not> is_space (byte_of (hd (csv_field f)))"
    using q d by (auto simp: csv_field_def csv_needs_quotes_def f split: if_splits)
  show "\<not> is_space (byte_of (last f)) \<Longrightarrow> \<not> is_space (byte_of (last (csv_field f)))"
    using q by (auto simp: csv_field_def)
qed

lemma join_with_ends:
  "xs \<noteq> [] \<Longrightarrow> \<forall>x \<in> set xs. x \<noteq> [] \<Longrightarrow>
   join_with sep xs \<noteq> [] \<and> hd (join_with sep xs) = hd (hd xs) \<and> last (join_with sep xs) = last (last xs)"
  by (induction sep xs rule: join_with.induct) auto

lemma set_join_with: "set (join_with sep xs) \<subseteq> set sep \<union> \<Union> (set ` set xs)"
  by (induction sep xs rule: join_with.induct) auto


definition demo_flag :: header where
  "demo_flag = [(''a'', [''x,y'', ''1 2'']), (''b c'', [[nl, dquote]])]"


end
