(* ===== verification/Options.thy ===== *)
theory Options
  imports SubjectAccessReview Flags
begin

text \<open>
  The command-line options, \<^verbatim>\<open>cmd/app/options\<close>: the option structs with the values flag registration
  gives them, and what \<open>Validate\<close> refuses. Durations are nanoseconds. What the options read of the
  outside (files, key pairs, the validation of the embedded Kubernetes option structs) is the record
  \<open>opt_env\<close>; which flags the command line changed is the record \<open>cmd\<close>. The usage texts, and the flags of the embedded
  Kubernetes option structs, are not modelled.
\<close>

section \<open>The option structs and their defaults\<close>

record token_passthrough =
  tp_Audiences :: "string list"
  tp_RequestTimeout :: int
  tp_Enabled :: bool
  tp_CacheSuccessTTL :: int
  tp_CacheFailureTTL :: int

record extra_header_options =
  eh_EnableClientIP :: bool
  eh_ExtraUserHeaders :: "(string \<times> string list) list"

record app_options =
  ao_DisableImpersonation :: bool
  ao_ReadinessProbePort :: int
  ao_ReadinessRequireAllIssuers :: bool
  ao_FlushInterval :: int
  ao_SubjectAccessReviewTimeout :: int
  ao_SubjectAccessReviewAllowCacheTTL :: int
  ao_SubjectAccessReviewDenyCacheTTL :: int
  ao_MaxImpersonationHeaderValues :: int
  ao_ExtraHeaderOptions :: extra_header_options
  ao_TokenPassthrough :: token_passthrough
  ao_TrustedProxies :: "string list"
  ao_AllowedReservedGroups :: "string list"

record oidc_options =
  oo_CAFile :: string
  oo_TLSClientCertFile :: string
  oo_TLSClientKeyFile :: string
  oo_ClientID :: string
  oo_IssuerURL :: string
  oo_UsernameClaim :: string
  oo_UsernamePrefix :: string
  oo_GroupsClaim :: string
  oo_GroupsPrefix :: string
  oo_SigningAlgs :: "string list"
  oo_RequiredClaims :: "(string \<times> string) list"

record options =
  op_App :: app_options
  op_OIDCAuthentication :: oidc_options
  op_ConfigFile :: string
  op_BindAddress :: string
  op_BindPort :: int
  op_Format :: string
  op_v :: "string option"
  op_MetricsBindAddress :: string

abbreviation seconds :: "int \<Rightarrow> int" where "seconds n \<equiv> n * 1000000000"

definition DefaultTimeout :: int where "DefaultTimeout = seconds 5"
definition DefaultAllowCacheTTL :: int where "DefaultAllowCacheTTL = seconds 10"
definition DefaultDenyCacheTTL :: int where "DefaultDenyCacheTTL = seconds 10"
definition DefaultMaxHeaderValues :: int where "DefaultMaxHeaderValues = 64"

definition token_passthrough_AddFlags :: token_passthrough where
  "token_passthrough_AddFlags = \<lparr>tp_Audiences = [], tp_RequestTimeout = seconds 10, tp_Enabled = False,
     tp_CacheSuccessTTL = seconds 10, tp_CacheFailureTTL = seconds 10\<rparr>"

definition extra_header_AddFlags :: extra_header_options where
  "extra_header_AddFlags = \<lparr>eh_EnableClientIP = False, eh_ExtraUserHeaders = []\<rparr>"

definition NewKubeOIDCProxyOptions :: app_options where
  "NewKubeOIDCProxyOptions = \<lparr>ao_DisableImpersonation = False, ao_ReadinessProbePort = 8080,
     ao_ReadinessRequireAllIssuers = False, ao_FlushInterval = 50 * 1000000,
     ao_SubjectAccessReviewTimeout = DefaultTimeout, ao_SubjectAccessReviewAllowCacheTTL = DefaultAllowCacheTTL,
     ao_SubjectAccessReviewDenyCacheTTL = DefaultDenyCacheTTL, ao_MaxImpersonationHeaderValues = DefaultMaxHeaderValues,
     ao_ExtraHeaderOptions = extra_header_AddFlags, ao_TokenPassthrough = token_passthrough_AddFlags,
     ao_TrustedProxies = [], ao_AllowedReservedGroups = []\<rparr>"

definition NewOIDCAuthenticationOptions :: oidc_options where
  "NewOIDCAuthenticationOptions = \<lparr>oo_CAFile = [], oo_TLSClientCertFile = [], oo_TLSClientKeyFile = [], oo_ClientID = [],
     oo_IssuerURL = [], oo_UsernameClaim = ''sub'', oo_UsernamePrefix = [], oo_GroupsClaim = [], oo_GroupsPrefix = [],
     oo_SigningAlgs = [''RS256''], oo_RequiredClaims = []\<rparr>"

text \<open>The flags registered in the set \<open>OIDC\<close>.\<close>

definition oidc_flags :: "string list" where
  "oidc_flags = [''oidc-issuer-url'', ''oidc-client-id'', ''oidc-ca-file'', ''oidc-tls-client-cert-file'', ''oidc-tls-client-key-file'',
     ''oidc-username-claim'', ''oidc-username-prefix'', ''oidc-groups-claim'', ''oidc-groups-prefix'', ''oidc-signing-algs'',
     ''oidc-required-claim'']"

definition options_New :: options where
  "options_New = \<lparr>op_App = NewKubeOIDCProxyOptions, op_OIDCAuthentication = NewOIDCAuthenticationOptions, op_ConfigFile = [],
     op_BindAddress = ''0.0.0.0'', op_BindPort = 6443, op_Format = ''json'', op_v = Some ''0'', op_MetricsBindAddress = []\<rparr>"

section \<open>Validation\<close>

text \<open>\<open>strconv.Atoi\<close>: an optional sign and decimal digits, within 64 bits.\<close>

fun digits_value :: "nat \<Rightarrow> string \<Rightarrow> nat option" where
  "digits_value n [] = Some n"
| "digits_value n (c # cs) = (if is_digit c then digits_value (n * 10 + (byte_of c - 48)) cs else None)"

definition atoi :: "string \<Rightarrow> int option" where
  "atoi s = (let neg = (s \<noteq> [] \<and> hd s = CHR ''-'');
       ds = (if s \<noteq> [] \<and> (hd s = CHR ''-'' \<or> hd s = CHR ''+'') then tl s else s) in
     if ds = [] then None
     else case digits_value 0 ds of
       None \<Rightarrow> None
     | Some n \<Rightarrow> let v = (if neg then - int n else int n) in
         if - (2 ^ 63) \<le> v \<and> v < 2 ^ 63 then Some v else None)"

text \<open>Why \<open>SplitHostPort\<close> refused an address.\<close>

definition addr_error :: "string \<Rightarrow> err" where
  "addr_error hp = NewError (''address '' @ hp @ '': '' @
     (case last_index_char CHR '':'' hp of
        None \<Rightarrow> ''missing port in address''
      | Some i \<Rightarrow>
          if hd hp = CHR ''['' then
            (case index_char CHR '']'' hp of
               None \<Rightarrow> ''missing '' @ [CHR 0x27] @ '']'' @ [CHR 0x27] @ '' in address''
             | Some e \<Rightarrow>
                 if e + 1 = length hp then ''missing port in address''
                 else if e + 1 \<noteq> i then
                   (if hp ! (e + 1) = CHR '':'' then ''too many colons in address'' else ''missing port in address'')
                 else if index_char CHR ''['' (drop 1 hp) \<noteq> None
                 then ''unexpected '' @ [CHR 0x27] @ ''['' @ [CHR 0x27] @ '' in address''
                 else ''unexpected '' @ [CHR 0x27] @ '']'' @ [CHR 0x27] @ '' in address'')
          else if index_char CHR '':'' (take i hp) \<noteq> None then ''too many colons in address''
          else if index_char CHR ''['' hp \<noteq> None
          then ''unexpected '' @ [CHR 0x27] @ ''['' @ [CHR 0x27] @ '' in address''
          else ''unexpected '' @ [CHR 0x27] @ '']'' @ [CHR 0x27] @ '' in address''))"

definition metrics_Enabled :: "options \<Rightarrow> bool" where
  "metrics_Enabled opts = (op_MetricsBindAddress opts \<noteq> [] \<and> op_MetricsBindAddress opts \<noteq> ''0'')"

definition metrics_Port :: "options \<Rightarrow> err + int" where
  "metrics_Port opts = (case split_host_port (op_MetricsBindAddress opts) of
     None \<Rightarrow> let e = addr_error (op_MetricsBindAddress opts) in
       Inl (Errorf (''--metrics-bind-address must be host:port, got '' @ go_quote (op_MetricsBindAddress opts) @ '': '' @ err_text e) [e])
   | Some (_, portText) \<Rightarrow>
       case atoi portText of
         Some port \<Rightarrow>
           if port < 1 \<or> port > 65535
           then Inl (NewError (''--metrics-bind-address port must be a number between 1 and 65535, got '' @ go_quote portText))
           else Inr port
       | None \<Rightarrow> Inl (NewError (''--metrics-bind-address port must be a number between 1 and 65535, got '' @ go_quote portText)))"

definition metrics_Validate :: "options \<Rightarrow> err option" where
  "metrics_Validate opts =
     (if \<not> metrics_Enabled opts then None
      else case metrics_Port opts of Inl e \<Rightarrow> Some e | Inr _ \<Rightarrow> None)"

definition logging_Validate :: "options \<Rightarrow> err option" where
  "logging_Validate opts =
     (if op_Format opts = ''json'' \<or> op_Format opts = ''text'' then None
      else Some (NewError (''--logging-format must be '' @ go_quote ''json'' @ '' or '' @ go_quote ''text'' @
             '', got '' @ go_quote (op_Format opts))))"

definition Verbosity :: "options \<Rightarrow> int" where
  "Verbosity opts = (case op_v opts of None \<Rightarrow> 0 | Some f \<Rightarrow> (case atoi f of None \<Rightarrow> 0 | Some v \<Rightarrow> v))"

record opt_env =
  oe_Stat :: "string \<Rightarrow> err option"
  oe_LoadX509KeyPair :: "string \<Rightarrow> string \<Rightarrow> err option"
  oe_ReadFile :: "string \<Rightarrow> err + string"
  oe_SecureServing :: "options \<Rightarrow> err list"
  oe_Audit :: "options \<Rightarrow> err list"

record cmd =
  cmd_version :: bool
  cmd_changed :: "string \<Rightarrow> bool"

definition authconfig_Validate :: "opt_env \<Rightarrow> options \<Rightarrow> err option" where
  "authconfig_Validate oe opts =
     (if op_ConfigFile opts = [] then None
      else case oe_Stat oe (op_ConfigFile opts) of
        Some e \<Rightarrow> Some (Errorf (''authentication-config file '' @ go_quote (op_ConfigFile opts) @ '': '' @ err_text e) [e])
      | None \<Rightarrow> None)"

definition oidc_Validate :: "opt_env \<Rightarrow> oidc_options \<Rightarrow> bool \<Rightarrow> err option" where
  "oidc_Validate oe opts authConfigSet =
     (if (oo_TLSClientCertFile opts = []) \<noteq> (oo_TLSClientKeyFile opts = [])
      then Some (NewError ''--oidc-tls-client-cert-file and --oidc-tls-client-key-file must be specified together'')
      else case (if oo_TLSClientCertFile opts \<noteq> [] then oe_LoadX509KeyPair oe (oo_TLSClientCertFile opts) (oo_TLSClientKeyFile opts) else None) of
        Some e \<Rightarrow> Some (Errorf (''loading OIDC TLS client certificate and key: '' @ err_text e) [e])
      | None \<Rightarrow>
          if authConfigSet then None
          else if (oo_IssuerURL opts \<noteq> []) \<noteq> (oo_ClientID opts \<noteq> [])
          then Some (NewError ''oidc-issuer-url and oidc-client-id should be specified together'')
          else case (if oo_CAFile opts \<noteq> [] then oe_ReadFile oe (oo_CAFile opts) else Inr []) of
            Inl e \<Rightarrow> Some (Errorf (''oidc-ca-file '' @ go_quote (oo_CAFile opts) @ '': '' @ err_text e) [e])
          | Inr _ \<Rightarrow> None)"

definition oidcFlagsChanged :: "cmd \<Rightarrow> bool" where
  "oidcFlagsChanged c = list_ex (\<lambda>f. f \<noteq> ''oidc-tls-client-cert-file'' \<and> f \<noteq> ''oidc-tls-client-key-file'' \<and> cmd_changed c f) oidc_flags"

abbreviation err_if :: "bool \<Rightarrow> string \<Rightarrow> err list" where
  "err_if b t \<equiv> (if b then [NewError t] else [])"

abbreviation err_list :: "err option \<Rightarrow> err list" where
  "err_list e \<equiv> (case e of Some x \<Rightarrow> [x] | None \<Rightarrow> [])"

text \<open>The ports are compared only when the metrics address was accepted.\<close>

definition metrics_errors :: "options \<Rightarrow> err list" where
  "metrics_errors opts = (case metrics_Validate opts of
     Some e \<Rightarrow> [e]
   | None \<Rightarrow>
       if metrics_Enabled opts then
         (let port = (case metrics_Port opts of Inr p \<Rightarrow> p | Inl _ \<Rightarrow> 0) in
          err_if (port = ao_ReadinessProbePort (op_App opts))
            (''--metrics-bind-address port '' @ itoa port @ '' is already used by the readiness probe'') @
          err_if (port = op_BindPort opts)
            (''--metrics-bind-address port '' @ itoa port @ '' is already used by the secure serving port''))
       else [])"

definition app_errors :: "app_options \<Rightarrow> err list" where
  "app_errors a =
     err_if (ao_DisableImpersonation a \<and>
         (eh_EnableClientIP (ao_ExtraHeaderOptions a) \<or> length (eh_ExtraUserHeaders (ao_ExtraHeaderOptions a)) > 0))
       ''cannot add extra user headers when impersonation disabled'' @
     err_if (tp_Enabled (ao_TokenPassthrough a) \<and> tp_RequestTimeout (ao_TokenPassthrough a) \<le> 0)
       ''--token-passthrough-request-timeout must be greater than zero'' @
     err_if (tp_CacheSuccessTTL (ao_TokenPassthrough a) < 0) ''--token-passthrough-cache-success-ttl must not be negative'' @
     err_if (tp_CacheFailureTTL (ao_TokenPassthrough a) < 0) ''--token-passthrough-cache-failure-ttl must not be negative'' @
     err_if (ao_SubjectAccessReviewTimeout a \<le> 0)
       (''--subject-access-review-timeout must be greater than 0, got '' @ duration_string (ao_SubjectAccessReviewTimeout a)) @
     err_if (ao_SubjectAccessReviewAllowCacheTTL a < 0)
       (''--subject-access-review-cache-allow-ttl must not be negative (0 disables caching of allowed decisions), got '' @
        duration_string (ao_SubjectAccessReviewAllowCacheTTL a)) @
     err_if (ao_SubjectAccessReviewDenyCacheTTL a < 0)
       (''--subject-access-review-cache-deny-ttl must not be negative (0 disables caching of denied decisions), got '' @
        duration_string (ao_SubjectAccessReviewDenyCacheTTL a)) @
     err_if (ao_MaxImpersonationHeaderValues a \<le> 0)
       (''--max-impersonation-header-values must be greater than 0, got '' @ itoa (ao_MaxImpersonationHeaderValues a))"

text \<open>\<open>Options.Validate\<close>: None when the version is printed and the process exits, otherwise the errors to aggregate.\<close>

definition Options_Validate :: "opt_env \<Rightarrow> cmd \<Rightarrow> options \<Rightarrow> err list option" where
  "Options_Validate oe c opts =
     (if cmd_version c then None
      else
        let authConfigSet = (op_ConfigFile opts \<noteq> []) in
        Some (err_list (authconfig_Validate oe opts) @
          err_if (authConfigSet \<and> oidcFlagsChanged c)
            ''authentication-config and issuer-specific --oidc-* flags are mutually exclusive'' @
          err_list (oidc_Validate oe (op_OIDCAuthentication opts) authConfigSet) @
          oe_SecureServing oe opts @
          err_if (op_BindPort opts = ao_ReadinessProbePort (op_App opts))
            (''unable to securely serve on port '' @ itoa (op_BindPort opts) @ '' (used by readiness probe)'') @
          oe_Audit oe opts @
          err_list (logging_Validate opts) @
          metrics_errors opts @
          app_errors (op_App opts)))"

definition clientOptionFlags :: "string list" where
  "clientOptionFlags = [''certificate-authority'', ''client-certificate'', ''client-key'', ''cluster'', ''context'',
     ''insecure-skip-tls-verify'', ''kubeconfig'', ''namespace'', ''request-timeout'', ''server'', ''token'', ''user'']"

definition ClientFlagsChanged :: "cmd \<Rightarrow> bool" where
  "ClientFlagsChanged c = list_ex (cmd_changed c) clientOptionFlags"

section \<open>What validation accepts\<close>

lemma err_list_Nil: "err_list e = [] \<longleftrightarrow> e = None"
  by (cases e) simp_all

definition metrics_address_ok :: "options \<Rightarrow> bool" where
  "metrics_address_ok opts = (case split_host_port (op_MetricsBindAddress opts) of
     None \<Rightarrow> False
   | Some (_, portText) \<Rightarrow> (case atoi portText of
       None \<Rightarrow> False
     | Some port \<Rightarrow> 1 \<le> port \<and> port \<le> 65535 \<and> port \<noteq> ao_ReadinessProbePort (op_App opts) \<and> port \<noteq> op_BindPort opts))"

definition oidc_ok :: "opt_env \<Rightarrow> options \<Rightarrow> bool" where
  "oidc_ok oe opts = (let oo = op_OIDCAuthentication opts in
     (oo_TLSClientCertFile oo = [] \<longleftrightarrow> oo_TLSClientKeyFile oo = []) \<and>
     (oo_TLSClientCertFile oo \<noteq> [] \<longrightarrow> oe_LoadX509KeyPair oe (oo_TLSClientCertFile oo) (oo_TLSClientKeyFile oo) = None) \<and>
     (op_ConfigFile opts = [] \<longrightarrow>
        (oo_IssuerURL oo = [] \<longleftrightarrow> oo_ClientID oo = []) \<and>
        (oo_CAFile oo \<noteq> [] \<longrightarrow> (\<exists>pem. oe_ReadFile oe (oo_CAFile oo) = Inr pem))))"

definition app_ok :: "app_options \<Rightarrow> bool" where
  "app_ok a = (let tp = ao_TokenPassthrough a; eh = ao_ExtraHeaderOptions a in
     (ao_DisableImpersonation a \<longrightarrow> \<not> eh_EnableClientIP eh \<and> eh_ExtraUserHeaders eh = []) \<and>
     (tp_Enabled tp \<longrightarrow> 0 < tp_RequestTimeout tp) \<and> 0 \<le> tp_CacheSuccessTTL tp \<and> 0 \<le> tp_CacheFailureTTL tp \<and>
     0 < ao_SubjectAccessReviewTimeout a \<and> 0 \<le> ao_SubjectAccessReviewAllowCacheTTL a \<and>
     0 \<le> ao_SubjectAccessReviewDenyCacheTTL a \<and> 0 < ao_MaxImpersonationHeaderValues a)"

definition options_ok :: "opt_env \<Rightarrow> cmd \<Rightarrow> options \<Rightarrow> bool" where
  "options_ok oe c opts =
     ((op_ConfigFile opts \<noteq> [] \<longrightarrow> oe_Stat oe (op_ConfigFile opts) = None \<and> \<not> oidcFlagsChanged c) \<and>
      oidc_ok oe opts \<and> oe_SecureServing oe opts = [] \<and> oe_Audit oe opts = [] \<and>
      op_BindPort opts \<noteq> ao_ReadinessProbePort (op_App opts) \<and>
      (op_Format opts = ''json'' \<or> op_Format opts = ''text'') \<and>
      (op_MetricsBindAddress opts = [] \<or> op_MetricsBindAddress opts = ''0'' \<or> metrics_address_ok opts) \<and>
      app_ok (op_App opts))"

lemma metrics_errors_Nil:
  "metrics_errors opts = [] \<longleftrightarrow> op_MetricsBindAddress opts = [] \<or> op_MetricsBindAddress opts = ''0'' \<or> metrics_address_ok opts"
proof (cases "metrics_Enabled opts")
  case False
  then show ?thesis by (auto simp: metrics_errors_def metrics_Validate_def metrics_Enabled_def)
next
  case True
  show ?thesis
  proof (cases "split_host_port (op_MetricsBindAddress opts)")
    case None
    with True show ?thesis
      by (simp add: metrics_errors_def metrics_Validate_def metrics_Port_def metrics_address_ok_def Let_def)
         (simp add: metrics_Enabled_def)
  next
    case (Some hp)
    obtain host portText where hp: "hp = (host, portText)" by fastforce
    from True Some show ?thesis
      by (cases "atoi portText")
         (auto simp: hp metrics_errors_def metrics_Validate_def metrics_Port_def metrics_address_ok_def metrics_Enabled_def)
  qed
qed

lemma oidc_Validate_None: "oidc_Validate oe (op_OIDCAuthentication opts) (op_ConfigFile opts \<noteq> []) = None \<longleftrightarrow> oidc_ok oe opts"
  by (simp add: oidc_Validate_def oidc_ok_def Let_def split: option.split sum.split)

lemma app_errors_Nil: "app_errors a = [] \<longleftrightarrow> app_ok a"
  by (simp add: app_errors_def app_ok_def Let_def not_le not_less) blast

lemma authconfig_Validate_None:
  "authconfig_Validate oe opts = None \<longleftrightarrow> (op_ConfigFile opts \<noteq> [] \<longrightarrow> oe_Stat oe (op_ConfigFile opts) = None)"
  by (simp add: authconfig_Validate_def split: option.split)

lemmas validators_Nil = metrics_errors_Nil oidc_Validate_None app_errors_Nil authconfig_Validate_None err_list_Nil

lemma Options_Validate_Nil: "Options_Validate oe c opts = Some [] \<longleftrightarrow> \<not> cmd_version c \<and> options_ok oe c opts"
proof -
  have l: "logging_Validate opts = None \<longleftrightarrow> op_Format opts = ''json'' \<or> op_Format opts = ''text''"
    by (simp add: logging_Validate_def)
  show ?thesis
    by (simp only: Options_Validate_def options_ok_def Let_def append_is_Nil_conv validators_Nil l option.inject
        if_split [of "\<lambda>x. x = _"] list.distinct option.distinct) blast
qed

text \<open>
  C26. Validation accepts exactly the sound configurations. \<open>Options.Validate\<close> reports no error
  precisely when the authentication source is one and readable, the client certificate and its key come
  together and load, the listener ports differ, the log format and the metrics address are well
  formed, and every lifetime, timeout and cap is in range.
\<close>

theorem validate_accepts_exactly:
  "(Options_Validate oe c opts = Some []) = (\<not> cmd_version c \<and> options_ok oe c opts)"
  by (rule Options_Validate_Nil)

text \<open>
  What validation lets through can be built. With no error reported the impersonation reviewer is
  built with a positive budget and cap, the root logger takes the format, the metrics port, when there is
  one, is a real port that neither other listener uses, and no other listener pair shares one.
\<close>

theorem validated_options_build:
  assumes "Options_Validate oe c opts = Some []"
  shows "(\<exists>sr. sar_New (ao_SubjectAccessReviewTimeout (op_App opts)) (ao_MaxImpersonationHeaderValues (op_App opts)) lg = Inr sr \<and>
       0 < sar_timeout sr \<and> 0 < sar_maxHeaderValues sr) \<and>
    log_options_validate (op_Format opts) = None \<and>
    op_BindPort opts \<noteq> ao_ReadinessProbePort (op_App opts) \<and>
    (metrics_Enabled opts \<longrightarrow> (\<exists>port. metrics_Port opts = Inr port \<and> 1 \<le> port \<and> port \<le> 65535 \<and>
       port \<notin> {op_BindPort opts, ao_ReadinessProbePort (op_App opts)}))"
proof -
  have ok: "options_ok oe c opts" using assms by (simp add: Options_Validate_Nil)
  then have a: "app_ok (op_App opts)" and f: "op_Format opts = ''json'' \<or> op_Format opts = ''text''"
    and b: "op_BindPort opts \<noteq> ao_ReadinessProbePort (op_App opts)"
    by (auto simp only: options_ok_def)
  have "metrics_Enabled opts \<Longrightarrow> metrics_address_ok opts" using ok by (auto simp: options_ok_def metrics_Enabled_def)
  then have m: "metrics_Enabled opts \<longrightarrow> (\<exists>port. metrics_Port opts = Inr port \<and> 1 \<le> port \<and> port \<le> 65535 \<and>
       port \<notin> {op_BindPort opts, ao_ReadinessProbePort (op_App opts)})"
    by (auto simp: metrics_address_ok_def metrics_Port_def split: option.splits)
  have "\<exists>sr. sar_New (ao_SubjectAccessReviewTimeout (op_App opts)) (ao_MaxImpersonationHeaderValues (op_App opts)) lg = Inr sr \<and>
       0 < sar_timeout sr \<and> 0 < sar_maxHeaderValues sr"
    using a by (auto simp: sar_New_def app_ok_def Let_def)
  with f b m show ?thesis by (auto simp: log_options_validate_def)
qed

definition demo_opt_env :: opt_env where
  "demo_opt_env = \<lparr>oe_Stat = (\<lambda>_. None), oe_LoadX509KeyPair = (\<lambda>_ _. None), oe_ReadFile = (\<lambda>_. Inr []),
     oe_SecureServing = (\<lambda>_. []), oe_Audit = (\<lambda>_. [])\<rparr>"

definition demo_cmd :: cmd where
  "demo_cmd = \<lparr>cmd_version = False, cmd_changed = (\<lambda>_. False)\<rparr>"

definition demo_options :: options where
  "demo_options = options_New\<lparr>op_MetricsBindAddress := ''127.0.0.1:9090''\<rparr>"

lemma demo_options_valid: "Options_Validate demo_opt_env demo_cmd demo_options = Some []"
proof -
  have "metrics_address_ok demo_options" by code_simp
  moreover have "app_ok (op_App demo_options)" by code_simp
  moreover have "oidc_ok demo_opt_env demo_options"
    by (simp add: oidc_ok_def demo_options_def demo_opt_env_def options_New_def NewOIDCAuthenticationOptions_def)
  ultimately have "options_ok demo_opt_env demo_cmd demo_options"
    by (simp add: options_ok_def demo_options_def demo_opt_env_def options_New_def NewKubeOIDCProxyOptions_def)
  then show ?thesis by (simp add: Options_Validate_Nil demo_cmd_def)
qed

theorem validated_options_build_witness:
  "\<exists>sr. sar_New DefaultTimeout DefaultMaxHeaderValues None = Inr sr \<and> 0 < sar_timeout sr \<and> 0 < sar_maxHeaderValues sr"
  using validated_options_build [OF demo_options_valid, of None]
  by (simp add: demo_options_def options_New_def NewKubeOIDCProxyOptions_def)

end
