(* ===== verification/Probe.thy ===== *)
theory Probe
  imports Metrics Machines
begin

text \<open>
  Readiness, \<^verbatim>\<open>pkg/probe/probe.go\<close>. \<open>hc\<close> is the configured part of a \<open>HealthCheck\<close>, \<open>hc_state\<close> the part that
  changes. A check takes the lock twice and probes the issuers in between without it, so it is cut
  into its three atomic parts: \<open>toProbe\<close>, \<open>probe_result\<close> per issuer, \<open>check_end\<close>. \<open>Check\<close> runs them in a
  row; \<open>hc_step\<close> interleaves any number of checks with the start of serving. What an authenticator
  answers is arbitrary. \<open>url_Host\<close> is what \<open>url.Parse\<close> finds as the host of an issuer URL (None: it does
  not parse); every theorem holds for any such function.
\<close>

section \<open>Definitions\<close>

type_synonym url_host = "string \<Rightarrow> string option"

definition transientMarkers :: "string list" where
  "transientMarkers = [''context deadline exceeded'', ''connection refused'', ''no such host'', ''i/o timeout'']"

definition pendingNotInitialized :: string where "pendingNotInitialized = ''not_initialized''"
definition pendingTransient :: string where "pendingTransient = ''transient''"
definition pendingError :: string where "pendingError = ''error''"

definition unknownIssuerName :: string where
  "unknownIssuerName = ''unknown''"

definition IssuerName :: "url_host \<Rightarrow> string \<Rightarrow> string" where
  "IssuerName url_Host issuerURL = (case url_Host issuerURL of
     None \<Rightarrow> unknownIssuerName
   | Some h \<Rightarrow>
       if h = [] then unknownIssuerName
       else let host = trim_space (Bound h MaxIdentity) in
         if host \<noteq> [] then host else unknownIssuerName)"

type_synonym pendingIssuer = "string \<times> string"

record issuer_readiness =
  ir_IssuerURL :: string
  ir_FakeJWT :: string

record hc =
  hc_readinessLogger :: logger
  hc_oidcLogger :: logger
  hc_metrics :: recorder
  hc_issuers :: "issuer_readiness list"
  hc_requireAll :: bool

record hc_state = tele +
  hs_serving :: bool
  hs_ready :: bool
  hs_initialized :: "string list"
  hs_lastPending :: string

definition SetServing :: "hc_state \<Rightarrow> hc_state" where
  "SetServing s = s\<lparr>hs_serving := True\<rparr>"

definition probe_NewServer :: "issuer_readiness list \<Rightarrow> bool \<Rightarrow> level option \<Rightarrow> tele \<Rightarrow> hc \<times> hc_state" where
  "probe_NewServer issuers requireAll root s =
     (\<lparr>hc_readinessLogger = (case root of None \<Rightarrow> Discard | Some lv \<Rightarrow> ForComponent lv ComponentReadiness),
       hc_oidcLogger = (case root of None \<Rightarrow> Discard | Some lv \<Rightarrow> ForComponent lv ComponentOIDC),
       hc_metrics = NilRecorder, hc_issuers = issuers, hc_requireAll = requireAll\<rparr>,
      \<lparr>t_now = t_now s, t_log = t_log s, t_met = t_met s, hs_serving = False, hs_ready = False,
       hs_initialized = [], hs_lastPending = []\<rparr>)"

definition WithMetrics :: "url_host \<Rightarrow> recorder \<Rightarrow> hc \<times> hc_state \<Rightarrow> hc \<times> hc_state" where
  "WithMetrics url_Host r hs =
     (let (h, s) = hs in
      (h\<lparr>hc_metrics := r\<rparr>,
       fold (\<lambda>i. SetIssuerInitialized r (IssuerName url_Host (ir_IssuerURL i)) False) (hc_issuers h) (SetReady r False s)))"

definition isNotInitialized :: "err \<Rightarrow> bool" where
  "isNotInitialized e = str_contains (err_text e) ''not initialized''"

definition isTransient :: "err \<Rightarrow> bool" where
  "isTransient e =
     (if err_is e ErrDeadlineExceeded \<or> err_is e ErrCanceled then True
      else if as_net_error e = Some True then True
      else list_ex (str_contains (err_text e)) transientMarkers)"

definition pendingReason :: "err \<Rightarrow> string" where
  "pendingReason e =
     (if isNotInitialized e then pendingNotInitialized
      else if isTransient e then pendingTransient
      else pendingError)"

definition ReadinessMode :: "bool \<Rightarrow> string" where
  "ReadinessMode requireAll = (if requireAll then ''all'' else ''any'')"

definition pendingKey :: "pendingIssuer list \<Rightarrow> string" where
  "pendingKey pend = join_with '','' (map (\<lambda>(u, r). u @ ''='' @ r) pend)"

fun mark_initialized :: "url_host \<Rightarrow> hc \<Rightarrow> string list \<Rightarrow> hc_state \<Rightarrow> hc_state" where
  "mark_initialized uh h [] s = s"
| "mark_initialized uh h (u # us) s =
     (if u \<in> set (hs_initialized s) then mark_initialized uh h us s
      else
        let s1 = s\<lparr>hs_initialized := hs_initialized s @ [u]\<rparr>;
            s2 = SetIssuerInitialized (hc_metrics h) (IssuerName uh u) True s1;
            s3 = Emit [] (hc_oidcLogger h) EventOIDCIssuerInitialized
                   [(''issuer_name'', AStr (IssuerName uh u)), (''issuer_state'', AStr ''initialized''),
                    (''ready_issuers'', AInt (int (length (hs_initialized s2)))),
                    (''total_issuers'', AInt (int (length (hc_issuers h))))] s2 in
        mark_initialized uh h us s3)"

fun report_pending :: "url_host \<Rightarrow> hc \<Rightarrow> pendingIssuer list \<Rightarrow> hc_state \<Rightarrow> hc_state" where
  "report_pending uh h [] s = s"
| "report_pending uh h ((u, reason) # ps) s =
     report_pending uh h ps
       (Emit [] (hc_oidcLogger h) EventOIDCIssuerPending
          [(''issuer_name'', AStr (IssuerName uh u)), (''issuer_state'', AStr ''pending''),
           (''pending_reason'', AStr reason),
           (''ready_issuers'', AInt (int (length (hs_initialized s)))),
           (''total_issuers'', AInt (int (length (hc_issuers h))))] s)"

definition recordProbeResults ::
  "url_host \<Rightarrow> hc \<Rightarrow> string list \<Rightarrow> pendingIssuer list \<Rightarrow> hc_state \<Rightarrow> pendingIssuer list \<times> hc_state" where
  "recordProbeResults uh h newly pend0 s0 =
     (let s1 = mark_initialized uh h newly s0;
          pend = filter (\<lambda>(u, _). u \<notin> set (hs_initialized s1)) pend0;
          key = pendingKey pend in
      (pend,
       if key \<noteq> hs_lastPending s1 then (report_pending uh h pend s1)\<lparr>hs_lastPending := key\<rparr> else s1))"

text \<open>The three parts of \<open>Check\<close>: the snapshot, the answer of one probe, and the evaluation.\<close>

definition toProbe :: "hc \<Rightarrow> hc_state \<Rightarrow> issuer_readiness list" where
  "toProbe h s = filter (\<lambda>i. ir_IssuerURL i \<notin> set (hs_initialized s)) (hc_issuers h)"

definition probe_result ::
  "issuer_readiness \<Rightarrow> err option \<Rightarrow> string list \<times> pendingIssuer list \<Rightarrow> string list \<times> pendingIssuer list" where
  "probe_result i er np =
     (let (newly, pend) = np in
      case er of
        Some e \<Rightarrow>
          if pendingReason e \<noteq> pendingError then (newly, pend @ [(ir_IssuerURL i, pendingReason e)])
          else (newly @ [ir_IssuerURL i], pend)
      | None \<Rightarrow> (newly @ [ir_IssuerURL i], pend))"

definition check_end ::
  "url_host \<Rightarrow> hc \<Rightarrow> string list \<Rightarrow> pendingIssuer list \<Rightarrow> hc_state \<Rightarrow> err option \<times> hc_state" where
  "check_end uh h newly pend0 s0 =
     (let (pend, s) = recordProbeResults uh h newly pend0 s0 in
      if hs_ready s then (None, s)
      else if hc_requireAll h \<and> length pend > 0 then (Some (NewError ''OIDC providers not yet initialized''), s)
      else if \<not> hc_requireAll h \<and> length (hs_initialized s) = 0
      then (Some (NewError ''no OIDC provider initialized yet''), s)
      else
        let s1 = s\<lparr>hs_ready := True\<rparr>;
            s2 = SetReady (hc_metrics h) True s1 in
        (None, Emit [] (hc_readinessLogger h) EventReadinessProxyReady
           [(''ready_issuers'', AInt (int (length (hs_initialized s2)))),
            (''total_issuers'', AInt (int (length (hc_issuers h)))),
            (''readiness_mode'', AStr (ReadinessMode (hc_requireAll h)))] s2))"

text \<open>\<open>AuthenticateToken\<close> of the authenticator: its error, and how long it took.\<close>

type_synonym prober = "string \<Rightarrow> hc_state \<Rightarrow> err option \<times> nat"

fun probe_loop ::
  "prober \<Rightarrow> issuer_readiness list \<Rightarrow> string list \<times> pendingIssuer list \<Rightarrow> hc_state \<Rightarrow>
   (string list \<times> pendingIssuer list) \<times> hc_state" where
  "probe_loop auth [] np s = (np, s)"
| "probe_loop auth (i # is) np s =
     (let (er, el) = auth (ir_FakeJWT i) s in
      probe_loop auth is (probe_result i er np) (s\<lparr>t_now := t_now s + int el\<rparr>))"

definition Check :: "url_host \<Rightarrow> prober \<Rightarrow> hc \<Rightarrow> hc_state \<Rightarrow> err option \<times> hc_state" where
  "Check uh auth h s =
     (if \<not> hs_serving s then (Some (NewError ''proxy is not yet serving''), s)
      else
        let ((newly, pend), s1) = probe_loop auth (toProbe h s) ([], []) s in
        check_end uh h newly pend s1)"

text \<open>The two endpoints: the status each answers a method with.\<close>

definition getOnly :: "(hc_state \<Rightarrow> int \<times> hc_state) \<Rightarrow> string \<Rightarrow> hc_state \<Rightarrow> int \<times> hc_state" where
  "getOnly next meth s = (if meth \<noteq> ''GET'' then (405, s) else next s)"

definition live_handler :: "string \<Rightarrow> hc_state \<Rightarrow> int \<times> hc_state" where
  "live_handler = getOnly (\<lambda>s. (200, s))"

definition ready_handler :: "url_host \<Rightarrow> prober \<Rightarrow> hc \<Rightarrow> string \<Rightarrow> hc_state \<Rightarrow> int \<times> hc_state" where
  "ready_handler uh auth h = getOnly (\<lambda>s. case Check uh auth h s of (None, s1) \<Rightarrow> (200, s1) | (Some _, s1) \<Rightarrow> (503, s1))"

text \<open>\<open>Start\<close> and its owner goroutine.\<close>

definition probe_Start :: "string \<Rightarrow> err option \<Rightarrow> err option" where
  "probe_Start addr listen = (case listen of
     None \<Rightarrow> None
   | Some e \<Rightarrow> Some (Errorf (''readiness probe failed to listen on '' @ addr @ '': '' @ err_text e) [e]))"

definition probe_finish :: "hc \<Rightarrow> serving_end \<Rightarrow> 'a tele_scheme \<Rightarrow> err option \<times> 'a tele_scheme" where
  "probe_finish h e s =
     (let er = server_terminal_error e in
      (er, if er \<noteq> None then Emit [] (hc_readinessLogger h) EventReadinessServerFailed [ErrAttr er] s else s))"

section \<open>Checks that interleave\<close>

text \<open>A check in flight: the issuers it has yet to probe, and its results so far.\<close>

type_synonym in_flight = "issuer_readiness list \<times> string list \<times> pendingIssuer list"

inductive hc_step :: "url_host \<Rightarrow> hc \<Rightarrow> hc_state \<times> in_flight list \<Rightarrow> hc_state \<times> in_flight list \<Rightarrow> bool" for uh h where
  serve: "hc_step uh h (s, cs) (SetServing s, cs)"
| begin_check: "hs_serving s \<Longrightarrow> hc_step uh h (s, cs) (s, cs @ [(toProbe h s, [], [])])"
| probe: "i < length cs \<Longrightarrow> cs ! i = (is # rest, np) \<Longrightarrow>
    hc_step uh h (s, cs) (s\<lparr>t_now := t_now s + int el\<rparr>, cs[i := (rest, probe_result is er np)])"
| finish: "i < length cs \<Longrightarrow> cs ! i = ([], newly, pend) \<Longrightarrow> check_end uh h newly pend s = (r, s') \<Longrightarrow>
    hc_step uh h (s, cs) (s', take i cs @ drop (Suc i) cs)"

definition hc_init :: "hc_state \<times> in_flight list \<Rightarrow> bool" where
  "hc_init sc = (let (s, cs) = sc in cs = [] \<and> \<not> hs_serving s \<and> \<not> hs_ready s \<and> hs_initialized s = [] \<and>
     (\<forall>n. gauge nameIssuerInitialized [n] s = 0) \<and> gauge nameReady [] s = 0)"

section \<open>What each part changes\<close>

lemma hs_more_eq:
  assumes "tele.more s = tele.more (s' :: hc_state)"
  shows "hs_serving s = hs_serving s'" "hs_ready s = hs_ready s'" "hs_initialized s = hs_initialized s'"
    "hs_lastPending s = hs_lastPending s'"
  using assms by (cases s; cases s'; simp)+

lemmas Emit_hs [simp] = hs_more_eq [OF Emit_frame(3)]
lemmas SetReady_hs [simp] = hs_more_eq [OF record_ops_frame(3), of r "[MSet nameReady [] (boolGauge b)]" for r b, folded SetReady_def]
lemmas SetIssuer_hs [simp] = hs_more_eq [OF record_ops_frame(3), of r "[MSet nameIssuerInitialized [n] (boolGauge b)]" for r n b,
  folded SetIssuerInitialized_def]

lemma gauge_probe_Emit [simp]: "gauge n ls (Emit rid l e as s) = gauge n ls s"
  by (simp add: gauge_def frame)

lemma gauge_hs_upd [simp]:
  "gauge n ls (s\<lparr>hs_initialized := x\<rparr>) = gauge n ls s" "gauge n ls (s\<lparr>hs_ready := b\<rparr>) = gauge n ls s"
  "gauge n ls (s\<lparr>hs_lastPending := k\<rparr>) = gauge n ls s" "gauge n ls (s\<lparr>hs_serving := b\<rparr>) = gauge n ls s"
  "gauge n ls (s\<lparr>t_now := t\<rparr>) = gauge n ls (s :: hc_state)"
  by (simp_all add: gauge_def)

lemma readiness_names [simp]: "nameReady \<noteq> nameIssuerInitialized" "nameIssuerInitialized \<noteq> nameReady"
  by (simp_all add: metric_names)

lemma gauge_SetReady [simp]:
  "gauge nameReady [] (SetReady Recorder b s) = boolGauge b"
  "gauge nameIssuerInitialized ls (SetReady r b s) = gauge nameIssuerInitialized ls s"
  by (cases r; simp add: SetReady_def gauge_def)+

lemma gauge_SetIssuer [simp]:
  "gauge nameReady ls (SetIssuerInitialized r n b s) = gauge nameReady ls s"
  "gauge nameIssuerInitialized [m] (SetIssuerInitialized Recorder n b s) =
     (if m = n then boolGauge b else gauge nameIssuerInitialized [m] s)"
  by (cases r; simp add: SetIssuerInitialized_def gauge_def)+

lemma mark_frame [simp]:
  "hs_ready (mark_initialized uh h us s) = hs_ready s" "hs_serving (mark_initialized uh h us s) = hs_serving s"
  "hs_lastPending (mark_initialized uh h us s) = hs_lastPending s"
  "gauge nameReady ls (mark_initialized uh h us s) = gauge nameReady ls s"
  by (induction us arbitrary: s) (simp_all add: Let_def)

lemma mark_set [simp]: "set (hs_initialized (mark_initialized uh h us s)) = set (hs_initialized s) \<union> set us"
  by (induction us arbitrary: s) (auto simp: Let_def)

lemma mark_gauge:
  assumes "hc_metrics h = Recorder"
  shows "gauge nameIssuerInitialized [n] (mark_initialized uh h us s) =
    (if n \<in> IssuerName uh ` (set us - set (hs_initialized s)) then 1 else gauge nameIssuerInitialized [n] s)"
proof (induction us arbitrary: s)
  case (Cons u us)
  then show ?case by (auto simp: Let_def assms boolGauge_def)
qed simp

lemma report_frame [simp]:
  "hs_ready (report_pending uh h ps s) = hs_ready s" "hs_serving (report_pending uh h ps s) = hs_serving s"
  "hs_initialized (report_pending uh h ps s) = hs_initialized s" "gauge n ls (report_pending uh h ps s) = gauge n ls s"
  by (induction uh h ps s rule: report_pending.induct) simp_all

lemma recordProbeResults_spec:
  assumes "recordProbeResults uh h newly pend0 s = (pend, s')"
  shows "pend = filter (\<lambda>(u, _). u \<notin> set (hs_initialized s')) pend0"
    "set (hs_initialized s') = set (hs_initialized s) \<union> set newly" "hs_ready s' = hs_ready s" "hs_serving s' = hs_serving s"
    "gauge nameReady ls s' = gauge nameReady ls s" "hs_lastPending s' = pendingKey pend"
    "gauge nameIssuerInitialized [n] s' = gauge nameIssuerInitialized [n] (mark_initialized uh h newly s)"
  using assms by (auto simp: recordProbeResults_def Let_def split: if_splits)

section \<open>Readiness means what it says, however checks interleave\<close>

definition issuer_urls :: "hc \<Rightarrow> string set" where
  "issuer_urls h = ir_IssuerURL ` set (hc_issuers h)"

definition covers :: "hc \<Rightarrow> hc_state \<Rightarrow> in_flight \<Rightarrow> bool" where
  "covers h s c = (case c of (rest, newly, pend) \<Rightarrow>
     issuer_urls h \<subseteq> set (hs_initialized s) \<union> ir_IssuerURL ` set rest \<union> set newly \<union> fst ` set pend \<and>
     ir_IssuerURL ` set rest \<union> set newly \<subseteq> issuer_urls h)"

definition hc_inv :: "url_host \<Rightarrow> hc \<Rightarrow> hc_state \<times> in_flight list \<Rightarrow> bool" where
  "hc_inv uh h sc = (let (s, cs) = sc in
     set (hs_initialized s) \<subseteq> issuer_urls h \<and>
     (\<forall>c \<in> set cs. covers h s c) \<and> (cs \<noteq> [] \<longrightarrow> hs_serving s) \<and>
     (hs_ready s \<longrightarrow> hs_serving s \<and>
        (if hc_requireAll h then issuer_urls h \<subseteq> set (hs_initialized s) else hs_initialized s \<noteq> [])) \<and>
     (hc_metrics h = Recorder \<longrightarrow> gauge nameReady [] s = boolGauge (hs_ready s) \<and>
        (\<forall>n. gauge nameIssuerInitialized [n] s = boolGauge (n \<in> IssuerName uh ` set (hs_initialized s)))))"

lemma hc_inv_covers: "hc_inv uh h (s, cs) \<Longrightarrow> c \<in> set cs \<Longrightarrow> covers h s c"
  by (simp add: hc_inv_def)

lemma hc_inv_cong:
  assumes "hc_inv uh h (s, cs)" "\<forall>c \<in> set cs'. covers h s c" "cs' \<noteq> [] \<longrightarrow> hs_serving s'"
    and "hs_initialized s' = hs_initialized s" "hs_ready s' = hs_ready s" "hs_serving s \<longrightarrow> hs_serving s'" "t_met s' = t_met s"
  shows "hc_inv uh h (s', cs')"
  using assms by (auto simp: hc_inv_def covers_def gauge_def)

lemma covers_mono: "covers h s c \<Longrightarrow> set (hs_initialized s) \<subseteq> set (hs_initialized s') \<Longrightarrow> covers h s' c"
  unfolding covers_def by (auto split: prod.splits)

lemma probe_result_covers:
  "covers h s (i # rest, np) \<Longrightarrow> covers h s (rest, probe_result i er np)"
  by (cases np) (auto simp: covers_def probe_result_def split: option.splits)

lemma check_end_frame:
  assumes "check_end uh h newly pend s = (r, s')"
  shows "set (hs_initialized s') = set (hs_initialized s) \<union> set newly" "hs_serving s' = hs_serving s"
    "hs_ready s \<Longrightarrow> hs_ready s'" "r = None \<longleftrightarrow> hs_ready s'"
    "gauge nameIssuerInitialized [n] s' = gauge nameIssuerInitialized [n] (mark_initialized uh h newly s)"
    "hc_metrics h = Recorder \<Longrightarrow> gauge nameReady [] s = boolGauge (hs_ready s) \<Longrightarrow> gauge nameReady [] s' = boolGauge (hs_ready s')"
    "hs_ready s' \<Longrightarrow> hs_ready s \<or> (if hc_requireAll h then fst ` set pend \<subseteq> set (hs_initialized s') else hs_initialized s' \<noteq> [])"
proof -
  obtain p1 s1 where r: "recordProbeResults uh h newly pend s = (p1, s1)" by (metis surj_pair)
  note spec = recordProbeResults_spec [OF r]
  have p1: "p1 = [] \<longleftrightarrow> fst ` set pend \<subseteq> set (hs_initialized s1)" unfolding spec(1) by (auto simp: filter_empty_conv)
  show "set (hs_initialized s') = set (hs_initialized s) \<union> set newly" "hs_serving s' = hs_serving s"
    "hs_ready s \<Longrightarrow> hs_ready s'" "r = None \<longleftrightarrow> hs_ready s'"
    "gauge nameIssuerInitialized [n] s' = gauge nameIssuerInitialized [n] (mark_initialized uh h newly s)"
    "hc_metrics h = Recorder \<Longrightarrow> gauge nameReady [] s = boolGauge (hs_ready s) \<Longrightarrow> gauge nameReady [] s' = boolGauge (hs_ready s')"
    "hs_ready s' \<Longrightarrow> hs_ready s \<or> (if hc_requireAll h then fst ` set pend \<subseteq> set (hs_initialized s') else hs_initialized s' \<noteq> [])"
    using assms spec(2-5,7) p1 by (auto simp: check_end_def r Let_def split: if_splits)
qed

lemma hc_inv_finish:
  assumes inv: "hc_inv uh h (s, cs)" and i: "i < length cs" "cs ! i = ([], newly, pend)" and e: "check_end uh h newly pend s = (r, s')"
  shows "hc_inv uh h (s', take i cs @ drop (Suc i) cs)"
proof -
  note f = check_end_frame [OF e]
  have mem: "([], newly, pend) \<in> set cs" using i nth_mem by metis
  then have cov: "issuer_urls h \<subseteq> set (hs_initialized s) \<union> set newly \<union> fst ` set pend" "set newly \<subseteq> issuer_urls h"
    using hc_inv_covers [OF inv mem] by (simp_all add: covers_def)
  have sub: "set (take i cs @ drop (Suc i) cs) \<subseteq> set cs" using set_take_subset set_drop_subset by fastforce
  have "\<forall>c \<in> set (take i cs @ drop (Suc i) cs). covers h s' c"
    using hc_inv_covers [OF inv] sub covers_mono f(1) by blast
  moreover have "hs_serving s'" using inv mem f(2) by (auto simp: hc_inv_def)
  moreover have "if hc_requireAll h then issuer_urls h \<subseteq> set (hs_initialized s') else hs_initialized s' \<noteq> []" if "hs_ready s'"
  proof (cases "hc_requireAll h")
    case True
    have "issuer_urls h \<subseteq> set (hs_initialized s)" if "hs_ready s" using inv that True by (simp add: hc_inv_def)
    moreover have "hs_ready s \<or> fst ` set pend \<subseteq> set (hs_initialized s')" using f(7) [OF that] True by simp
    ultimately show ?thesis using True f(1) cov(1) by fastforce
  next
    case False
    have "hs_initialized s \<noteq> []" if "hs_ready s" using inv that False by (simp add: hc_inv_def)
    then show ?thesis using False f(1) f(7) [OF that] by fastforce
  qed
  moreover have "gauge nameIssuerInitialized [n] s' = boolGauge (n \<in> IssuerName uh ` set (hs_initialized s'))"
    if m: "hc_metrics h = Recorder" for n
    using inv m f(1) f(5) [of n] by (auto simp: hc_inv_def mark_gauge [OF m] boolGauge_def)
  moreover have "set (hs_initialized s') \<subseteq> issuer_urls h" using inv f(1) cov(2) by (auto simp: hc_inv_def)
  ultimately show ?thesis using f(6) inv by (auto simp: hc_inv_def)
qed

lemma hc_inv_step:
  assumes "hc_inv uh h sc" "hc_step uh h sc sc'"
  shows "hc_inv uh h sc'"
  using assms(2)
proof cases
  case (serve s cs)
  then have "hc_inv uh h (s, cs)" using assms(1) by simp
  then show ?thesis unfolding serve(2) by (rule hc_inv_cong) (use assms(1) serve(1) hc_inv_covers in \<open>auto simp: SetServing_def\<close>)
next
  case (begin_check s cs)
  then have inv: "hc_inv uh h (s, cs)" using assms(1) by simp
  have "covers h s (toProbe h s, [], [])" by (auto simp: covers_def toProbe_def issuer_urls_def)
  then have "\<forall>c \<in> set (cs @ [(toProbe h s, [], [])]). covers h s c" using hc_inv_covers [OF inv] by auto
  then show ?thesis unfolding begin_check(2) by (rule hc_inv_cong [OF inv]) (use begin_check(3) in simp_all)
next
  case (probe i cs "is" rest np s el er)
  have inv: "hc_inv uh h (s, cs)" using assms(1) probe(1) by simp
  have mem: "(is # rest, np) \<in> set cs" using probe(3,4) nth_mem by metis
  have "\<forall>c \<in> set (cs[i := (rest, probe_result is er np)]). covers h s c"
    using probe_result_covers [OF hc_inv_covers [OF inv mem], of er] hc_inv_covers [OF inv]
      set_update_subset_insert [of cs i "(rest, probe_result is er np)"] by blast
  moreover have "hs_serving s" using inv mem by (auto simp: hc_inv_def)
  ultimately show ?thesis unfolding probe(2) by (intro hc_inv_cong [OF inv]) simp_all
next
  case (finish i cs newly pend s r s')
  then show ?thesis using hc_inv_finish assms(1) by simp
qed

text \<open>What no step takes back: serving, initialised issuers, readiness.\<close>

definition hc_le :: "hc_state \<times> in_flight list \<Rightarrow> hc_state \<times> in_flight list \<Rightarrow> bool" where
  "hc_le sc sc' = ((hs_serving (fst sc) \<longrightarrow> hs_serving (fst sc')) \<and> (hs_ready (fst sc) \<longrightarrow> hs_ready (fst sc')) \<and>
     set (hs_initialized (fst sc)) \<subseteq> set (hs_initialized (fst sc')))"

interpretation readiness: latched_machine hc_init "hc_step uh h" "hc_inv uh h" hc_le for uh h
proof
  fix sc sc' sc'' :: "hc_state \<times> in_flight list"
  show "hc_init sc \<Longrightarrow> hc_inv uh h sc" by (auto simp: hc_init_def hc_inv_def boolGauge_def)
  show "hc_inv uh h sc \<Longrightarrow> hc_step uh h sc sc' \<Longrightarrow> hc_inv uh h sc'" by (rule hc_inv_step)
  show "hc_le sc sc" by (simp add: hc_le_def)
  show "hc_le sc sc' \<Longrightarrow> hc_le sc' sc'' \<Longrightarrow> hc_le sc sc''" by (auto simp: hc_le_def)
  show "hc_le sc sc'" if "hc_step uh h sc sc'"
    using that by cases (auto simp: hc_le_def SetServing_def dest: check_end_frame(1-3))
qed

text \<open>A check that runs undisturbed is a sequence of steps, whatever else is in flight.\<close>

lemma probe_loop_steps:
  assumes "probe_loop auth is np s = (np', s')"
  shows "(hc_step uh h)\<^sup>*\<^sup>* (s, cs @ [(is, np)]) (s', cs @ [([], np')])"
  using assms
proof (induction "is" arbitrary: np s)
  case (Cons i "is")
  obtain er el where a: "auth (ir_FakeJWT i) s = (er, el)" by (metis surj_pair)
  let ?s = "s\<lparr>t_now := t_now s + int el\<rparr>"
  have "hc_step uh h (s, cs @ [(i # is, np)]) (?s, (cs @ [(i # is, np)])[length cs := (is, probe_result i er np)])"
    by (rule hc_step.probe) simp_all
  moreover have "(hc_step uh h)\<^sup>*\<^sup>* (?s, cs @ [(is, probe_result i er np)]) (s', cs @ [([], np')])"
    using Cons a by simp
  ultimately show ?case by (simp add: converse_rtranclp_into_rtranclp)
qed simp

lemma Check_steps:
  assumes "Check uh auth h s = (r, s')"
  shows "(hc_step uh h)\<^sup>*\<^sup>* (s, cs) (s', cs)"
proof (cases "hs_serving s")
  case True
  obtain newly pend s1 where l: "probe_loop auth (toProbe h s) ([], []) s = ((newly, pend), s1)" by (metis prod.collapse)
  have e: "check_end uh h newly pend s1 = (r, s')" using assms True l by (simp add: Check_def)
  have "hc_step uh h (s, cs) (s, cs @ [(toProbe h s, [], [])])" using True by (rule begin_check)
  also have "(hc_step uh h)\<^sup>*\<^sup>* \<dots> (s1, cs @ [([], newly, pend)])" by (rule probe_loop_steps [OF l])
  also have "hc_step uh h \<dots> (s', take (length cs) (cs @ [([], newly, pend)]) @ drop (Suc (length cs)) (cs @ [([], newly, pend)]))"
    by (rule hc_step.finish [OF _ _ e]) simp_all
  finally show ?thesis by simp
qed (use assms in \<open>simp add: Check_def\<close>)

lemma Check_inv:
  assumes "reachable hc_init (hc_step uh h) (s, cs)" "Check uh auth h s = (r, s')"
  shows "hc_inv uh h (s', cs)" "reachable hc_init (hc_step uh h) (s', cs)"
  using reachable_star [OF Check_steps [OF assms(2)] assms(1)] readiness.always by blast+

text \<open>
  C19. However checks interleave with each other and with the start of serving: the proxy is ready only
  when it serves and every issuer (or, in the lenient mode, some issuer) has been initialised; the
  readiness gauge is that flag, and an issuer's gauge is 1 precisely when an issuer of its name has
  been initialised.
\<close>

theorem readiness_is_sound:
  assumes "reachable hc_init (hc_step uh h) (s, cs)"
  shows "(hs_ready s \<longrightarrow> hs_serving s \<and>
      (if hc_requireAll h then \<forall>i \<in> set (hc_issuers h). ir_IssuerURL i \<in> set (hs_initialized s)
       else \<exists>i \<in> set (hc_issuers h). ir_IssuerURL i \<in> set (hs_initialized s))) \<and>
    (hc_metrics h = Recorder \<longrightarrow> gauge nameReady [] s = (if hs_ready s then 1 else 0) \<and>
      (\<forall>n. gauge nameIssuerInitialized [n] s = (if \<exists>u \<in> set (hs_initialized s). IssuerName uh u = n then 1 else 0)))"
proof -
  have inv: "hc_inv uh h (s, cs)" by (rule readiness.always [OF assms])
  then have "hs_initialized s \<noteq> [] \<Longrightarrow> \<exists>i \<in> set (hc_issuers h). ir_IssuerURL i \<in> set (hs_initialized s)"
    by (cases "hs_initialized s") (auto simp: hc_inv_def issuer_urls_def)
  then show ?thesis using inv by (auto simp: hc_inv_def issuer_urls_def boolGauge_def split: if_splits)
qed

definition demo_issuer :: issuer_readiness where
  "demo_issuer = \<lparr>ir_IssuerURL = ''https://idp/a'', ir_FakeJWT = ''j''\<rparr>"

definition demo_hc :: hc where
  "demo_hc = \<lparr>hc_readinessLogger = Discard, hc_oidcLogger = Discard,
     hc_metrics = Recorder, hc_issuers = [demo_issuer], hc_requireAll = True\<rparr>"

definition demo_hs :: hc_state where
  "demo_hs = \<lparr>t_now = 0, t_log = [], t_met = [], hs_serving = False, hs_ready = False, hs_initialized = [], hs_lastPending = []\<rparr>"

definition demo_uh :: url_host where
  "demo_uh u = (if has_prefix u ''https://'' then Some (takeWhile (\<lambda>c. c \<noteq> CHR ''/'') (drop 8 u)) else None)"

definition demo_prober :: prober where
  "demo_prober token s = (Some (NewError ''verify: malformed token''), 1)"

lemma demo_check: "fst (Check demo_uh demo_prober demo_hc (SetServing demo_hs)) = None"
  "hs_ready (snd (Check demo_uh demo_prober demo_hc (SetServing demo_hs)))"
proof -
  have "pendingReason (NewError ''verify: malformed token'') = pendingError" by code_simp
  then show "fst (Check demo_uh demo_prober demo_hc (SetServing demo_hs)) = None"
    "hs_ready (snd (Check demo_uh demo_prober demo_hc (SetServing demo_hs)))"
    by (simp_all add: Check_def demo_hc_def demo_hs_def demo_issuer_def SetServing_def toProbe_def demo_prober_def probe_result_def
        check_end_def recordProbeResults_def Let_def)
qed

lemma demo_reach: "reachable hc_init (hc_step demo_uh demo_hc) (SetServing demo_hs, [])"
proof -
  have "hc_init (demo_hs, [])" by (simp add: hc_init_def demo_hs_def gauge_def)
  then show ?thesis using hc_step.serve reach_init reach_step by metis
qed

theorem readiness_is_sound_witness:
  "\<exists>s. reachable hc_init (hc_step demo_uh demo_hc) (s, []) \<and> s = snd (Check demo_uh demo_prober demo_hc (SetServing demo_hs)) \<and>
     hs_ready s \<and> ''https://idp/a'' \<in> set (hs_initialized s) \<and> gauge nameReady [] s = 1"
proof -
  let ?s = "snd (Check demo_uh demo_prober demo_hc (SetServing demo_hs))"
  have r: "reachable hc_init (hc_step demo_uh demo_hc) (?s, [])"
    by (rule Check_inv(2) [OF demo_reach, of demo_prober "fst (Check demo_uh demo_prober demo_hc (SetServing demo_hs))"]) simp
  have h: "hc_metrics demo_hc = Recorder" "hc_requireAll demo_hc" "set (hc_issuers demo_hc) = {demo_issuer}"
    "ir_IssuerURL demo_issuer = ''https://idp/a''"
    by (simp_all add: demo_hc_def demo_issuer_def)
  from readiness_is_sound [OF r] have "''https://idp/a'' \<in> set (hs_initialized ?s)" "gauge nameReady [] ?s = 1"
    using demo_check(2) h by auto
  then show ?thesis using r demo_check(2) by blast
qed

lemma Check_ready:
  assumes "reachable hc_init (hc_step uh h) (s, cs)" "Check uh auth h s = (r, s')"
  shows "r = None \<longleftrightarrow> hs_ready s'"
proof (cases "hs_serving s")
  case True
  then show ?thesis
    using assms(2) check_end_frame(4) by (auto simp: Check_def Let_def split: prod.splits)
next
  case False
  then have "\<not> hs_ready s" using readiness.always [OF assms(1)] by (auto simp: hc_inv_def)
  then show ?thesis using False assms(2) by (auto simp: Check_def)
qed

text \<open>
  C20. Readiness is a latch: no interleaving of checks takes back an initialised issuer or readiness. The
  readiness endpoint answers 200 precisely when the proxy is ready and 503 otherwise, and refuses any
  method but GET without a check.
\<close>

theorem readiness_latches:
  assumes "reachable hc_init (hc_step uh h) (s, cs)" "(hc_step uh h)\<^sup>*\<^sup>* (s, cs) (s1, cs1)"
    and "ready_handler uh auth h meth s1 = (code, s2)"
  shows "(hs_ready s \<longrightarrow> hs_ready s2) \<and> set (hs_initialized s) \<subseteq> set (hs_initialized s2) \<and>
    (if meth = ''GET'' then code = (if hs_ready s2 then 200 else 503) else code = 405 \<and> s2 = s1)"
proof -
  have reach1: "reachable hc_init (hc_step uh h) (s1, cs1)" by (rule reachable_star [OF assms(2,1)])
  obtain r s3 where c: "Check uh auth h s1 = (r, s3)" by (metis surj_pair)
  have g: "if meth = ''GET'' then s2 = s3 \<and> code = (if r = None then 200 else 503) else code = 405 \<and> s2 = s1"
    using assms(3) c by (auto simp: ready_handler_def getOnly_def split: option.splits if_splits)
  then have "(hc_step uh h)\<^sup>*\<^sup>* (s1, cs1) (s2, cs1)" using Check_steps [OF c] by (auto split: if_splits)
  from readiness.later [OF rtranclp_trans [OF assms(2) this] assms(1)] have "hc_le (s, cs) (s2, cs1)" .
  then show ?thesis using g Check_ready [OF reach1 c] by (auto simp: hc_le_def split: if_splits)
qed

theorem readiness_latches_witness:
  "fst (ready_handler demo_uh demo_prober demo_hc ''GET'' (SetServing demo_hs)) = 200 \<and>
   hs_ready (snd (ready_handler demo_uh demo_prober demo_hc ''GET'' (SetServing demo_hs)))"
proof -
  let ?r = "ready_handler demo_uh demo_prober demo_hc ''GET'' (SetServing demo_hs)"
  have "hs_ready (snd ?r)"
    using demo_check by (cases "Check demo_uh demo_prober demo_hc (SetServing demo_hs)") (simp add: ready_handler_def getOnly_def)
  with readiness_latches [OF demo_reach rtranclp.rtrancl_refl, of demo_prober "''GET''" "fst ?r" "snd ?r"] show ?thesis by simp
qed

section \<open>Which issuers a check initialises\<close>

lemma probe_loop_results:
  assumes "\<forall>tok s. fst (auth tok s) = f tok" "probe_loop auth is np s = ((newly, pend), s')"
  shows "set newly = set (fst np) \<union> {ir_IssuerURL i |i. i \<in> set is \<and> (\<forall>e. f (ir_FakeJWT i) = Some e \<longrightarrow> pendingReason e = pendingError)} \<and>
    fst ` set pend = fst ` set (snd np) \<union> {ir_IssuerURL i |i. i \<in> set is \<and> (\<exists>e. f (ir_FakeJWT i) = Some e \<and> pendingReason e \<noteq> pendingError)} \<and>
    hs_initialized s' = hs_initialized s \<and> hs_ready s' = hs_ready s"
  using assms(2)
proof (induction "is" arbitrary: np s)
  case (Cons i "is")
  obtain er el where a: "auth (ir_FakeJWT i) s = (er, el)" by (metis surj_pair)
  then have f: "f (ir_FakeJWT i) = er" using assms(1) by (metis fst_conv)
  have "probe_loop auth is (probe_result i er np) (s\<lparr>t_now := t_now s + int el\<rparr>) = ((newly, pend), s')"
    using Cons.prems a by simp
  from Cons.IH [OF this] show ?case
    by (cases np; cases er; cases "\<exists>e. er = Some e \<and> pendingReason e \<noteq> pendingError") (auto simp: probe_result_def f)
qed auto

text \<open>
  An undisturbed check initialises exactly the issuers whose probe got as far as token verification:
  an unreachable or still initialising issuer is never counted. Once every issuer gets that far
  (and there is one), the check makes the proxy ready.
\<close>

theorem check_initialises_exactly:
  assumes "hs_serving s" "\<forall>tok s. fst (auth tok s) = f tok" "Check uh auth h s = (r, s')"
  shows "set (hs_initialized s') = set (hs_initialized s) \<union>
      {ir_IssuerURL i |i. i \<in> set (hc_issuers h) \<and> (\<forall>e. f (ir_FakeJWT i) = Some e \<longrightarrow> \<not> isNotInitialized e \<and> \<not> isTransient e)} \<and>
    ((\<forall>i \<in> set (hc_issuers h). \<forall>e. f (ir_FakeJWT i) = Some e \<longrightarrow> \<not> isNotInitialized e \<and> \<not> isTransient e) \<and> hc_issuers h \<noteq> [] \<longrightarrow>
       r = None \<and> hs_ready s')"
proof -
  have pe: "pendingReason e = pendingError \<longleftrightarrow> \<not> isNotInitialized e \<and> \<not> isTransient e" for e
    by (simp add: pendingReason_def pendingNotInitialized_def pendingTransient_def pendingError_def)
  obtain newly pend s1 where l: "probe_loop auth (toProbe h s) ([], []) s = ((newly, pend), s1)" by (metis prod.collapse)
  note res = probe_loop_results [OF assms(2) l]
  have e: "check_end uh h newly pend s1 = (r, s')" using assms(1,3) l by (simp add: Check_def)
  note f = check_end_frame [OF e]
  have tp: "set (toProbe h s) = {i \<in> set (hc_issuers h). ir_IssuerURL i \<notin> set (hs_initialized s)}" by (auto simp: toProbe_def)
  have "set newly = {ir_IssuerURL i |i. i \<in> set (toProbe h s) \<and> (\<forall>e. f (ir_FakeJWT i) = Some e \<longrightarrow> \<not> isNotInitialized e \<and> \<not> isTransient e)}"
    using res by (simp add: pe)
  then have init: "set (hs_initialized s') = set (hs_initialized s) \<union>
      {ir_IssuerURL i |i. i \<in> set (hc_issuers h) \<and> (\<forall>e. f (ir_FakeJWT i) = Some e \<longrightarrow> \<not> isNotInitialized e \<and> \<not> isTransient e)}"
    using f(1) res tp by auto
  have "r = None \<and> hs_ready s'" if ok: "\<forall>i \<in> set (hc_issuers h). \<forall>e. f (ir_FakeJWT i) = Some e \<longrightarrow> \<not> isNotInitialized e \<and> \<not> isTransient e"
    and ne: "hc_issuers h \<noteq> []"
  proof -
    have "fst ` set pend = {}" using res ok tp by (auto simp: pe)
    then have pn: "pend = []" by simp
    have "set (hs_initialized s') \<noteq> {}" using init ok ne by (cases "hc_issuers h") auto
    moreover obtain p2 s2 where r2: "recordProbeResults uh h newly pend s1 = (p2, s2)" by (metis surj_pair)
    moreover have "set (hs_initialized s2) = set (hs_initialized s')" using recordProbeResults_spec(2) [OF r2] f(1) by simp
    ultimately have "p2 = []" "hs_initialized s2 \<noteq> []" using recordProbeResults_spec(1) [OF r2] pn by auto
    then show ?thesis using e r2 by (auto simp: check_end_def Let_def split: if_splits)
  qed
  then show ?thesis using init by blast
qed

theorem check_initialises_exactly_witness:
  "set (hs_initialized (snd (Check demo_uh demo_prober demo_hc (SetServing demo_hs)))) = {''https://idp/a''} \<and>
   hs_ready (snd (Check demo_uh demo_prober demo_hc (SetServing demo_hs)))"
proof -
  obtain r s where c: "Check demo_uh demo_prober demo_hc (SetServing demo_hs) = (r, s)" by (metis surj_pair)
  have v: "\<not> isNotInitialized (NewError ''verify: malformed token'')" "\<not> isTransient (NewError ''verify: malformed token'')"
    by code_simp+
  have "\<forall>tok s. fst (demo_prober tok s) = (\<lambda>_. Some (NewError ''verify: malformed token'')) tok" by (simp add: demo_prober_def)
  from check_initialises_exactly [OF _ this c] v c show ?thesis
    by (auto simp: SetServing_def demo_hs_def demo_hc_def demo_issuer_def)
qed

end
