(* ===== verification/Startup.thy ===== *)
theory Startup
  imports Options Probe "HOL-Library.Char_ord" "HOL-Library.List_Lexorder"
begin

text \<open>
  What \<^verbatim>\<open>cmd/app/run.go\<close> builds before it serves: the check of the configured prefixes, the configuration
  fingerprint, the issuer names, and the token authenticator of one issuer or of several. \<open>oidc.New\<close> and the
  other constructors of the Kubernetes libraries are fields of \<open>auth_env\<close>, answering the error they return; the
  authenticator they give is named by the options it was built from. \<open>sha256\<close> is a parameter. Strings
  are compared bytewise, as Go compares them.
\<close>

section \<open>Prefixes and fingerprint\<close>

definition reservedPrefix :: string where "reservedPrefix = ''system:''"

fun check_prefixes :: "(string \<times> string) list \<Rightarrow> err option" where
  "check_prefixes [] = None"
| "check_prefixes ((flag, value) # ps) =
     (if has_prefix value reservedPrefix
      then Some (NewError (flag @ ''='' @ go_quote value @ '' would prefix every authenticated identity with the '' @
        ''Kubernetes-reserved '' @ go_quote reservedPrefix @ ''; refusing to start''))
      else check_prefixes ps)"

definition checkReservedIdentityPrefixes :: "options \<Rightarrow> err option" where
  "checkReservedIdentityPrefixes opts =
     (if op_ConfigFile opts \<noteq> [] then None
      else check_prefixes
        [(''--oidc-username-prefix'', oo_UsernamePrefix (op_OIDCAuthentication opts)),
         (''--oidc-groups-prefix'', oo_GroupsPrefix (op_OIDCAuthentication opts))])"

definition secretFlags :: "string list" where "secretFlags = [''token'', ''password'']"

text \<open>A flag set: the name and the rendered value of every flag, in the order \<open>VisitAll\<close> visits them.\<close>

type_synonym flag_set = "(string \<times> string) list"

definition config_text :: "flag_set \<Rightarrow> string" where
  "config_text fs = join_with [nl] (sort (map (\<lambda>(n, v). n @ ''='' @ v) (filter (\<lambda>(n, _). n \<notin> set secretFlags) fs)))"

definition hex_digit :: "nat \<Rightarrow> char" where
  "hex_digit n = (if n < 10 then char_of (48 + n) else char_of (87 + n))"

definition hex_EncodeToString :: "string \<Rightarrow> string" where
  "hex_EncodeToString s = concat (map (\<lambda>c. [hex_digit (byte_of c div 16), hex_digit (byte_of c mod 16)]) s)"

definition configHashLength :: nat where "configHashLength = 16"

definition configHash :: "(string \<Rightarrow> string) \<Rightarrow> flag_set \<Rightarrow> string" where
  "configHash sha256 fs = take configHashLength (hex_EncodeToString (sha256 (config_text fs)))"

definition logConfigLoaded :: "logger \<Rightarrow> string \<Rightarrow> string \<Rightarrow> nat \<Rightarrow> string \<Rightarrow> 'a tele_scheme \<Rightarrow> 'a tele_scheme" where
  "logConfigLoaded l version hash issuerCount mode s =
     Emit [] l EventProxyConfigLoaded
       [(''version'', AStr version), (''config_hash'', AStr hash), (''issuer_count'', AInt (int issuerCount)),
        (''readiness_mode'', AStr mode)] s"

section \<open>Issuer names\<close>

definition issuerNames :: "url_host \<Rightarrow> string list \<Rightarrow> string list" where
  "issuerNames uh urls = (if length urls = 0 then [] else map (IssuerName uh) urls)"

definition logIssuersConfigured :: "logger \<Rightarrow> string list \<Rightarrow> 'a tele_scheme \<Rightarrow> 'a tele_scheme" where
  "logIssuersConfigured l names s = fold (\<lambda>name. Emit [] l EventOIDCIssuerConfigured
     [(''issuer_name'', AStr name), (''issuer_count'', AInt (int (length names)))]) names s"

fun duplicate_loop :: "(string \<rightharpoonup> string) \<Rightarrow> (string \<times> string) list \<Rightarrow> (string \<times> string \<times> string) option" where
  "duplicate_loop seen [] = None"
| "duplicate_loop seen ((n, url) # ps) = (case seen n of
     Some firstURL \<Rightarrow> Some (n, firstURL, url)
   | None \<Rightarrow> duplicate_loop (seen(n \<mapsto> url)) ps)"

definition duplicateIssuerName :: "url_host \<Rightarrow> string list \<Rightarrow> (string \<times> string \<times> string) option" where
  "duplicateIssuerName uh urls = duplicate_loop Map.empty (zip (issuerNames uh urls) urls)"

section \<open>Authenticators\<close>

record jwt_config =
  jc_URL :: string
  jc_Audiences :: "string list"
  jc_CertificateAuthority :: string
  jc_UsernameClaim :: string
  jc_UsernamePrefix :: "string option"
  jc_GroupsClaim :: string
  jc_GroupsPrefix :: "string option"
  jc_ClaimValidationRules :: "(string \<times> string) list"

definition jwtAuthenticatorFromOIDCOptions :: "oidc_options \<Rightarrow> jwt_config" where
  "jwtAuthenticatorFromOIDCOptions oo = \<lparr>jc_URL = oo_IssuerURL oo, jc_Audiences = [oo_ClientID oo], jc_CertificateAuthority = [],
     jc_UsernameClaim = oo_UsernameClaim oo, jc_UsernamePrefix = Some (oo_UsernamePrefix oo),
     jc_GroupsClaim = oo_GroupsClaim oo, jc_GroupsPrefix = Some (oo_GroupsPrefix oo),
     jc_ClaimValidationRules = sort_key fst (oo_RequiredClaims oo)\<rparr>"

datatype ca_provider = CAFromFile string logger | StaticCA string

record oidc_new =
  on_CAContentProvider :: "ca_provider option"
  on_Client :: bool
  on_SupportedSigningAlgs :: "string list"
  on_JWTAuthenticator :: jwt_config

text \<open>
  A decoded configuration document: an \<open>AuthenticationConfiguration\<close> (with or without the anonymous section, and
  its issuers), or some other kind.
\<close>

datatype auth_document = AuthenticationConfiguration bool "jwt_config list" | OtherKind string

record auth_env =
  ae_TransportFor :: "string \<Rightarrow> string \<Rightarrow> string \<Rightarrow> string \<Rightarrow> err option"
  ae_oidcNew :: "oidc_new \<Rightarrow> err option"
  ae_NewStaticCAContent :: "string \<Rightarrow> err option"
  ae_ReadFile :: "string \<Rightarrow> err + string"
  ae_Decode :: "string \<Rightarrow> err + auth_document"
  ae_ValidateConfiguration :: "auth_document \<Rightarrow> err option"
  ae_AllValidSigningAlgorithms :: "string list"

definition oidcHTTPClient :: "auth_env \<Rightarrow> string \<Rightarrow> string \<Rightarrow> string \<Rightarrow> string \<Rightarrow> err + bool" where
  "oidcHTTPClient ae caFile caData certFile keyFile =
     (if certFile = [] then Inr False
      else case ae_TransportFor ae caFile caData certFile keyFile of
        Some e \<Rightarrow> Inl (Errorf (''building OIDC TLS transport: '' @ err_text e) [e])
      | None \<Rightarrow> Inr True)"

definition caContentProvider :: "string \<Rightarrow> logger option \<Rightarrow> ca_provider option" where
  "caContentProvider path lg = (if path = [] then None
     else Some (CAFromFile path (case lg of Some l \<Rightarrow> l | None \<Rightarrow> Discard)))"

definition CurrentCABundleContent :: "auth_env \<Rightarrow> string \<Rightarrow> logger \<Rightarrow> 'a tele_scheme \<Rightarrow> string \<times> 'a tele_scheme" where
  "CurrentCABundleContent ae path l s = (case ae_ReadFile ae path of
     Inl e \<Rightarrow> ([], Emit [] l EventProxyConfigInvalid [(''reason'', AStr ''ca_file_unreadable''), ErrAttr (Some e)] s)
   | Inr data \<Rightarrow> (data, s))"

type_synonym named_auther = "string \<times> oidc_new"

definition buildSingleAuther ::
  "url_host \<Rightarrow> auth_env \<Rightarrow> oidc_options \<Rightarrow> logger \<Rightarrow> logger option \<Rightarrow> 'a tele_scheme \<Rightarrow>
   (err + named_auther list \<times> string list) \<times> 'a tele_scheme" where
  "buildSingleAuther uh ae oo oidcLogger startupLogger s =
     (let jwtConfig = jwtAuthenticatorFromOIDCOptions oo in
      case oidcHTTPClient ae (oo_CAFile oo) [] (oo_TLSClientCertFile oo) (oo_TLSClientKeyFile oo) of
        Inl e \<Rightarrow> (Inl (Errorf (''creating OIDC HTTP client for issuer '' @ go_quote (oo_IssuerURL oo) @ '': '' @ err_text e) [e]), s)
      | Inr client \<Rightarrow>
          let provider = (if client then None else caContentProvider (oo_CAFile oo) startupLogger);
              on = \<lparr>on_CAContentProvider = provider, on_Client = client, on_SupportedSigningAlgs = oo_SigningAlgs oo,
                    on_JWTAuthenticator = jwtConfig\<rparr> in
          case ae_oidcNew ae on of
            Some e \<Rightarrow> (Inl (Errorf (''creating OIDC authenticator for issuer '' @ go_quote (oo_IssuerURL oo) @ '': '' @ err_text e) [e]), s)
          | None \<Rightarrow> (Inr ([(IssuerName uh (oo_IssuerURL oo), on)], [oo_IssuerURL oo]),
                     logIssuersConfigured oidcLogger (issuerNames uh [oo_IssuerURL oo]) s))"

definition oidcAutherFromJWT :: "auth_env \<Rightarrow> jwt_config \<Rightarrow> string list \<Rightarrow> oidc_options \<Rightarrow> err + oidc_new" where
  "oidcAutherFromJWT ae jc algs oo = (case (if jc_CertificateAuthority jc \<noteq> [] then ae_NewStaticCAContent ae (jc_CertificateAuthority jc) else None) of
     Some e \<Rightarrow> Inl (Errorf (''invalid certificateAuthority for issuer '' @ go_quote (jc_URL jc) @ '': '' @ err_text e) [e])
   | None \<Rightarrow>
       let provider = (if jc_CertificateAuthority jc \<noteq> [] then Some (StaticCA (jc_CertificateAuthority jc)) else None) in
       case oidcHTTPClient ae [] (jc_CertificateAuthority jc) (oo_TLSClientCertFile oo) (oo_TLSClientKeyFile oo) of
         Inl e \<Rightarrow> Inl (Errorf (''creating OIDC HTTP client for issuer '' @ go_quote (jc_URL jc) @ '': '' @ err_text e) [e])
       | Inr client \<Rightarrow>
           let on = \<lparr>on_CAContentProvider = (if client then None else provider), on_Client = client,
                 on_SupportedSigningAlgs = algs, on_JWTAuthenticator = jc\<rparr> in
           case ae_oidcNew ae on of Some e \<Rightarrow> Inl e | None \<Rightarrow> Inr on)"

definition Load :: "auth_env \<Rightarrow> string \<Rightarrow> err + jwt_config list" where
  "Load ae file = (case ae_ReadFile ae file of
     Inl e \<Rightarrow> Inl (Errorf (''reading authentication-config '' @ go_quote file @ '': '' @ err_text e) [e])
   | Inr data \<Rightarrow> (case ae_Decode ae data of
       Inl e \<Rightarrow> Inl (Errorf (''parsing authentication-config '' @ go_quote file @ '': '' @ err_text e) [e])
     | Inr (OtherKind gvk) \<Rightarrow>
         Inl (NewError (''authentication-config '' @ go_quote file @ '': expected AuthenticationConfiguration, got '' @ gvk))
     | Inr (AuthenticationConfiguration anonymous jwts) \<Rightarrow>
         if anonymous
         then Inl (NewError (''authentication-config '' @ go_quote file @ '': the '' @ [CHR 0x27] @ ''anonymous'' @ [CHR 0x27] @
                '' section is not supported by kube-oidc-proxy''))
         else if length jwts = 0
         then Inl (NewError (''authentication-config '' @ go_quote file @ '': jwt list must not be empty''))
         else case ae_ValidateConfiguration ae (AuthenticationConfiguration anonymous jwts) of
           Some e \<Rightarrow> Inl (Errorf (''invalid authentication-config '' @ go_quote file @ '': '' @ err_text e) [e])
         | None \<Rightarrow> Inr jwts))"

definition issuerNameFor :: "url_host \<Rightarrow> jwt_config \<Rightarrow> string" where
  "issuerNameFor uh jc = IssuerName uh (jc_URL jc)"

fun build_authers :: "url_host \<Rightarrow> auth_env \<Rightarrow> oidc_options \<Rightarrow> jwt_config list \<Rightarrow> named_auther list \<Rightarrow> err + named_auther list" where
  "build_authers uh ae oo [] acc = Inr acc"
| "build_authers uh ae oo (jc # jcs) acc = (case oidcAutherFromJWT ae jc (ae_AllValidSigningAlgorithms ae) oo of
     Inl e \<Rightarrow> Inl (Errorf (''building authenticator for issuer '' @ go_quote (jc_URL jc) @ '': '' @ err_text e) [e])
   | Inr auther \<Rightarrow> build_authers uh ae oo jcs (acc @ [(issuerNameFor uh jc, auther)]))"

definition buildUnionAuther ::
  "url_host \<Rightarrow> auth_env \<Rightarrow> options \<Rightarrow> logger \<Rightarrow> 'a tele_scheme \<Rightarrow>
   (err + named_auther list \<times> string list) \<times> 'a tele_scheme" where
  "buildUnionAuther uh ae opts oidcLogger s = (case Load ae (op_ConfigFile opts) of
     Inl e \<Rightarrow> (Inl e, s)
   | Inr jwts \<Rightarrow>
       let issuerURLs = map jc_URL jwts in
       case duplicateIssuerName uh issuerURLs of
         Some (name, first, otherURL) \<Rightarrow>
           (Inl (NewError (''two configured issuers share the name '' @ go_quote name @ '' ('' @ go_quote first @ '' and '' @
              go_quote otherURL @ ''); issuers must differ by host'')), s)
       | None \<Rightarrow> (case build_authers uh ae (op_OIDCAuthentication opts) jwts [] of
           Inl e \<Rightarrow> (Inl e, s)
         | Inr authers \<Rightarrow> (Inr (authers, issuerURLs), logIssuersConfigured oidcLogger (issuerNames uh issuerURLs) s)))"

definition buildTokenAuther ::
  "url_host \<Rightarrow> auth_env \<Rightarrow> options \<Rightarrow> logger \<Rightarrow> logger option \<Rightarrow> 'a tele_scheme \<Rightarrow>
   (err + named_auther list \<times> string list) \<times> 'a tele_scheme" where
  "buildTokenAuther uh ae opts oidcLogger startupLogger s =
     (if op_ConfigFile opts \<noteq> [] then buildUnionAuther uh ae opts oidcLogger s
      else buildSingleAuther uh ae (op_OIDCAuthentication opts) oidcLogger startupLogger s)"

section \<open>The fingerprint\<close>

lemma sort_mset_eq: "mset xs = mset ys \<Longrightarrow> sort xs = sort ys"
  by (rule properties_for_sort) simp_all

lemma length_hex: "length (hex_EncodeToString s) = 2 * length s"
  by (induction s) (simp_all add: hex_EncodeToString_def)

text \<open>
  The configuration fingerprint compares non-secret configurations. Two flag sets with the same
  non-secret flags, registered in any order and whatever \<open>--token\<close> and \<open>--password\<close> hold, have the same
  fingerprint, and it is 16 characters long.
\<close>

theorem config_hash_non_secret:
  assumes "mset (filter (\<lambda>(n, _). n \<notin> {''token'', ''password''}) fs) = mset (filter (\<lambda>(n, _). n \<notin> {''token'', ''password''}) fs')"
    and "\<And>x. length (sha256 x) = 32"
  shows "configHash sha256 fs = configHash sha256 fs' \<and> length (configHash sha256 fs) = 16"
proof -
  let ?ns = "\<lambda>fs. filter (\<lambda>(n, _). n \<notin> {''token'', ''password''}) fs" and ?p = "\<lambda>(n, v). n @ ''='' @ v :: string"
  have "mset (map ?p (?ns fs)) = mset (map ?p (?ns fs'))" using arg_cong [OF assms(1), of "image_mset ?p"] by simp
  from sort_mset_eq [OF this] have "config_text fs = config_text fs'"
    by (simp add: config_text_def secretFlags_def)
  then show ?thesis using assms(2) by (simp add: configHash_def length_hex configHashLength_def)
qed

theorem config_hash_non_secret_witness:
  "configHash (\<lambda>_. replicate 32 CHR ''x'') [(''v'', ''0''), (''token'', ''s3cret''), (''oidc-client-id'', ''a'')] =
   configHash (\<lambda>_. replicate 32 CHR ''x'') [(''oidc-client-id'', ''a''), (''v'', ''0'')]"
  using config_hash_non_secret [of "[(''v'', ''0''), (''token'', ''s3cret''), (''oidc-client-id'', ''a'')]"
      "[(''oidc-client-id'', ''a''), (''v'', ''0'')]" "\<lambda>_. replicate 32 CHR ''x''"] by simp


section \<open>Required claims\<close>

text \<open>
  C25. Every required claim is enforced. In the single-issuer path the claim rules handed to the
  authenticator are exactly the \<open>--oidc-required-claim\<close> pairs, ordered by claim, the same for every order the
  map is ranged over; issuer, audience, claims and prefixes are those of the flags.
\<close>

theorem required_claims_enforced:
  assumes "distinct (map fst claims)" "mset claims' = mset claims"
  shows "let jc = jwtAuthenticatorFromOIDCOptions (oo\<lparr>oo_RequiredClaims := claims\<rparr>) in
    jwtAuthenticatorFromOIDCOptions (oo\<lparr>oo_RequiredClaims := claims'\<rparr>) = jc \<and>
    mset (jc_ClaimValidationRules jc) = mset claims \<and> sorted (map fst (jc_ClaimValidationRules jc)) \<and>
    jc_URL jc = oo_IssuerURL oo \<and> jc_Audiences jc = [oo_ClientID oo] \<and>
    jc_UsernamePrefix jc = Some (oo_UsernamePrefix oo) \<and> jc_GroupsPrefix jc = Some (oo_GroupsPrefix oo)"
proof -
  have "inj_on fst (set claims')" using assms by (simp add: distinct_map flip: set_mset_mset)
  then have "sort_key fst claims' = sort_key fst claims"
    using assms(2) by (intro sort_key_inj_key_eq) simp_all
  then show ?thesis by (simp add: jwtAuthenticatorFromOIDCOptions_def)
qed

theorem required_claims_enforced_witness:
  "jc_ClaimValidationRules (jwtAuthenticatorFromOIDCOptions (NewOIDCAuthenticationOptions\<lparr>oo_RequiredClaims := [(''b'', ''2''), (''a'', ''1'')]\<rparr>)) =
   jc_ClaimValidationRules (jwtAuthenticatorFromOIDCOptions (NewOIDCAuthenticationOptions\<lparr>oo_RequiredClaims := [(''a'', ''1''), (''b'', ''2'')]\<rparr>))"
  using required_claims_enforced [of "[(''a'', ''1''), (''b'', ''2'')]" "[(''b'', ''2''), (''a'', ''1'')]" NewOIDCAuthenticationOptions]
  by (simp add: Let_def)

section \<open>Issuers\<close>

lemma duplicate_loop_None:
  "duplicate_loop seen ps = None \<longleftrightarrow> distinct (map fst ps) \<and> (\<forall>n \<in> fst ` set ps. seen n = None)"
proof (induction seen ps rule: duplicate_loop.induct)
  case (2 seen n url ps)
  show ?case
  proof (cases "seen n")
    case None
    have "(\<forall>m \<in> fst ` set ps. (seen(n \<mapsto> url)) m = None) \<longleftrightarrow> n \<notin> fst ` set ps \<and> (\<forall>m \<in> fst ` set ps. seen m = None)"
      by auto
    with 2 [OF None] None show ?thesis by (simp only: duplicate_loop.simps option.case) auto
  qed simp
qed simp

lemma issuerNames_map: "issuerNames uh urls = map (IssuerName uh) urls"
  by (simp add: issuerNames_def)

lemma duplicateIssuerName_None: "duplicateIssuerName uh urls = None \<longleftrightarrow> distinct (map (IssuerName uh) urls)"
  by (simp add: duplicateIssuerName_def duplicate_loop_None issuerNames_map)

lemma logIssuers_fold:
  "t_log (fold (\<lambda>name. Emit [] l e (as name)) names s) = t_log s @ concat (map (\<lambda>name. emitted [] l e (as name)) names)"
  by (induction names arbitrary: s) (simp_all add: t_log_emitted)

lemma t_log_IssuersConfigured:
  "t_log (logIssuersConfigured l names s) = t_log s @
     concat (map (\<lambda>name. emitted [] l EventOIDCIssuerConfigured [(''issuer_name'', AStr name), (''issuer_count'', AInt (int (length names)))]) names)"
  by (simp add: logIssuersConfigured_def logIssuers_fold)

text \<open>How an authenticator of an issuer is built: the client certificate goes with every issuer, and a client of its own excludes a CA provider.\<close>

definition built_for :: "oidc_options \<Rightarrow> string \<Rightarrow> oidc_new \<Rightarrow> bool" where
  "built_for oo url on = (jc_URL (on_JWTAuthenticator on) = url \<and> on_Client on = (oo_TLSClientCertFile oo \<noteq> []) \<and>
     (on_Client on \<longrightarrow> on_CAContentProvider on = None))"

lemma oidcHTTPClient_Inr: "oidcHTTPClient ae cf cd cert key = Inr client \<Longrightarrow> client = (cert \<noteq> [])"
  by (auto simp: oidcHTTPClient_def split: if_splits option.splits)

lemma oidcAutherFromJWT_built: "oidcAutherFromJWT ae jc algs oo = Inr on \<Longrightarrow> built_for oo (jc_URL jc) on"
  by (auto simp: oidcAutherFromJWT_def built_for_def Let_def dest: oidcHTTPClient_Inr split: option.splits sum.splits if_splits)

lemma build_authers_Inr:
  "build_authers uh ae oo jcs acc = Inr authers \<Longrightarrow>
   \<exists>new. authers = acc @ new \<and> map fst new = map (issuerNameFor uh) jcs \<and> list_all2 (built_for oo) (map jc_URL jcs) (map snd new)"
proof (induction jcs arbitrary: acc)
  case (Cons jc jcs)
  from Cons.prems obtain on where on: "oidcAutherFromJWT ae jc (ae_AllValidSigningAlgorithms ae) oo = Inr on"
    "build_authers uh ae oo jcs (acc @ [(issuerNameFor uh jc, on)]) = Inr authers"
    by (auto split: sum.splits)
  from Cons.IH [OF on(2)] obtain new where "authers = (acc @ [(issuerNameFor uh jc, on)]) @ new"
    "map fst new = map (issuerNameFor uh) jcs" "list_all2 (built_for oo) (map jc_URL jcs) (map snd new)" by blast
  with oidcAutherFromJWT_built [OF on(1)] show ?case
    by (intro exI [of _ "(issuerNameFor uh jc, on) # new"]) simp
qed simp

lemma Load_not_Nil: "Load ae file = Inr jwts \<Longrightarrow> jwts \<noteq> []"
  by (auto simp: Load_def split: sum.splits auth_document.splits if_splits option.splits)

text \<open>
  C24. Issuers are named apart. When the token authenticator is built there is one named authenticator per
  configured issuer, in order, the names are the issuers' hosts and pairwise different, each carries
  the configured client certificate and then no CA provider of its own, and the log stream has gained
  exactly one \<open>oidc.issuer.configured\<close> record per issuer. When it is not built nothing was logged.
\<close>

theorem issuers_are_named_apart:
  assumes "buildTokenAuther uh ae opts oidcLogger startupLogger s = (r, s')"
  shows "case r of
      Inl e \<Rightarrow> s' = s
    | Inr (authers, urls) \<Rightarrow>
        urls \<noteq> [] \<and> map fst authers = map (IssuerName uh) urls \<and> distinct (map fst authers) \<and>
        list_all2 (built_for (op_OIDCAuthentication opts)) urls (map snd authers) \<and>
        t_log s' = t_log s @ concat (map (\<lambda>name. emitted [] oidcLogger EventOIDCIssuerConfigured
          [(''issuer_name'', AStr name), (''issuer_count'', AInt (int (length urls)))]) (map fst authers))"
proof (cases "op_ConfigFile opts = []")
  case True
  then show ?thesis
    using assms by (auto simp: buildTokenAuther_def buildSingleAuther_def Let_def issuerNames_map built_for_def
      jwtAuthenticatorFromOIDCOptions_def t_log_IssuersConfigured dest: oidcHTTPClient_Inr split: sum.splits option.splits if_splits)
next
  case False
  then have u: "buildUnionAuther uh ae opts oidcLogger s = (r, s')" using assms by (simp add: buildTokenAuther_def)
  show ?thesis
  proof (cases r)
    case (Inl e)
    with u show ?thesis by (auto simp: buildUnionAuther_def Let_def split: sum.splits option.splits)
  next
    case (Inr au)
    obtain authers urls where au: "au = (authers, urls)" by fastforce
    from u Inr obtain jwts where j: "Load ae (op_ConfigFile opts) = Inr jwts" "urls = map jc_URL jwts" "duplicateIssuerName uh urls = None"
      "build_authers uh ae (op_OIDCAuthentication opts) jwts [] = Inr authers"
      and s': "s' = logIssuersConfigured oidcLogger (issuerNames uh urls) s"
      by (auto simp: buildUnionAuther_def Let_def au split: sum.splits option.splits)
    from build_authers_Inr [OF j(4)] have b: "map fst authers = map (issuerNameFor uh) jwts"
      "list_all2 (built_for (op_OIDCAuthentication opts)) (map jc_URL jwts) (map snd authers)" by auto
    have n: "map fst authers = map (IssuerName uh) urls" by (simp add: b(1) j(2) issuerNameFor_def)
    have "t_log s' = t_log s @ concat (map (\<lambda>name. emitted [] oidcLogger EventOIDCIssuerConfigured
          [(''issuer_name'', AStr name), (''issuer_count'', AInt (int (length urls)))]) (map fst authers))"
      by (simp only: s' t_log_IssuersConfigured issuerNames_map n length_map)
    moreover have "distinct (map fst authers)" using j(3) by (simp only: duplicateIssuerName_None n)
    ultimately show ?thesis using Load_not_Nil [OF j(1)] j(2) b(2) n by (simp only: Inr au sum.case prod.case) simp
  qed
qed

definition demo_auth_env :: auth_env where
  "demo_auth_env = \<lparr>ae_TransportFor = (\<lambda>_ _ _ _. None), ae_oidcNew = (\<lambda>_. None), ae_NewStaticCAContent = (\<lambda>_. None),
     ae_ReadFile = (\<lambda>_. Inr []), ae_Decode = (\<lambda>_. Inl (NewError ''no document'')), ae_ValidateConfiguration = (\<lambda>_. None),
     ae_AllValidSigningAlgorithms = [''RS256'']\<rparr>"

theorem issuers_are_named_apart_witness:
  "\<exists>authers urls s'. buildTokenAuther (\<lambda>_. Some ''idp'') demo_auth_env options_New Discard None \<lparr>t_now = 0, t_log = [], t_met = []\<rparr> =
     (Inr (authers, urls), s') \<and> map fst authers = [IssuerName (\<lambda>_. Some ''idp'') []]"
proof -
  let ?b = "buildTokenAuther (\<lambda>_. Some ''idp'') demo_auth_env options_New Discard None \<lparr>t_now = 0, t_log = [], t_met = []\<rparr>"
  obtain authers s' where b: "?b = (Inr (authers, [[]]), s')"
    by (simp add: buildTokenAuther_def buildSingleAuther_def oidcHTTPClient_def options_New_def NewOIDCAuthenticationOptions_def demo_auth_env_def)
  from issuers_are_named_apart [OF b] b show ?thesis by auto
qed

end
