(* ===== verification/Signals.thy ===== *)
theory Signals
  imports Logging
begin

text \<open>
  Signal handling, \<^verbatim>\<open>pkg/util/signals/signals.go\<close>. The goroutine of \<open>handle\<close> blocks on the signal
  channel between its steps, so it is a machine that advances by one received signal: \<open>sig_pc\<close> says
  which receive it waits in. Closing the stop channel and calling \<open>exit\<close> are counters of the state.
\<close>

datatype os_signal = SIGTERM | SIGINT | OtherSignal string

definition signalName :: "os_signal \<Rightarrow> string" where
  "signalName sg = (case sg of
     SIGTERM \<Rightarrow> ''SIGTERM''
   | SIGINT \<Rightarrow> ''SIGINT''
   | OtherSignal description \<Rightarrow> Bound description MaxIdentity)"

definition forcedSignalCount :: nat where "forcedSignalCount = 3"

datatype sig_pc = AwaitFirst | AwaitForced nat | HandlerDone

record sig_state = tele +
  sg_pc :: sig_pc
  sg_stopClosed :: nat
  sg_exits :: nat

definition handle_init :: "tele \<Rightarrow> sig_state" where
  "handle_init s = \<lparr>t_now = t_now s, t_log = t_log s, t_met = t_met s, sg_pc = AwaitFirst, sg_stopClosed = 0, sg_exits = 0\<rparr>"

text \<open>The receive loop: \<open>i\<close> signals of it have been received. The last one falls through to the forced exit.\<close>

definition handle :: "logger \<Rightarrow> os_signal \<Rightarrow> sig_state \<Rightarrow> sig_state" where
  "handle l sg s = (case sg_pc s of
     AwaitFirst \<Rightarrow>
       Emit [] l EventProxyShutdownStarted [(''signal'', AStr (signalName sg))]
         (s\<lparr>sg_stopClosed := Suc (sg_stopClosed s), sg_pc := AwaitForced 0\<rparr>)
   | AwaitForced i \<Rightarrow>
       if Suc i < forcedSignalCount then s\<lparr>sg_pc := AwaitForced (Suc i)\<rparr>
       else
         let s1 = Emit [] l EventProxyShutdownStarted [(''signal'', AStr (signalName sg)), (''forced'', ABool True)] s in
         s1\<lparr>sg_exits := Suc (sg_exits s1), sg_pc := HandlerDone\<rparr>
   | HandlerDone \<Rightarrow> s)"

lemma sig_more_eq:
  assumes "tele.more s = tele.more (s' :: sig_state)"
  shows "sg_pc s = sg_pc s'" "sg_stopClosed s = sg_stopClosed s'" "sg_exits s = sg_exits s'"
  using assms by (cases s; cases s'; simp)+

lemmas Emit_sig [simp] = sig_more_eq [OF Emit_frame(3)]

lemma handle_done: "sg_pc s = HandlerDone \<Longrightarrow> fold (handle l) sigs s = s"
  by (induction sigs) (simp_all add: handle_def)

lemma handle_forced:
  assumes "sg_pc s = AwaitForced 0"
  shows "fold (handle l) sigs s =
    (if length sigs < 3 then s\<lparr>sg_pc := AwaitForced (length sigs)\<rparr>
     else (Emit [] l EventProxyShutdownStarted [(''signal'', AStr (signalName (sigs ! 2))), (''forced'', ABool True)]
             (s\<lparr>sg_pc := AwaitForced 2\<rparr>))\<lparr>sg_exits := Suc (sg_exits s), sg_pc := HandlerDone\<rparr>)"
proof -
  consider "sigs = []" | a where "sigs = [a]" | a b where "sigs = [a, b]" | a b c r where "sigs = a # b # c # r"
    by (metis list.exhaust)
  then show ?thesis
    using assms by cases (simp_all add: handle_def forcedSignalCount_def Let_def handle_done numeral_2_eq_2)
qed

text \<open>
  C27. Shutdown is requested by the first signal and forced by the fourth. After any sequence of signals
  the stop channel has been closed exactly once if there was one, \<open>exit\<close> has been called exactly once
  if there were at least four and never otherwise, and the log stream has gained one
  \<open>proxy.shutdown.started\<close> record for the first signal and, after the fourth, one more marked as forced
  and naming that signal: the second and third leave no trace.
\<close>

theorem shutdown_by_signals:
  assumes "s = fold (handle l) sigs (handle_init t)"
  shows "sg_stopClosed s = (if sigs = [] then 0 else 1) \<and>
    sg_exits s = (if length sigs < 4 then 0 else 1) \<and>
    t_log s = t_log t @
      (if sigs = [] then [] else emitted [] l EventProxyShutdownStarted [(''signal'', AStr (signalName (sigs ! 0)))]) @
      (if length sigs < 4 then []
       else emitted [] l EventProxyShutdownStarted [(''signal'', AStr (signalName (sigs ! 3))), (''forced'', ABool True)])"
proof (cases sigs)
  case Nil
  with assms show ?thesis by (simp add: handle_init_def)
next
  case (Cons a r)
  let ?s1 = "handle l a (handle_init t)"
  have s1: "sg_pc ?s1 = AwaitForced 0" "sg_stopClosed ?s1 = 1" "sg_exits ?s1 = 0"
    "t_log ?s1 = t_log t @ emitted [] l EventProxyShutdownStarted [(''signal'', AStr (signalName a))]"
    by (simp_all add: handle_def handle_init_def t_log_emitted)
  have "s = fold (handle l) r ?s1" using assms Cons by simp
  then show ?thesis
    using Cons s1 by (simp add: handle_forced [OF s1(1)] t_log_emitted numeral_3_eq_3 numeral_2_eq_2)
qed

theorem shutdown_by_signals_witness:
  "sg_exits (fold (handle Discard) [SIGTERM, SIGINT, SIGINT, SIGTERM] (handle_init \<lparr>t_now = 0, t_log = [], t_met = []\<rparr>)) = 1 \<and>
   sg_exits (fold (handle Discard) [SIGTERM, SIGINT, SIGINT] (handle_init \<lparr>t_now = 0, t_log = [], t_met = []\<rparr>)) = 0"
  using shutdown_by_signals [OF refl, where sigs = "[SIGTERM, SIGINT, SIGINT, SIGTERM]" and l = Discard and t = "\<lparr>t_now = 0, t_log = [], t_met = []\<rparr>"]
    shutdown_by_signals [OF refl, where sigs = "[SIGTERM, SIGINT, SIGINT]" and l = Discard and t = "\<lparr>t_now = 0, t_log = [], t_met = []\<rparr>"]
  by simp

end
