(* ===== verification/App.thy ===== *)
theory App
  imports Startup Chain Signals
begin

text \<open>
  The command, \<^verbatim>\<open>cmd/app/run.go\<close> and \<^verbatim>\<open>cmd/main.go\<close>, with \<open>Proxy.Run\<close> and \<open>Proxy.serve\<close>: from validated options to a
  serving proxy, and the shutdown. \<open>RunE\<close> is cut at its phases: listeners, construction, probe, serving,
  drain. \<open>run_state\<close> is the world of the request path, the probe server once there is one, and the calls
  into the other components in order. \<open>run_env\<close> holds what the Kubernetes libraries, the network and the
  file system answer; \<open>re_served\<close> is whatever happens between the start of serving and the close of the listener.
  A listener goroutine that ends is reported when it is waited for. The client throttling put on the REST
  configuration is not modelled.
\<close>

section \<open>The proxy's Run\<close>

record run_env =
  re_opt :: opt_env
  re_agg :: aggregator
  re_flags :: flag_set
  re_sha256 :: "string \<Rightarrow> string"
  re_build :: "string \<times> string \<times> string"
  re_url_host :: url_host
  re_auth :: auth_env
  re_Register :: "err option"
  re_metricsListen :: "err + string"
  re_RESTConfig :: "bool \<Rightarrow> err option"
  re_NewForConfig :: "err option"
  re_tr_env :: tr_env
  re_tr_lru :: "cached_review lru"
  re_sar_lru :: "bool lru"
  re_ApplyTo :: "err option"
  re_Audit :: "err + auditor"
  re_FakeJWT :: "string \<Rightarrow> err + string"
  re_probeListen :: "err option"
  re_TransportFor :: "bool \<Rightarrow> err option"
  re_ParseHost :: "err option"
  re_Serve :: "err option"
  re_served :: "world \<Rightarrow> world"
  re_probeEnd :: serving_end
  re_metricsEnd :: serving_end

text \<open>
  \<open>flushWarnLimiter\<close>: the limiter is flushed on every tick and once more when the stop channel closes, which ends the
  loop. The list is what the goroutine's select received; without a stop it waits for more.
\<close>

datatype flush_event = Tick | StopClosed

fun flushWarnLimiter :: "logger option \<Rightarrow> flush_event list \<Rightarrow> limiter option \<times> world \<Rightarrow> bool \<times> limiter option \<times> world" where
  "flushWarnLimiter lg [] ls = (False, ls)"
| "flushWarnLimiter lg (Tick # es) ls = flushWarnLimiter lg es (Flush [] (Some (componentLogger lg)) (fst ls) (snd ls))"
| "flushWarnLimiter lg (StopClosed # es) ls = (True, Flush [] (Some (componentLogger lg)) (fst ls) (snd ls))"

text \<open>\<open>net.JoinHostPort\<close>.\<close>

definition join_host_port :: "string \<Rightarrow> string \<Rightarrow> string" where
  "join_host_port host port = (if CHR '':'' \<in> set host then ''['' @ host @ '']:'' @ port else host @ '':'' @ port)"

text \<open>\<open>roundTripperForRestConfig\<close> of the configuration with (\<open>True\<close>) or without credentials.\<close>

definition roundTripperForRestConfig :: "run_env \<Rightarrow> bool \<Rightarrow> err option" where
  "roundTripperForRestConfig re creds = (case re_TransportFor re creds of
     Some e \<Rightarrow> Some (Errorf (''building API server transport: '' @ err_text e) [e])
   | None \<Rightarrow> None)"

text \<open>Which transports \<open>Run\<close> leaves in the proxy.\<close>

record transports =
  tr_client :: bool
  tr_noAuth :: bool

definition proxy_serve :: "run_env \<Rightarrow> proxy \<Rightarrow> world \<Rightarrow> (err + proxy) \<times> world" where
  "proxy_serve re p s =
     (let p1 = p\<lparr>p_hooks := AddPreShutdownHook ''AuditBackend'' (audit_Shutdown (p_auditor p)) (p_hooks p)\<rparr> in
      case audit_Run (p_auditor p1) s of
        (Some e, s1) \<Rightarrow> (Inl e, s1)
      | (None, s1) \<Rightarrow> (case re_Serve re of Some e \<Rightarrow> (Inl e, s1) | None \<Rightarrow> (Inr p1, s1)))"

definition proxy_Run :: "run_env \<Rightarrow> proxy \<Rightarrow> world \<Rightarrow> (err + proxy \<times> transports) \<times> world" where
  "proxy_Run re p s = (case roundTripperForRestConfig re True of
     Some e \<Rightarrow> (Inl e, s)
   | None \<Rightarrow>
       let need = (DisableImpersonation (p_config p) \<or> TokenReviewEnabled (p_config p)) in
       case (if need then roundTripperForRestConfig re False else None) of
         Some e \<Rightarrow> (Inl e, s)
       | None \<Rightarrow> (case re_ParseHost re of
           Some e \<Rightarrow> (Inl (Errorf (''failed to parse url: '' @ err_text e) [e]), s)
         | None \<Rightarrow> (case proxy_serve re p s of
             (Inl e, s1) \<Rightarrow> (Inl e, s1)
           | (Inr p1, s1) \<Rightarrow> (Inr (p1, \<lparr>tr_client = True, tr_noAuth = need\<rparr>), s1))))"

section \<open>Construction\<close>

definition tokenreview_New :: "run_env \<Rightarrow> string list \<Rightarrow> int \<Rightarrow> logger option \<Rightarrow> err + token_review" where
  "tokenreview_New re audiences timeout lg = (case re_NewForConfig re of
     Some e \<Rightarrow> Inl e
   | None \<Rightarrow> Inr \<lparr>tr_logger = Some (case lg of Some l \<Rightarrow> l | None \<Rightarrow> Discard), tr_audiences = audiences, tr_timeout = timeout,
       tr_metrics = NilRecorder\<rparr>)"

definition token_reviewer :: "run_env \<Rightarrow> options \<Rightarrow> level \<Rightarrow> recorder \<Rightarrow> err + token_authenticator option" where
  "token_reviewer re opts root r =
     (let tp = ao_TokenPassthrough (op_App opts) in
      if \<not> tp_Enabled tp then Inr None
      else case tokenreview_New re (tp_Audiences tp) (tp_RequestTimeout tp) (Some (ForComponent root ComponentTokenReview)) of
        Inl e \<Rightarrow> Inl e
      | Inr t \<Rightarrow> Inr (Some (NewCached (re_tr_env re) (t\<lparr>tr_metrics := r\<rparr>) (tp_CacheSuccessTTL tp) (tp_CacheFailureTTL tp))))"

definition proxy_config :: "options \<Rightarrow> config" where
  "proxy_config opts = (let a = op_App opts in
     \<lparr>DisableImpersonation = ao_DisableImpersonation a, TokenReviewEnabled = tp_Enabled (ao_TokenPassthrough a),
      AllowedReservedGroups = ao_AllowedReservedGroups a, FlushInterval = ao_FlushInterval a, ExternalAddress = op_BindAddress opts,
      ExtraUserHeaders = eh_ExtraUserHeaders (ao_ExtraHeaderOptions a),
      ExtraUserHeadersClientIPEnabled = eh_EnableClientIP (ao_ExtraHeaderOptions a), TrustedProxies = ao_TrustedProxies a\<rparr>)"

text \<open>The caches the two reviewers start with.\<close>

definition new_caches :: "run_env \<Rightarrow> options \<Rightarrow> world \<Rightarrow> world" where
  "new_caches re opts s = (let a = op_App opts; tp = ao_TokenPassthrough a in
     s\<lparr>tr_store := newTokenCache (re_tr_lru re) (tp_CacheSuccessTTL tp) (tp_CacheFailureTTL tp),
       sar_cache := newDecisionCache (re_sar_lru re) (ao_SubjectAccessReviewAllowCacheTTL a) (ao_SubjectAccessReviewDenyCacheTTL a)\<rparr>)"

definition build_proxy :: "run_env \<Rightarrow> cmd \<Rightarrow> options \<Rightarrow> level \<Rightarrow> recorder \<Rightarrow> world \<Rightarrow> (err + proxy \<times> string list) \<times> world" where
  "build_proxy re c opts root r s = (case checkReservedIdentityPrefixes opts of
     Some e \<Rightarrow> (Inl e, s)
   | None \<Rightarrow> (case re_RESTConfig re (ClientFlagsChanged c) of
     Some e \<Rightarrow> (Inl e, s)
   | None \<Rightarrow> (case token_reviewer re opts root r of
     Inl e \<Rightarrow> (Inl e, s)
   | Inr tokenReviewer \<Rightarrow> (case re_ApplyTo re of
     Some e \<Rightarrow> (Inl e, s)
   | None \<Rightarrow> (case re_NewForConfig re of
     Some e \<Rightarrow> (Inl e, s)
   | None \<Rightarrow> (case sar_New (ao_SubjectAccessReviewTimeout (op_App opts)) (ao_MaxImpersonationHeaderValues (op_App opts))
       (Some (ForComponent root ComponentSAR)) of
     Inl e \<Rightarrow> (Inl e, s)
   | Inr sr \<Rightarrow> (case buildTokenAuther (re_url_host re) (re_auth re) opts (ForComponent root ComponentOIDC)
       (Some (ForComponent root ComponentStartup)) (new_caches re opts s) of
     (Inl e, s1) \<Rightarrow> (Inl e, s1)
   | (Inr (authers, issuerURLs), s1) \<Rightarrow> (case proxy_New
       \<lparr>dep_Logger = Some root, dep_RestConfig = True, dep_TokenAuthenticator = True, dep_Audit = re_Audit re,
        dep_TokenReviewer = tokenReviewer, dep_SubjectAccessReviewer = Some (sr\<lparr>sar_metrics := r\<rparr>), dep_SecureServingInfo = True,
        dep_Config = Some (proxy_config opts), dep_Metrics = r\<rparr> of
     Inl e \<Rightarrow> (Inl e, s1)
   | Inr p \<Rightarrow> (Inr (p, issuerURLs), s1)))))))))"

fun issuer_probes :: "run_env \<Rightarrow> string list \<Rightarrow> issuer_readiness list \<Rightarrow> err + issuer_readiness list" where
  "issuer_probes re [] acc = Inr acc"
| "issuer_probes re (u # us) acc = (case re_FakeJWT re u of
     Inl e \<Rightarrow> Inl e
   | Inr jwt \<Rightarrow> issuer_probes re us (acc @ [\<lparr>ir_IssuerURL = u, ir_FakeJWT = jwt\<rparr>]))"

section \<open>The command\<close>

datatype app_step =
    MetricsStarted | ProbeStarted | ProxyRunning | ServingSet | ProbeStopped | ProbeWaited | HooksRun
  | MetricsStopped | MetricsWaited

record run_state =
  ru_world :: world
  ru_probe :: "(hc \<times> hc_state) option"
  ru_trace :: "app_step list"

definition did :: "app_step \<Rightarrow> run_state \<Rightarrow> run_state" where
  "did a st = st\<lparr>ru_trace := ru_trace st @ [a]\<rparr>"

definition metrics_New :: "run_env \<Rightarrow> world \<Rightarrow> err option \<times> world" where
  "metrics_New re s = (case re_Register re of
     Some e \<Rightarrow> (Some (Errorf (''metrics: registering collector: '' @ err_text e) [e]), s)
   | None \<Rightarrow> (let (version, revision, goVersion) = re_build re in
       (None, record_ops Recorder [MSet nameBuildInfo [version, revision, goVersion] 1] s)))"

text \<open>The metrics listener, when one is configured; without one the recorder is nil.\<close>

definition start_metrics :: "run_env \<Rightarrow> options \<Rightarrow> level \<Rightarrow> run_state \<Rightarrow> (err + recorder) \<times> run_state" where
  "start_metrics re opts root st =
     (if \<not> metrics_Enabled opts then (Inr NilRecorder, st)
      else case metrics_New re (ru_world st) of
        (Some e, w) \<Rightarrow> (Inl e, st\<lparr>ru_world := w\<rparr>)
      | (None, w) \<Rightarrow> (case server_Start (op_MetricsBindAddress opts) (ForComponent root ComponentMetrics) (re_metricsListen re) w of
          (Some e, w1) \<Rightarrow> (Inl e, st\<lparr>ru_world := w1\<rparr>)
        | (None, w1) \<Rightarrow> (Inr Recorder, did MetricsStarted (st\<lparr>ru_world := w1\<rparr>))))"

text \<open>From the prefixes to the running proxy; an error is what \<open>fail\<close> is called with.\<close>

definition start_probe :: "run_env \<Rightarrow> options \<Rightarrow> level \<Rightarrow> recorder \<Rightarrow> issuer_readiness list \<Rightarrow> run_state \<Rightarrow> err option \<times> run_state" where
  "start_probe re opts root r probes st =
     (let hs = WithMetrics (re_url_host re) r
            (probe_NewServer probes (ao_ReadinessRequireAllIssuers (op_App opts)) (Some root) (tele.truncate (ru_world st)));
          st1 = st\<lparr>ru_world := (ru_world st)\<lparr>t_met := t_met (snd hs)\<rparr>, ru_probe := Some hs\<rparr> in
      case probe_Start (join_host_port ''0.0.0.0'' (itoa (ao_ReadinessProbePort (op_App opts)))) (re_probeListen re) of
        Some e \<Rightarrow> (Some e, st1)
      | None \<Rightarrow> (None, did ProbeStarted st1))"

definition start_proxy :: "run_env \<Rightarrow> cmd \<Rightarrow> options \<Rightarrow> level \<Rightarrow> recorder \<Rightarrow> run_state \<Rightarrow> (err + proxy \<times> transports) \<times> run_state" where
  "start_proxy re c opts root r st = (case build_proxy re c opts root r (ru_world st) of
     (Inl e, w) \<Rightarrow> (Inl e, st\<lparr>ru_world := w\<rparr>)
   | (Inr (p, issuerURLs), w) \<Rightarrow>
       let w1 = logConfigLoaded (ForComponent root ComponentStartup) (fst (re_build re)) (configHash (re_sha256 re) (re_flags re))
             (length issuerURLs) (ReadinessMode (ao_ReadinessRequireAllIssuers (op_App opts))) w in
       case issuer_probes re issuerURLs [] of
         Inl e \<Rightarrow> (Inl e, st\<lparr>ru_world := w1\<rparr>)
       | Inr probes \<Rightarrow> (case start_probe re opts root r probes (st\<lparr>ru_world := w1\<rparr>) of
           (Some e, st1) \<Rightarrow> (Inl e, st1)
         | (None, st1) \<Rightarrow> (case proxy_Run re p (ru_world st1) of
             (Inl e, w2) \<Rightarrow> (Inl e, st1\<lparr>ru_world := w2\<rparr>)
           | (Inr pt, w2) \<Rightarrow> (Inr pt, did ProxyRunning (st1\<lparr>ru_world := w2\<rparr>)))))"

text \<open>\<open>drain\<close>, over any state.\<close>

definition app_drain ::
  "('s \<Rightarrow> 's) \<Rightarrow> ('s \<Rightarrow> err option \<times> 's) \<Rightarrow> ('s \<Rightarrow> err option \<times> 's) \<Rightarrow>
   ('s \<Rightarrow> err option \<times> 's) option \<Rightarrow> ('s \<Rightarrow> err option \<times> 's) option \<Rightarrow> 's \<Rightarrow> err option \<times> 's" where
  "app_drain stopProbe waitProbe runHooks stopMetrics waitMetrics s0 =
     (let s1 = stopProbe s0;
          (probeErr, s2) = waitProbe s1;
          (hooksErr, s3) = runHooks s2;
          (metricsErr, s4) = (case stopMetrics of Some f \<Rightarrow> f s3 | None \<Rightarrow> (None, s3));
          (metricsErr', s5) = (case waitMetrics of
             Some f \<Rightarrow> let (e, s) = f s4 in (join_errors [metricsErr, e], s)
           | None \<Rightarrow> (metricsErr, s4)) in
      (join_errors [probeErr, metricsErr', hooksErr], s5))"

definition wait_probe :: "run_env \<Rightarrow> level \<Rightarrow> run_state \<Rightarrow> err option \<times> run_state" where
  "wait_probe re root st = (let (e, w) = (case ru_probe st of
        Some (h, _) \<Rightarrow> probe_finish h (re_probeEnd re) (ru_world st) | None \<Rightarrow> (None, ru_world st)) in
     (e, did ProbeWaited (st\<lparr>ru_world := w\<rparr>)))"

definition run_hooks_step :: "run_env \<Rightarrow> proxy \<Rightarrow> run_state \<Rightarrow> err option \<times> run_state" where
  "run_hooks_step re p st = (let (e, w) = RunPreShutdownHooks (re_agg re) (p_hooks p) (ru_world st) in
     (e, did HooksRun (st\<lparr>ru_world := w\<rparr>)))"

definition wait_metrics :: "run_env \<Rightarrow> level \<Rightarrow> run_state \<Rightarrow> err option \<times> run_state" where
  "wait_metrics re root st = (let (e, w) = server_finish (ForComponent root ComponentMetrics) (re_metricsEnd re) (ru_world st) in
     (e, did MetricsWaited (st\<lparr>ru_world := w\<rparr>)))"

definition serve_and_drain :: "run_env \<Rightarrow> options \<Rightarrow> level \<Rightarrow> proxy \<Rightarrow> run_state \<Rightarrow> err option \<times> run_state" where
  "serve_and_drain re opts root p st0 =
     (let server = ForComponent root ComponentServer;
          since = t_now (ru_world st0);
          st1 = st0\<lparr>ru_world := Emit [] server EventProxyServerStarted
                  [(''address'', AStr (join_host_port (op_BindAddress opts) (itoa (op_BindPort opts))))] (ru_world st0)\<rparr>;
          st2 = did ServingSet (st1\<lparr>ru_probe := map_option (\<lambda>(h, s). (h, SetServing s)) (ru_probe st1)\<rparr>);
          w3 = re_served re (ru_world st2);
          st4 = st2\<lparr>ru_world := Emit [] server EventProxyServerStopped [(''duration_ms'', AInt (ms (t_now w3 - since)))] w3\<rparr>;
          shutdownSince = t_now (ru_world st4);
          metrics = metrics_Enabled opts;
          (drainErr, st5) = app_drain (did ProbeStopped) (wait_probe re root) (run_hooks_step re p)
            (if metrics then Some (\<lambda>s. (None, did MetricsStopped s)) else None)
            (if metrics then Some (wait_metrics re root) else None) st4;
          st6 = st5\<lparr>ru_world := Emit [] (ForComponent root ComponentShutdown) EventProxyShutdownCompleted
                  [(''duration_ms'', AInt (ms (t_now (ru_world st5) - shutdownSince)))] (ru_world st5)\<rparr> in
      (map_option (wrap_err ErrReported) drainErr, st6))"

definition fail :: "level \<Rightarrow> err \<Rightarrow> run_state \<Rightarrow> err option \<times> run_state" where
  "fail root e st = (Some (wrap_err ErrReported e),
     st\<lparr>ru_world := Emit [] (ForComponent root ComponentStartup) EventProxyStartupFailed [ErrAttr (Some e)] (ru_world st)\<rparr>)"

text \<open>The deferred stop of the metrics listener; after a drain the listener has been reported already.\<close>

definition defer_metrics :: "run_env \<Rightarrow> level \<Rightarrow> bool \<Rightarrow> run_state \<Rightarrow> run_state" where
  "defer_metrics re root drained st =
     (let st1 = did MetricsStopped st in if drained then did MetricsWaited st1 else snd (wait_metrics re root st1))"

definition run_logged :: "run_env \<Rightarrow> cmd \<Rightarrow> options \<Rightarrow> level \<Rightarrow> run_state \<Rightarrow> err option \<times> run_state" where
  "run_logged re c opts root st = (case start_metrics re opts root st of
     (Inl e, st1) \<Rightarrow> fail root e st1
   | (Inr r, st1) \<Rightarrow>
       let ((er, st3), drained) = (case start_proxy re c opts root r st1 of
             (Inl e, st2) \<Rightarrow> (fail root e st2, False)
           | (Inr (p, _), st2) \<Rightarrow> (serve_and_drain re opts root p st2, True)) in
       (er, if metrics_Enabled opts then defer_metrics re root drained st3 else st3))"

datatype run_result = ExitZero | Returned "err option"

definition RunE :: "run_env \<Rightarrow> cmd \<Rightarrow> options \<Rightarrow> run_state \<Rightarrow> run_result \<times> run_state" where
  "RunE re c opts st = (case Options_Validate (re_opt re) c opts of
     None \<Rightarrow> (ExitZero, st)
   | Some errs \<Rightarrow> (case (if length errs > 0 then re_agg re errs else None) of
       Some e \<Rightarrow> (Returned (Some e), st)
     | None \<Rightarrow> (case log_options_validate (op_Format opts) of
         Some e \<Rightarrow> (Returned (Some e), st)
       | None \<Rightarrow> (let (er, st1) = run_logged re c opts (LevelFor (Verbosity opts)) st in (Returned er, st1)))))"

text \<open>\<open>main\<close>: the line on standard error, and the exit status.\<close>

definition main :: "run_result \<Rightarrow> string option \<times> nat" where
  "main r = (case r of
     ExitZero \<Rightarrow> (None, 0)
   | Returned None \<Rightarrow> (None, 0)
   | Returned (Some e) \<Rightarrow> (if err_is e ErrReported then None else Some (''error: '' @ err_text e @ [nl]), 1))"

section \<open>What startup writes\<close>

text \<open>No \<open>proxy.startup.failed\<close> record in between.\<close>

definition unreported :: "'a tele_scheme \<Rightarrow> 'b tele_scheme \<Rightarrow> bool" where
  "unreported s s' = (records_of EventProxyStartupFailed (t_log s') = records_of EventProxyStartupFailed (t_log s))"

lemma unreported_refl [simp]: "unreported s s"
  by (simp add: unreported_def)

lemma unreported_trans: "unreported s s' \<Longrightarrow> unreported s' s'' \<Longrightarrow> unreported s s''"
  by (simp add: unreported_def)

lemma unreported_log: "t_log s' = t_log s \<Longrightarrow> unreported s s'"
  by (simp add: unreported_def)

lemma unreported_Emit: "e \<noteq> EventProxyStartupFailed \<Longrightarrow> unreported s s1 \<Longrightarrow> unreported s (Emit rid l e as s1)"
  by (simp add: unreported_def records_of_Emit)

lemma unreported_ops: "unreported s s1 \<Longrightarrow> unreported s (record_ops r ops s1)"
  by (simp add: unreported_def frame)

lemma unreported_fold:
  "e \<noteq> EventProxyStartupFailed \<Longrightarrow> unreported s s1 \<Longrightarrow> unreported s (fold (\<lambda>x. Emit rid l e (as x)) xs s1)"
  by (induction xs arbitrary: s1) (simp_all add: unreported_Emit)

lemmas unreported_intros = unreported_refl unreported_Emit unreported_ops unreported_fold

lemma unreported_buildTokenAuther: "unreported s (snd (buildTokenAuther uh ae opts l sl s))"
  by (auto simp: buildTokenAuther_def buildSingleAuther_def buildUnionAuther_def Let_def logIssuersConfigured_def
      intro!: unreported_intros split: sum.split option.split)

lemma unreported_build_proxy: "unreported s (snd (build_proxy re c opts root r s))"
proof -
  have c: "unreported s (new_caches re opts s)" by (rule unreported_log) (simp add: new_caches_def Let_def)
  have b: "unreported s s1" if "buildTokenAuther uh ae opts l sl (new_caches re opts s) = (x, s1)" for uh ae l sl x s1
    using unreported_trans [OF c unreported_buildTokenAuther, of uh ae opts l sl] that by simp
  show ?thesis
    by (auto simp: build_proxy_def split: option.split sum.split prod.split intro: b)
qed

lemma unreported_audit_Run: "unreported s (snd (audit_Run a s))"
  by (auto simp: audit_Run_def AuditBackendFailure_def intro!: unreported_intros split: option.split)

lemma unreported_proxy_Run: "unreported s (snd (proxy_Run re p s))"
proof -
  have a: "unreported s s1" if "audit_Run a s = (x, s1)" for a x s1 using unreported_audit_Run [of s a] that by simp
  have "unreported s (snd (proxy_serve re q s))" for q
    by (auto simp: proxy_serve_def Let_def split: prod.split option.split intro: a)
  then have "unreported s s1" if "proxy_serve re q s = (x, s1)" for q x s1 using that by (metis snd_conv)
  then show ?thesis
    by (auto simp: proxy_Run_def Let_def split: prod.split option.split sum.split intro: unreported_refl)
qed

lemma unreported_start_probe: "unreported (ru_world st) (ru_world (snd (start_probe re opts root r probes st)))"
  by (auto simp: start_probe_def Let_def did_def intro!: unreported_log split: option.split)

lemma unreported_start_metrics: "unreported (ru_world st) (ru_world (snd (start_metrics re opts root st)))"
  by (auto simp: start_metrics_def metrics_New_def server_Start_def did_def intro!: unreported_intros split: option.split sum.split prod.split)

lemma unreported_start_proxy: "unreported (ru_world st) (ru_world (snd (start_proxy re c opts root r st)))"
proof -
  obtain x w where b: "build_proxy re c opts root r (ru_world st) = (x, w)" by fastforce
  have w: "unreported (ru_world st) w" using unreported_build_proxy [of "ru_world st" re c opts root r] b by simp
  show ?thesis
  proof (cases x)
    case (Inl e)
    with b w show ?thesis by (simp add: start_proxy_def)
  next
    case (Inr pu)
    obtain p urls where pu: "pu = (p, urls)" by fastforce
    let ?w1 = "logConfigLoaded (ForComponent root ComponentStartup) (fst (re_build re)) (configHash (re_sha256 re) (re_flags re))
             (length urls) (ReadinessMode (ao_ReadinessRequireAllIssuers (op_App opts))) w"
    have w1: "unreported (ru_world st) ?w1" by (simp add: logConfigLoaded_def unreported_Emit w)
    show ?thesis
    proof (cases "issuer_probes re urls []")
      case (Inl e)
      with b w1 Inr pu show ?thesis by (simp add: start_proxy_def)
    next
      case (Inr probes)
      obtain y st1 where s: "start_probe re opts root r probes (st\<lparr>ru_world := ?w1\<rparr>) = (y, st1)" by fastforce
      have w2: "unreported (ru_world st) (ru_world st1)"
        using unreported_trans [OF w1] unreported_start_probe [of "st\<lparr>ru_world := ?w1\<rparr>" re opts root r probes] s by simp
      obtain z w3 where z: "proxy_Run re p (ru_world st1) = (z, w3)" by fastforce
      have w3: "unreported (ru_world st) w3" using unreported_trans [OF w2] unreported_proxy_Run [of "ru_world st1" re p] z by simp
      show ?thesis using b \<open>x = Inr pu\<close> pu Inr s z w2 w3
        by (auto simp: start_proxy_def Let_def did_def split: option.split sum.split)
    qed
  qed
qed

section \<open>The order of startup\<close>

lemma did_fields [simp]:
  "ru_trace (did a st) = ru_trace st @ [a]" "ru_world (did a st) = ru_world st" "ru_probe (did a st) = ru_probe st"
  by (simp_all add: did_def)

lemma start_metrics_trace:
  assumes "start_metrics re opts root st = (x, st1)"
  shows "ru_probe st1 = ru_probe st \<and>
    (case x of Inl _ \<Rightarrow> ru_trace st1 = ru_trace st \<and> metrics_Enabled opts
     | Inr r \<Rightarrow> ru_trace st1 = ru_trace st @ (if metrics_Enabled opts then [MetricsStarted] else []) \<and>
         r = (if metrics_Enabled opts then Recorder else NilRecorder))"
  using assms by (auto simp: start_metrics_def split: if_splits option.splits prod.splits)

text \<open>What a proxy that has been built and is running has passed.\<close>

definition started_with :: "run_env \<Rightarrow> cmd \<Rightarrow> options \<Rightarrow> recorder \<Rightarrow> proxy \<Rightarrow> transports \<Rightarrow> bool" where
  "started_with re c opts r p tr =
     (checkReservedIdentityPrefixes opts = None \<and>
      p_config p = (proxy_config opts)\<lparr>ExtraUserHeaders := cloneHeaderMap (eh_ExtraUserHeaders (ao_ExtraHeaderOptions (op_App opts)))\<rparr> \<and>
      p_metrics p = r \<and>
      parseTrustedProxies (ao_TrustedProxies (op_App opts)) = Inr (p_trustedProxies p) \<and>
      parseAllowedReservedGroups (ao_AllowedReservedGroups (op_App opts)) = Inr (p_allowedReservedGroups p) \<and>
      sar_timeout (p_subjectAccessReviewer p) = ao_SubjectAccessReviewTimeout (op_App opts) \<and>
      sar_maxHeaderValues (p_subjectAccessReviewer p) = ao_MaxImpersonationHeaderValues (op_App opts) \<and>
      tr_client tr \<and> (tr_noAuth tr \<longleftrightarrow> DisableImpersonation (p_config p) \<or> TokenReviewEnabled (p_config p)) \<and>
      ''AuditBackend'' \<in> fst ` set (h_entries (p_hooks p)))"

lemma proxy_New_fields:
  assumes "proxy_New deps = Inr p" "dep_Config deps = Some cfg" "dep_SubjectAccessReviewer deps = Some sr"
  shows "p_config p = cfg\<lparr>ExtraUserHeaders := cloneHeaderMap (ExtraUserHeaders cfg)\<rparr> \<and> p_metrics p = dep_Metrics deps \<and>
    parseTrustedProxies (TrustedProxies cfg) = Inr (p_trustedProxies p) \<and>
    parseAllowedReservedGroups (AllowedReservedGroups cfg) = Inr (p_allowedReservedGroups p) \<and> p_subjectAccessReviewer p = sr \<and>
    (\<exists>lg. p_hooks p = hooks_New lg)"
  using assms by (auto simp: proxy_New_def Let_def split: option.splits if_splits sum.splits)

lemma build_proxy_Inr:
  assumes "build_proxy re c opts root r s = (Inr (p, urls), s1)"
  shows "checkReservedIdentityPrefixes opts = None \<and>
    p_config p = (proxy_config opts)\<lparr>ExtraUserHeaders := cloneHeaderMap (eh_ExtraUserHeaders (ao_ExtraHeaderOptions (op_App opts)))\<rparr> \<and>
    p_metrics p = r \<and>
    parseTrustedProxies (ao_TrustedProxies (op_App opts)) = Inr (p_trustedProxies p) \<and>
    parseAllowedReservedGroups (ao_AllowedReservedGroups (op_App opts)) = Inr (p_allowedReservedGroups p) \<and>
    sar_timeout (p_subjectAccessReviewer p) = ao_SubjectAccessReviewTimeout (op_App opts) \<and>
    sar_maxHeaderValues (p_subjectAccessReviewer p) = ao_MaxImpersonationHeaderValues (op_App opts) \<and>
    (\<exists>lg. p_hooks p = hooks_New lg)"
proof -
  from assms obtain tokenReviewer sr where *: "checkReservedIdentityPrefixes opts = None"
    "sar_New (ao_SubjectAccessReviewTimeout (op_App opts)) (ao_MaxImpersonationHeaderValues (op_App opts))
       (Some (ForComponent root ComponentSAR)) = Inr sr"
    "proxy_New \<lparr>dep_Logger = Some root, dep_RestConfig = True, dep_TokenAuthenticator = True, dep_Audit = re_Audit re,
        dep_TokenReviewer = tokenReviewer, dep_SubjectAccessReviewer = Some (sr\<lparr>sar_metrics := r\<rparr>), dep_SecureServingInfo = True,
        dep_Config = Some (proxy_config opts), dep_Metrics = r\<rparr> = Inr p"
    by (auto simp: build_proxy_def split: option.splits sum.splits prod.splits)
  have sr: "sar_timeout sr = ao_SubjectAccessReviewTimeout (op_App opts)" "sar_maxHeaderValues sr = ao_MaxImpersonationHeaderValues (op_App opts)"
    using *(2) by (auto simp: sar_New_def split: if_splits)
  from proxy_New_fields [OF *(3), of "proxy_config opts" "sr\<lparr>sar_metrics := r\<rparr>"] sr *(1) show ?thesis by (simp add: proxy_config_def Let_def)
qed

lemma AddPreShutdownHook_name: "name \<in> fst ` set (h_entries (AddPreShutdownHook name hook (hooks_New lg)))"
  by (simp add: AddPreShutdownHook_def hooks_New_def)

lemma proxy_Run_Inr:
  assumes "proxy_Run re p s = (Inr (p1, tr), s1)"
  shows "p1 = p\<lparr>p_hooks := AddPreShutdownHook ''AuditBackend'' (audit_Shutdown (p_auditor p)) (p_hooks p)\<rparr> \<and>
    tr_client tr \<and> (tr_noAuth tr \<longleftrightarrow> DisableImpersonation (p_config p) \<or> TokenReviewEnabled (p_config p))"
  using assms by (auto simp: proxy_Run_def proxy_serve_def Let_def split: option.splits prod.splits sum.splits)

lemma start_probe_probe:
  assumes "start_probe re opts root r probes st = (x, st1)"
  shows "(\<exists>h hs. ru_probe st1 = Some (h, hs) \<and> \<not> hs_serving hs) \<and> ru_trace st1 = ru_trace st @ (if x = None then [ProbeStarted] else [])"
proof -
  let ?n = "probe_NewServer probes (ao_ReadinessRequireAllIssuers (op_App opts)) (Some root) (tele.truncate (ru_world st))"
  have f: "hs_serving (fold (\<lambda>i. SetIssuerInitialized r (g i) False) is s) = hs_serving s" for g "is" and s :: hc_state
    by (induction "is" arbitrary: s) simp_all
  have "\<exists>h hs. WithMetrics (re_url_host re) r ?n = (h, hs) \<and> \<not> hs_serving hs"
    by (simp add: WithMetrics_def probe_NewServer_def f)
  with assms show ?thesis by (auto simp: start_probe_def Let_def split: option.splits)
qed

lemma start_proxy_result:
  assumes "start_proxy re c opts root r st = (x, st1)" "ru_probe st = None"
  shows "(\<forall>h hs. ru_probe st1 = Some (h, hs) \<longrightarrow> \<not> hs_serving hs) \<and>
    (case x of
       Inl e \<Rightarrow> ru_trace st1 = ru_trace st \<or> ru_trace st1 = ru_trace st @ [ProbeStarted]
     | Inr (p, tr) \<Rightarrow> ru_trace st1 = ru_trace st @ [ProbeStarted, ProxyRunning] \<and> started_with re c opts r p tr \<and>
         (\<exists>h hs. ru_probe st1 = Some (h, hs)))"
proof -
  obtain y w where b: "build_proxy re c opts root r (ru_world st) = (y, w)" by fastforce
  show ?thesis
  proof (cases y)
    case (Inl e)
    with b assms show ?thesis by (auto simp: start_proxy_def)
  next
    case (Inr pu)
    obtain p urls where pu: "pu = (p, urls)" by fastforce
    let ?w1 = "logConfigLoaded (ForComponent root ComponentStartup) (fst (re_build re)) (configHash (re_sha256 re) (re_flags re))
             (length urls) (ReadinessMode (ao_ReadinessRequireAllIssuers (op_App opts))) w"
    show ?thesis
    proof (cases "issuer_probes re urls []")
      case (Inl e)
      with b Inr pu assms show ?thesis by (auto simp: start_proxy_def Let_def)
    next
      case i: (Inr probes)
      obtain z st2 where s: "start_probe re opts root r probes (st\<lparr>ru_world := ?w1\<rparr>) = (z, st2)" by fastforce
      note sp = start_probe_probe [OF s]
      show ?thesis
      proof (cases z)
        case (Some e)
        with sp b Inr pu i s assms show ?thesis by (auto simp: start_proxy_def Let_def)
      next
        case None
        obtain q w3 where q: "proxy_Run re p (ru_world st2) = (q, w3)" by fastforce
        show ?thesis
        proof (cases q)
          case (Inl e)
          with None sp b Inr pu i s q assms show ?thesis by (auto simp: start_proxy_def Let_def)
        next
          case q': (Inr pt)
          obtain p1 tr where pt: "pt = (p1, tr)" by fastforce
          have "proxy_Run re p (ru_world st2) = (Inr (p1, tr), w3)" using q q' pt by simp
          note r = proxy_Run_Inr [OF this]
          have "build_proxy re c opts root r (ru_world st) = (Inr (p, urls), w)" using b Inr pu by simp
          note bp = build_proxy_Inr [OF this]
          then obtain lg where lg: "p_hooks p = hooks_New lg" by blast
          have "started_with re c opts r p1 tr"
            using bp r AddPreShutdownHook_name [of "''AuditBackend''" "audit_Shutdown (p_auditor p)" lg] by (simp add: started_with_def lg)
          with None sp b Inr pu i s q q' pt assms show ?thesis by (auto simp: start_proxy_def Let_def)
        qed
      qed
    qed
  qed
qed

section \<open>The drain\<close>

lemma drain_result:
  assumes "waitProbe (stopProbe s0) = (pe, s2)" "runHooks s2 = (he, s3)"
    and "(case stopMetrics of Some f \<Rightarrow> f s3 | None \<Rightarrow> (None, s3)) = (se, s4)"
    and "(case waitMetrics of Some f \<Rightarrow> f s4 | None \<Rightarrow> (None, s4)) = (we, s5)"
  shows "\<exists>er. app_drain stopProbe waitProbe runHooks stopMetrics waitMetrics s0 = (er, s5) \<and>
    (er = None \<longleftrightarrow> pe = None \<and> he = None \<and> se = None \<and> we = None) \<and>
    (\<forall>e t. er = Some e \<longrightarrow> (err_is e t \<longleftrightarrow> (\<exists>x. Some x \<in> {pe, he, se, we} \<and> err_is x t)))"
proof (cases waitMetrics)
  case None
  with assms have we: "we = None" "s5 = s4" by simp_all
  have n: "join_errors [pe, se, he] = None \<longleftrightarrow> pe = None \<and> he = None \<and> se = None" by (auto simp: join_errors_None)
  have "err_is e t \<longleftrightarrow> (\<exists>x. Some x \<in> {pe, he, se, we} \<and> err_is x t)" if "join_errors [pe, se, he] = Some e" for e t
    using join_errors_is [OF that, of t] we(1) by auto
  with n assms None we show ?thesis by (simp add: app_drain_def Let_def)
next
  case (Some f)
  have n: "join_errors [pe, join_errors [se, we], he] = None \<longleftrightarrow> pe = None \<and> he = None \<and> se = None \<and> we = None"
    by (auto simp: join_errors_None)
  have "err_is e t \<longleftrightarrow> (\<exists>x. Some x \<in> {pe, he, se, we} \<and> err_is x t)"
    if e: "join_errors [pe, join_errors [se, we], he] = Some e" for e t
  proof -
    have m: "(\<exists>x. join_errors [se, we] = Some x \<and> err_is x t) \<longleftrightarrow> (\<exists>x. Some x \<in> {se, we} \<and> err_is x t)"
    proof (cases "join_errors [se, we]")
      case None
      then have "se = None" "we = None" by (simp_all add: join_errors_None)
      with None show ?thesis by simp
    next
      case (Some x)
      with join_errors_is [OF Some, of t] show ?thesis by auto
    qed
    have "err_is e t \<longleftrightarrow> (\<exists>x. Some x \<in> {pe, join_errors [se, we], he} \<and> err_is x t)" using join_errors_is [OF e] by simp
    with m show ?thesis by (auto simp: eq_commute)
  qed
  with n assms Some show ?thesis by (auto simp: app_drain_def Let_def)
qed

text \<open>
  C23. Every shutdown step runs and every failure reaches the exit status. Whatever the steps report, \<open>drain\<close>
  stops and waits for the readiness listener, then runs the pre-shutdown hooks, then stops and waits for the
  metrics listener when there is one; it returns nil precisely when all of them did, and otherwise an error that
  is each of the causes to \<open>errors.Is\<close>.
\<close>

theorem drain_collects_every_failure:
  assumes "waitProbe (stopProbe s0) = (pe, s2)" "runHooks s2 = (he, s3)"
    and "(case stopMetrics of Some f \<Rightarrow> f s3 | None \<Rightarrow> (None, s3)) = (se, s4)"
    and "(case waitMetrics of Some f \<Rightarrow> f s4 | None \<Rightarrow> (None, s4)) = (we, s5)"
  shows "\<exists>er. app_drain stopProbe waitProbe runHooks stopMetrics waitMetrics s0 = (er, s5) \<and>
    (er = None \<longleftrightarrow> pe = None \<and> he = None \<and> se = None \<and> we = None) \<and>
    (\<forall>e t. er = Some e \<longrightarrow> (err_is e t \<longleftrightarrow> (\<exists>x. Some x \<in> {pe, he, se, we} \<and> err_is x t)))"
  by (rule drain_result) (fact assms)+

theorem drain_collects_every_failure_witness:
  "\<exists>e. app_drain (\<lambda>s. s @ [1]) (\<lambda>s. (Some (Sentinel ErrDeadlineExceeded), s @ [2])) (\<lambda>s. (Some (Sentinel ErrEOF), s @ [3])) None None [0 :: nat] =
     (Some e, [0, 1, 2, 3]) \<and> err_is e ErrDeadlineExceeded \<and> err_is e ErrEOF"
  using drain_collects_every_failure [of "\<lambda>s. (Some (Sentinel ErrDeadlineExceeded), s @ [2])" "\<lambda>s. s @ [1]" "[0]"
      "Some (Sentinel ErrDeadlineExceeded)" "[0, 1, 2 :: nat]" "\<lambda>s. (Some (Sentinel ErrEOF), s @ [3])" "Some (Sentinel ErrEOF)" "[0, 1, 2, 3]"
      None None "[0, 1, 2, 3]" None None "[0, 1, 2, 3]"]
  by fastforce

section \<open>The whole run\<close>

abbreviation if_metrics :: "options \<Rightarrow> app_step list \<Rightarrow> app_step list" where
  "if_metrics opts xs \<equiv> (if metrics_Enabled opts then xs else [])"

lemma wait_trace [simp]:
  "ru_trace (snd (wait_probe re root st)) = ru_trace st @ [ProbeWaited]"
  "ru_trace (snd (run_hooks_step re p st)) = ru_trace st @ [HooksRun]"
  "ru_trace (snd (wait_metrics re root st)) = ru_trace st @ [MetricsWaited]"
  "ru_probe (snd (wait_probe re root st)) = ru_probe st"
  "ru_probe (snd (run_hooks_step re p st)) = ru_probe st"
  "ru_probe (snd (wait_metrics re root st)) = ru_probe st"
  by (simp_all add: wait_probe_def run_hooks_step_def wait_metrics_def split: prod.split)

lemma serve_and_drain_result:
  assumes "serve_and_drain re opts root p st = (er, st')"
  shows "ru_trace st' = ru_trace st @ [ServingSet, ProbeStopped, ProbeWaited, HooksRun] @ if_metrics opts [MetricsStopped, MetricsWaited] \<and>
    ru_probe st' = map_option (\<lambda>(h, s). (h, SetServing s)) (ru_probe st) \<and>
    (\<exists>cause. er = map_option (wrap_err ErrReported) cause)"
proof -
  let ?sm = "if metrics_Enabled opts then Some (\<lambda>s. (None :: err option, did MetricsStopped s)) else None"
    and ?wm = "if metrics_Enabled opts then Some (wait_metrics re root) else None"
  have d: "ru_trace s' = ru_trace s @ [ProbeStopped, ProbeWaited, HooksRun] @ if_metrics opts [MetricsStopped, MetricsWaited] \<and>
      ru_probe s' = ru_probe s"
    if e: "app_drain (did ProbeStopped) (wait_probe re root) (run_hooks_step re p) ?sm ?wm s = (x, s')" for s x s'
  proof -
    obtain pe s2 where 1: "wait_probe re root (did ProbeStopped s) = (pe, s2)" by fastforce
    obtain he s3 where 2: "run_hooks_step re p s2 = (he, s3)" by fastforce
    obtain se s4 where 3: "(case ?sm of Some f \<Rightarrow> f s3 | None \<Rightarrow> (None, s3)) = (se, s4)" by fastforce
    obtain we s5 where 4: "(case ?wm of Some f \<Rightarrow> f s4 | None \<Rightarrow> (None, s4)) = (we, s5)" by fastforce
    have "s' = s5" using drain_result [of "wait_probe re root" "did ProbeStopped" s pe s2 "run_hooks_step re p" he s3 ?sm se s4 ?wm we s5, OF 1 2 3 4] e by auto
    moreover have "ru_trace s2 = ru_trace s @ [ProbeStopped, ProbeWaited]" "ru_probe s2 = ru_probe s"
      using arg_cong [OF 1, of snd] wait_trace(1,4) [of re root "did ProbeStopped s"] by (simp_all del: wait_trace)
    moreover have "ru_trace s3 = ru_trace s2 @ [HooksRun]" "ru_probe s3 = ru_probe s2" using arg_cong [OF 2, of snd] wait_trace(2,5) [of re p s2] by (simp_all del: wait_trace)
    moreover have "ru_trace s4 = ru_trace s3 @ if_metrics opts [MetricsStopped]" "ru_probe s4 = ru_probe s3" using 3 by (auto split: if_splits)
    moreover have "ru_trace s5 = ru_trace s4 @ if_metrics opts [MetricsWaited]" "ru_probe s5 = ru_probe s4"
    proof -
      have "s5 = (if metrics_Enabled opts then snd (wait_metrics re root s4) else s4)" using 4 by (auto split: if_splits)
      then show "ru_trace s5 = ru_trace s4 @ if_metrics opts [MetricsWaited]" "ru_probe s5 = ru_probe s4" by simp_all
    qed
    ultimately show ?thesis by simp
  qed
  show ?thesis using assms by (auto simp: serve_and_drain_def Let_def split: prod.splits dest!: d)
qed

text \<open>The one record of a failed startup.\<close>

definition reported_failure :: "level \<Rightarrow> err \<Rightarrow> 'a tele_scheme \<Rightarrow> 'b tele_scheme \<Rightarrow> bool" where
  "reported_failure root e s s' = (records_of EventProxyStartupFailed (t_log s') = records_of EventProxyStartupFailed (t_log s) @
     [\<lparr>lr_level = LevelError, lr_msg = Message (spec_or_zero EventProxyStartupFailed), lr_component = ComponentStartup,
       lr_attrs = [(''event_type'', AStr ''proxy.startup.failed''), ErrAttr (Some e)]\<rparr>])"

lemma startup_failed_spec:
  "Level (spec_or_zero EventProxyStartupFailed) = LevelError" "''request_id'' \<notin> set (Required (spec_or_zero EventProxyStartupFailed))"
  by code_simp+

lemma emitted_startup_failed:
  "root \<le> LevelError \<Longrightarrow> emitted [] (ForComponent root ComponentStartup) EventProxyStartupFailed as =
     [\<lparr>lr_level = LevelError, lr_msg = Message (spec_or_zero EventProxyStartupFailed), lr_component = ComponentStartup,
       lr_attrs = (''event_type'', AStr ''proxy.startup.failed'') # as\<rparr>]"
  using startup_failed_spec by (simp add: emitted_def emits_def withContextRequestID_def)

lemma fail_reports:
  assumes "unreported s (ru_world st)" "root \<le> LevelError"
  shows "\<exists>st'. fail root e st = (Some (wrap_err ErrReported e), st') \<and> ru_trace st' = ru_trace st \<and> ru_probe st' = ru_probe st \<and>
    reported_failure root e s (ru_world st')"
  using assms by (simp add: fail_def reported_failure_def unreported_def records_of_Emit t_log_emitted emitted_startup_failed)
     (simp add: records_of_def)

lemma reported_failure_later: "reported_failure root e s s' \<Longrightarrow> unreported s' s'' \<Longrightarrow> reported_failure root e s s''"
  by (simp add: reported_failure_def unreported_def)

lemma defer_metrics_fields:
  "ru_trace (defer_metrics re root drained st) = ru_trace st @ [MetricsStopped, MetricsWaited]"
  "ru_probe (defer_metrics re root drained st) = ru_probe st"
  "unreported (ru_world st) (ru_world (defer_metrics re root drained st))"
  by (auto simp: defer_metrics_def Let_def wait_metrics_def server_finish_def intro!: unreported_intros split: prod.split)

text \<open>A startup that failed: reported once, nothing advertised, and the metrics listener, if it was up, stopped and waited for.\<close>

definition failed_start :: "options \<Rightarrow> level \<Rightarrow> err \<Rightarrow> run_state \<Rightarrow> run_state \<Rightarrow> bool" where
  "failed_start opts root e st st' =
     (reported_failure root e (ru_world st) (ru_world st') \<and>
      (\<forall>h hs. ru_probe st' = Some (h, hs) \<longrightarrow> \<not> hs_serving hs) \<and>
      (ru_trace st' = [] \<or>
       (\<exists>probe \<in> {[], [ProbeStarted]}. ru_trace st' = if_metrics opts [MetricsStarted] @ probe @ if_metrics opts [MetricsStopped, MetricsWaited])))"

text \<open>A run that served: the listeners came up in order, readiness was allowed last, and everything was taken down again.\<close>

definition served_run :: "run_env \<Rightarrow> cmd \<Rightarrow> options \<Rightarrow> run_state \<Rightarrow> bool" where
  "served_run re c opts st' =
     (ru_trace st' = if_metrics opts [MetricsStarted] @ [ProbeStarted, ProxyRunning, ServingSet] @
        [ProbeStopped, ProbeWaited, HooksRun] @ if_metrics opts [MetricsStopped, MetricsWaited, MetricsStopped, MetricsWaited] \<and>
      (\<exists>h hs. ru_probe st' = Some (h, hs) \<and> hs_serving hs) \<and>
      (\<exists>p tr. started_with re c opts (if metrics_Enabled opts then Recorder else NilRecorder) p tr))"

lemma run_logged_result:
  assumes "run_logged re c opts root st = (er, st')" "ru_trace st = []" "ru_probe st = None" "root \<le> LevelError"
  shows "(\<exists>e. er = Some (wrap_err ErrReported e) \<and> failed_start opts root e st st') \<or>
    ((\<exists>cause. er = map_option (wrap_err ErrReported) cause) \<and> served_run re c opts st')"
proof -
  obtain x st1 where m: "start_metrics re opts root st = (x, st1)" by fastforce
  note mt = start_metrics_trace [OF m]
  have u1: "unreported (ru_world st) (ru_world st1)" using unreported_start_metrics [of st re opts root] m by simp
  show ?thesis
  proof (cases x)
    case (Inl e)
    obtain st2 where f: "fail root e st1 = (Some (wrap_err ErrReported e), st2)" "ru_trace st2 = ru_trace st1" "ru_probe st2 = ru_probe st1"
      "reported_failure root e (ru_world st) (ru_world st2)" using fail_reports [OF u1 assms(4)] by blast
    with assms m Inl mt show ?thesis by (simp add: run_logged_def failed_start_def) blast
  next
    case (Inr r)
    with mt assms have t1: "ru_trace st1 = if_metrics opts [MetricsStarted]" "ru_probe st1 = None"
      "r = (if metrics_Enabled opts then Recorder else NilRecorder)" by simp_all
    obtain y st2 where y: "start_proxy re c opts root r st1 = (y, st2)" by fastforce
    note sp = start_proxy_result [OF y t1(2)]
    have u2: "unreported (ru_world st) (ru_world st2)"
      using unreported_trans [OF u1 unreported_start_proxy, of re c opts root r] y by simp
    show ?thesis
    proof (cases y)
      case (Inl e)
      obtain st3 where f: "fail root e st2 = (Some (wrap_err ErrReported e), st3)" "ru_trace st3 = ru_trace st2" "ru_probe st3 = ru_probe st2"
        "reported_failure root e (ru_world st) (ru_world st3)" using fail_reports [OF u2 assms(4)] by blast
      have s': "st' = (if metrics_Enabled opts then defer_metrics re root False st3 else st3)" "er = Some (wrap_err ErrReported e)"
        using assms(1) m y Inl \<open>x = Inr r\<close> f(1) by (simp_all add: run_logged_def)
      have "reported_failure root e (ru_world st) (ru_world st')"
        using f(4) defer_metrics_fields(3) reported_failure_later by (simp add: s'(1)) blast
      moreover have "\<exists>probe \<in> {[], [ProbeStarted]}. ru_trace st' = if_metrics opts [MetricsStarted] @ probe @ if_metrics opts [MetricsStopped, MetricsWaited]"
        using sp Inl f(2) t1(1) by (auto simp: s'(1) defer_metrics_fields)
      moreover have "\<forall>h hs. ru_probe st' = Some (h, hs) \<longrightarrow> \<not> hs_serving hs"
        using sp f(3) by (simp add: s'(1) defer_metrics_fields)
      ultimately show ?thesis using s'(2) by (simp only: failed_start_def) blast
    next
      case pt: (Inr pt)
      obtain p tr where "pt = (p, tr)" by fastforce
      note pt = pt this
      obtain er' st3 where d: "serve_and_drain re opts root p st2 = (er', st3)" by fastforce
      note sd = serve_and_drain_result [OF d]
      have s': "st' = (if metrics_Enabled opts then defer_metrics re root True st3 else st3)" "er = er'"
        using assms(1) m y Inr pt d by (simp_all add: run_logged_def)
      have a: "started_with re c opts (if metrics_Enabled opts then Recorder else NilRecorder) p tr" using sp pt t1(3) by simp
      have "(\<exists>h hs. ru_probe st' = Some (h, hs) \<and> hs_serving hs) \<and> ru_trace st' = if_metrics opts [MetricsStarted] @ [ProbeStarted, ProxyRunning, ServingSet] @
        [ProbeStopped, ProbeWaited, HooksRun] @ if_metrics opts [MetricsStopped, MetricsWaited, MetricsStopped, MetricsWaited]"
        using sd sp pt t1 by (auto simp: s'(1) defer_metrics_fields SetServing_def)
      moreover have "\<exists>p tr. started_with re c opts (if metrics_Enabled opts then Recorder else NilRecorder) p tr"
        by (rule exI [of _ p], rule exI [of _ tr], rule a)
      ultimately have "served_run re c opts st'" by (simp only: served_run_def simp_thms)
      with sd s'(2) show ?thesis by blast
    qed
  qed
qed

lemma LevelFor_le: "LevelFor v \<le> LevelError"
  by (simp add: LevelFor_def)



section \<open>Two runs\<close>

definition quiet_auditor :: auditor where
  "quiet_auditor = \<lparr>au_logger = Discard, au_metrics = NilRecorder, au_AuditBackend = None,
     au_BasicLongRunningRequestCheck = (\<lambda>_ _ _ _. False), au_RequestInfoFilter = (\<lambda>h. h), au_WithAudit = (\<lambda>h. h),
     au_WithAuditInit = (\<lambda>h. h), au_WithFailedAuthenticationAudit = (\<lambda>h. h)\<rparr>"

definition demo_run_env :: run_env where
  "demo_run_env = \<lparr>re_opt = demo_opt_env, re_agg = (\<lambda>es. if es = [] then None else Some (Errorf [] es)), re_flags = [],
     re_sha256 = (\<lambda>_. []), re_build = ([], [], []), re_url_host = (\<lambda>_. None), re_auth = demo_auth_env, re_Register = None,
     re_metricsListen = Inr [], re_RESTConfig = (\<lambda>_. None), re_NewForConfig = None, re_tr_env = demo_env,
     re_tr_lru = (\<lambda>_ _ _. None), re_sar_lru = (\<lambda>_ _ _. None), re_ApplyTo = None, re_Audit = Inr quiet_auditor,
     re_FakeJWT = (\<lambda>_. Inr []), re_probeListen = None, re_TransportFor = (\<lambda>_. None), re_ParseHost = None, re_Serve = None,
     re_served = (\<lambda>w. w), re_probeEnd = ContextDone None None None, re_metricsEnd = ContextDone None None None\<rparr>"

definition demo_run_state :: run_state where
  "demo_run_state = \<lparr>ru_world = demo_world, ru_probe = None, ru_trace = []\<rparr>"

definition reserved_options :: options where
  "reserved_options = options_New\<lparr>op_OIDCAuthentication := NewOIDCAuthenticationOptions\<lparr>oo_UsernamePrefix := ''system:''\<rparr>\<rparr>"

lemma plain_options_valid:
  assumes "opts = options_New \<or> opts = reserved_options"
  shows "Options_Validate demo_opt_env demo_cmd opts = Some []"
proof -
  have "app_ok (op_App options_New)" by code_simp
  then have "options_ok demo_opt_env demo_cmd opts"
    using assms by (auto simp: options_ok_def oidc_ok_def reserved_options_def options_New_def NewOIDCAuthenticationOptions_def
        demo_opt_env_def NewKubeOIDCProxyOptions_def)
  then show ?thesis by (simp add: Options_Validate_Nil demo_cmd_def)
qed

lemma demo_run_env_fields [simp]:
  "re_opt demo_run_env = demo_opt_env" "re_agg demo_run_env [] = None" "aggregates (re_agg demo_run_env)"
  by (auto simp: demo_run_env_def aggregates_def list_ex_iff)

lemma demo_run_env_answers [simp]:
  "re_url_host demo_run_env = (\<lambda>_. None)" "re_auth demo_run_env = demo_auth_env" "re_RESTConfig demo_run_env b = None"
  "re_NewForConfig demo_run_env = None" "re_ApplyTo demo_run_env = None" "re_Audit demo_run_env = Inr quiet_auditor"
  "re_FakeJWT demo_run_env u = Inr []" "re_probeListen demo_run_env = None" "re_TransportFor demo_run_env b = None"
  "re_ParseHost demo_run_env = None" "re_Serve demo_run_env = None" "re_probeEnd demo_run_env = ContextDone None None None"
  by (simp_all add: demo_run_env_def)

lemma reserved_run:
  "\<exists>e st'. RunE demo_run_env demo_cmd reserved_options demo_run_state = (Returned (Some (wrap_err ErrReported e)), st') \<and> ru_trace st' = []"
proof -
  have v: "Options_Validate demo_opt_env demo_cmd reserved_options = Some []" by (rule plain_options_valid) simp
  have f: "log_options_validate (op_Format reserved_options) = None" "\<not> metrics_Enabled reserved_options"
    by (simp_all add: log_options_validate_def reserved_options_def options_New_def metrics_Enabled_def)
  obtain e where "checkReservedIdentityPrefixes reserved_options = Some e"
    by (simp add: checkReservedIdentityPrefixes_def reserved_options_def options_New_def reservedPrefix_def has_prefix_def)
  with v f show ?thesis
    by (auto simp: RunE_def run_logged_def start_metrics_def start_proxy_def build_proxy_def fail_def demo_run_state_def)
qed


lemma default_app_fields [simp]:
  "tp_Enabled (ao_TokenPassthrough (op_App options_New)) = False" "ao_TrustedProxies (op_App options_New) = []"
  "ao_AllowedReservedGroups (op_App options_New) = []" "op_ConfigFile options_New = []"
  by (simp_all add: options_New_def NewKubeOIDCProxyOptions_def token_passthrough_AddFlags_def)

lemma proxy_New_default:
  "\<exists>p lg. proxy_New \<lparr>dep_Logger = Some root, dep_RestConfig = True, dep_TokenAuthenticator = True, dep_Audit = Inr quiet_auditor,
        dep_TokenReviewer = None, dep_SubjectAccessReviewer = Some sr, dep_SecureServingInfo = True,
        dep_Config = Some (proxy_config options_New), dep_Metrics = NilRecorder\<rparr> = Inr p \<and>
     au_AuditBackend (p_auditor p) = None \<and> p_hooks p = hooks_New lg"
proof -
  have q: "parseTrustedProxies [] = Inr []" by (simp add: parseTrustedProxies_def)
  obtain x where x: "parseAllowedReservedGroups [] = Inr x" by (simp add: parseAllowedReservedGroups_def)
  have c: "TokenReviewEnabled (proxy_config options_New) = False" "TrustedProxies (proxy_config options_New) = []"
    "AllowedReservedGroups (proxy_config options_New) = []" by (simp_all add: proxy_config_def Let_def)
  show ?thesis by (auto simp: proxy_New_def c q x Let_def audit_New_def audit_WithMetrics_def quiet_auditor_def)
qed

lemma demo_build:
  "\<exists>p w lg. build_proxy demo_run_env demo_cmd options_New root NilRecorder s = (Inr (p, [[]]), w) \<and>
     au_AuditBackend (p_auditor p) = None \<and> p_hooks p = hooks_New lg"
proof -
  have c: "checkReservedIdentityPrefixes options_New = None" "token_reviewer demo_run_env options_New root NilRecorder = Inr None"
    by (simp_all add: checkReservedIdentityPrefixes_def token_reviewer_def options_New_def NewOIDCAuthenticationOptions_def
        NewKubeOIDCProxyOptions_def token_passthrough_AddFlags_def reservedPrefix_def has_prefix_def)
  obtain sr where s: "sar_New (ao_SubjectAccessReviewTimeout (op_App options_New)) (ao_MaxImpersonationHeaderValues (op_App options_New))
      (Some (ForComponent root ComponentSAR)) = Inr sr"
    by (simp add: sar_New_def options_New_def NewKubeOIDCProxyOptions_def DefaultMaxHeaderValues_def)
  obtain authers w where b: "buildTokenAuther (\<lambda>_. None) demo_auth_env options_New (ForComponent root ComponentOIDC)
      (Some (ForComponent root ComponentStartup)) (new_caches demo_run_env options_New s) = (Inr (authers, [[]]), w)"
    by (simp add: buildTokenAuther_def buildSingleAuther_def oidcHTTPClient_def options_New_def NewOIDCAuthenticationOptions_def demo_auth_env_def)
  from proxy_New_default [of root "sr\<lparr>sar_metrics := NilRecorder\<rparr>"] c s b show ?thesis by (auto simp: build_proxy_def)
qed

lemma demo_Run:
  assumes "au_AuditBackend (p_auditor p) = None"
  shows "proxy_Run demo_run_env p s =
    (Inr (p\<lparr>p_hooks := AddPreShutdownHook ''AuditBackend'' (audit_Shutdown (p_auditor p)) (p_hooks p)\<rparr>,
       \<lparr>tr_client = True, tr_noAuth = (DisableImpersonation (p_config p) \<or> TokenReviewEnabled (p_config p))\<rparr>), s)"
  using assms by (simp add: proxy_Run_def proxy_serve_def roundTripperForRestConfig_def audit_Run_def Let_def)

lemma demo_hooks_clean:
  assumes "au_AuditBackend a = None"
  shows "fst (RunPreShutdownHooks (re_agg demo_run_env) (AddPreShutdownHook ''AuditBackend'' (audit_Shutdown a) (hooks_New lg)) s) = None"
  using assms by (simp add: RunPreShutdownHooks_def AddPreShutdownHook_def hooks_New_def audit_Shutdown_def)

lemma default_start:
  obtains p tr st lg where "start_proxy demo_run_env demo_cmd options_New root NilRecorder demo_run_state =
      (Inr (p\<lparr>p_hooks := AddPreShutdownHook ''AuditBackend'' (audit_Shutdown (p_auditor p)) (p_hooks p)\<rparr>, tr), st)"
    "au_AuditBackend (p_auditor p) = None" "p_hooks p = hooks_New lg"
proof -
  obtain p w lg where b: "build_proxy demo_run_env demo_cmd options_New root NilRecorder (ru_world demo_run_state) = (Inr (p, [[]]), w)"
    "au_AuditBackend (p_auditor p) = None" "p_hooks p = hooks_New lg" using demo_build by blast
  then show thesis
    by (intro that [of p _ _ lg]) (simp_all add: start_proxy_def start_probe_def probe_Start_def Let_def demo_Run [OF b(2)])
qed

lemma default_run:
  "\<exists>st'. RunE demo_run_env demo_cmd options_New demo_run_state = (Returned None, st') \<and> ServingSet \<in> set (ru_trace st')"
proof -
  have v: "Options_Validate demo_opt_env demo_cmd options_New = Some []" by (rule plain_options_valid) simp
  have f: "log_options_validate (op_Format options_New) = None" "\<not> metrics_Enabled options_New"
    by (simp_all add: log_options_validate_def options_New_def metrics_Enabled_def)
  let ?root = "LevelFor (Verbosity options_New)"
  obtain p tr st2 lg where s: "start_proxy demo_run_env demo_cmd options_New ?root NilRecorder demo_run_state =
      (Inr (p\<lparr>p_hooks := AddPreShutdownHook ''AuditBackend'' (audit_Shutdown (p_auditor p)) (p_hooks p)\<rparr>, tr), st2)"
    and b: "au_AuditBackend (p_auditor p) = None" "p_hooks p = hooks_New lg" by (rule default_start)
  let ?p = "p\<lparr>p_hooks := AddPreShutdownHook ''AuditBackend'' (audit_Shutdown (p_auditor p)) (p_hooks p)\<rparr>"
  have pe: "fst (wait_probe demo_run_env ?root st) = None" for st
    by (simp add: wait_probe_def probe_finish_def server_terminal_error_def join_errors_def List.map_filter_def split: option.split)
  have he: "fst (run_hooks_step demo_run_env ?p st) = None" for st
    using demo_hooks_clean [OF b(1), of lg "ru_world st"] by (auto simp: run_hooks_step_def b(2) split: prod.split)
  have d: "fst (app_drain (did ProbeStopped) (wait_probe demo_run_env ?root) (run_hooks_step demo_run_env ?p) None None st) = None" for st
    using pe [of "did ProbeStopped st"] he [of "snd (wait_probe demo_run_env ?root (did ProbeStopped st))"]
    by (auto simp: app_drain_def Let_def join_errors_None split: prod.splits)
  obtain er st3 where sd: "serve_and_drain demo_run_env options_New ?root ?p st2 = (er, st3)" by fastforce
  have d': "x = None" if "app_drain (did ProbeStopped) (wait_probe demo_run_env ?root) (run_hooks_step demo_run_env ?p) None None st = (x, y)" for st x y
    using arg_cong [OF that, of fst] d [of st] by simp
  have "er = None" using sd f(2) by (auto simp: serve_and_drain_def Let_def split: prod.splits dest!: d')
  moreover have "ServingSet \<in> set (ru_trace st3)" using serve_and_drain_result [OF sd] by simp
  ultimately show ?thesis using v f s sd by (simp add: RunE_def run_logged_def start_metrics_def)
qed


end
