(* ===== verification/Lifetime.thy ===== *)
theory Lifetime
  imports Traffic App
begin

text \<open>
  From the command to the traffic: a startup that succeeds leaves a proxy and a state that the theorems
  about traffic start from. What remains to be relied on is only the outside: the audit filters are
  transparent, the stores honour expiry, and the authenticators leave the other headers alone.
\<close>

section \<open>What startup does to the caches\<close>

text \<open>Both caches are empty, with the lifetimes configured, over stores that honour expiry.\<close>

definition fresh_caches :: "int \<Rightarrow> int \<Rightarrow> world \<Rightarrow> bool" where
  "fresh_caches allowTTL successTTL w =
     ((\<exists>lru denyTTL. lru_sound lru \<and> sar_cache w = newDecisionCache lru allowTTL denyTTL) \<and>
      (\<exists>lru failureTTL. lru_sound lru \<and> tr_store w = newTokenCache lru successTTL failureTTL))"

lemma reviews_fold_Emit [simp]: "reviews (fold (\<lambda>x. Emit rid l e (as x)) xs s) = reviews s"
  by (induction xs arbitrary: s) simp_all

lemma reviews_buildTokenAuther: "reviews (snd (buildTokenAuther uh ae opts l sl s)) = reviews s"
  by (auto simp: buildTokenAuther_def buildSingleAuther_def buildUnionAuther_def Let_def logIssuersConfigured_def
      split: sum.split option.split)

lemma reviews_audit_Run: "reviews (snd (audit_Run a s)) = reviews s"
  by (simp add: audit_Run_def AuditBackendFailure_def split: option.split)

lemma reviews_proxy_Run: "reviews (snd (proxy_Run re p s)) = reviews s"
proof -
  have a: "reviews s1 = reviews s" if "audit_Run a s = (x, s1)" for a x s1 using reviews_audit_Run [of a s] that by simp
  have "reviews (snd (proxy_serve re q s)) = reviews s" for q
    by (auto simp: proxy_serve_def Let_def split: prod.split option.split dest: a)
  then have "reviews s1 = reviews s" if "proxy_serve re q s = (x, s1)" for q x s1 using that by (metis snd_conv)
  then show ?thesis by (auto simp: proxy_Run_def Let_def split: prod.split option.split sum.split)
qed

lemma reviews_start_probe: "reviews (ru_world (snd (start_probe re opts root r probes st))) = reviews (ru_world st)"
  by (simp add: start_probe_def Let_def did_def reviews_def split: option.split)

text \<open>What the parts of a built proxy are.\<close>

lemma transparent_audit_cong [simp]: "transparent_audit (a\<lparr>au_logger := lg, au_metrics := m\<rparr>) = transparent_audit a"
  by (simp add: transparent_audit_def)

lemma proxy_New_parts:
  assumes "proxy_New deps = Inr p"
  shows "p_tokenReviewer p = (case dep_TokenReviewer deps of Some r \<Rightarrow> r | None \<Rightarrow> no_reviewer)"
    "\<exists>a. dep_Audit deps = Inr a \<and> transparent_audit (p_auditor p) = transparent_audit a"
  using assms
  by (auto simp: proxy_New_def Let_def audit_New_def audit_WithMetrics_def split: option.splits if_splits sum.splits)

lemma build_proxy_parts:
  assumes "build_proxy re c opts root r s = (Inr (p, urls), s1)"
  shows "reviews_through (re_tr_env re) (p_tokenReviewer p)" "reviews s1 = reviews (new_caches re opts s)"
    "\<exists>a. re_Audit re = Inr a \<and> transparent_audit (p_auditor p) = transparent_audit a"
proof -
  from assms obtain tokenReviewer sr authers where *: "token_reviewer re opts root r = Inr tokenReviewer"
    "buildTokenAuther (re_url_host re) (re_auth re) opts (ForComponent root ComponentOIDC)
       (Some (ForComponent root ComponentStartup)) (new_caches re opts s) = (Inr (authers, urls), s1)"
    "proxy_New \<lparr>dep_Logger = Some root, dep_RestConfig = True, dep_TokenAuthenticator = True, dep_Audit = re_Audit re,
        dep_TokenReviewer = tokenReviewer, dep_SubjectAccessReviewer = Some (sr\<lparr>sar_metrics := r\<rparr>), dep_SecureServingInfo = True,
        dep_Config = Some (proxy_config opts), dep_Metrics = r\<rparr> = Inr p"
    by (auto simp: build_proxy_def split: option.splits sum.splits prod.splits)
  note parts = proxy_New_parts [OF *(3), simplified]
  show "reviews_through (re_tr_env re) (p_tokenReviewer p)"
    unfolding parts(1) using *(1) by (cases tokenReviewer) (auto simp: token_reviewer_def reviews_through_def Let_def split: if_splits sum.splits)
  show "reviews s1 = reviews (new_caches re opts s)"
    using arg_cong [OF *(2), of snd] reviews_buildTokenAuther by (metis snd_conv)
  show "\<exists>a. re_Audit re = Inr a \<and> transparent_audit (p_auditor p) = transparent_audit a"
    by (rule parts(2))
qed

lemma start_proxy_parts:
  assumes "start_proxy re c opts root r st = (Inr (p, tr), st1)"
  shows "reviews_through (re_tr_env re) (p_tokenReviewer p)" "reviews (ru_world st1) = reviews (new_caches re opts (ru_world st))"
    "\<exists>a. re_Audit re = Inr a \<and> transparent_audit (p_auditor p) = transparent_audit a"
    "tr_noAuth tr \<longleftrightarrow> DisableImpersonation (p_config p) \<or> TokenReviewEnabled (p_config p)"
proof -
  from assms obtain p0 urls w probes st2 w2 where *: "build_proxy re c opts root r (ru_world st) = (Inr (p0, urls), w)"
    "start_probe re opts root r probes (st\<lparr>ru_world := logConfigLoaded (ForComponent root ComponentStartup) (fst (re_build re))
       (configHash (re_sha256 re) (re_flags re)) (length urls) (ReadinessMode (ao_ReadinessRequireAllIssuers (op_App opts))) w\<rparr>) = (None, st2)"
    "proxy_Run re p0 (ru_world st2) = (Inr (p, tr), w2)" "ru_world st1 = w2"
    by (auto simp: start_proxy_def Let_def split: prod.splits sum.splits option.splits)
  note b = build_proxy_parts [OF *(1)] and rn = proxy_Run_Inr [OF *(3)]
  from rn have p: "p_tokenReviewer p = p_tokenReviewer p0" "p_auditor p = p_auditor p0" "p_config p = p_config p0" by simp_all
  show "reviews_through (re_tr_env re) (p_tokenReviewer p)"
    "\<exists>a. re_Audit re = Inr a \<and> transparent_audit (p_auditor p) = transparent_audit a"
    "tr_noAuth tr \<longleftrightarrow> DisableImpersonation (p_config p) \<or> TokenReviewEnabled (p_config p)"
    using b(1,3) rn unfolding p by simp_all
  have "reviews w2 = reviews (ru_world st2)" using arg_cong [OF *(3), of snd] reviews_proxy_Run by (metis snd_conv)
  also have "\<dots> = reviews w"
    using arg_cong [OF *(2), of "\<lambda>x. reviews (ru_world (snd x))"] by (simp add: reviews_start_probe logConfigLoaded_def)
  finally show "reviews (ru_world st1) = reviews (new_caches re opts (ru_world st))" using b(2) *(4) by simp
qed

lemma calm_reviews_through: "reviews_through tenv a \<Longrightarrow> calm_reviewer a"
  by (auto simp: reviews_through_def calm_NewCached) (simp add: calm_reviewer_def no_reviewer_def)


end
