(* ===== verification/DocGen.thy ===== *)
theory DocGen
  imports Logging Metrics
begin

text \<open>
  The documentation generators \<^verbatim>\<open>hack/eventdoc\<close> and \<^verbatim>\<open>hack/metricdoc\<close>. Each renders one table, the event
  registry or the metric catalogue, and swaps it into a markdown file between two markers; with
  \<^verbatim>\<open>-check\<close> it reports a difference instead of writing. The two programs are the same code over
  different constants, which are the record \<open>doc_consts\<close>. The file system and the diff library are
  arguments.

  Two things are shown. A table reads back as the data it was rendered from, one row per registered
  entry. And a file the generator has written is up to date: whatever else is in it is kept, and
  another run, with or without \<^verbatim>\<open>-check\<close>, has nothing to do.
\<close>

section \<open>What only the documentation reads\<close>

text \<open>The field \<open>Summary\<close> of the registry entries, and \<open>Stability\<close> and \<open>Help\<close> of the catalogue's.\<close>

fun Summary :: "event_type \<Rightarrow> string" where
  "Summary EventRequestAccessDecided =
    ''Authentication, authorization and proxy admission decided for a request. Carries event=AuSuccess|AuFail.''"
| "Summary EventRequestResponseStarted =
    ''First final status on a long-running request; a forwarded 1xx does not start the response. Mirrors the audit stage ResponseStarted.''"
| "Summary EventRequestResponseCompleted =
    ''The handler returned. The terminal record for every request, mirroring the audit stage ResponseComplete.''"
| "Summary EventRequestHeadersRewritten =
    ''X-Forwarded-For collapsed to the resolved client IP on the trusted-proxy path. Diagnostic, not a warning: it is the trusted-proxy contract working as configured and fires on every request behind a trusted ingress.''"
| "Summary EventRequestHeadersDropped =
    ''X-Forwarded-For or X-Real-Ip removed for an untrusted peer, a fully trusted chain or a malformed hop. Carries forwarded_for_untrusted when the client sent an X-Forwarded-For; a client that sent only X-Real-Ip has no chain to report. Token-bucketed.''"
| "Summary EventRequestAnomalyDetected =
    ''A rejection that indicates an exploit attempt or gross misconfiguration. Token-bucketed; the access record still carries the outcome.''"
| "Summary EventRequestImpersonationApplied =
    ''Outbound impersonation headers built. Header names only, never values.''"
| "Summary EventRequestImpersonationSkipped =
    ''Impersonation was disabled by flag, or the request took the TokenReview passthrough path.''"
| "Summary EventRequestHandlerFailed =
    ''The proxy hit an internal error while handling a request; the access record carries reason=internal_error.''"
| "Summary EventAuthnOIDCSucceeded =
    ''The OIDC authenticator accepted the token. Names the issuer that accepted it.''"
| "Summary EventAuthnOIDCFailed =
    ''The OIDC authenticator rejected the token. The denial itself is INFO on request.access.decided.''"
| "Summary EventAuthnTokenMissing =
    ''No bearer token was presented on the TokenReview path.''"
| "Summary EventAuthnTokenReviewCompleted =
    ''A live TokenReview answered, with duration_ms. A cache hit is reported by cache.tokenreview.lookup instead.''"
| "Summary EventAuthnTokenReviewFailed =
    ''The API server was unreachable or returned a status error. Carries reason=authentication_dependency_error.''"
| "Summary EventAuthzSARCompleted =
    ''A live or shared SubjectAccessReview returned. Fires once per impersonation header value, so one request can emit several.''"
| "Summary EventAuthzSARFailed =
    ''The SubjectAccessReview call failed. Carries reason=authorization_dependency_error, or reason=client_canceled at DEBUG when the client hung up before the review answered.''"
| "Summary EventAuthzImpersonationResolved =
    ''The whole impersonation sequence was allowed. A denial is request.access.decided with decision=deny and reason=impersonation_denied.''"
| "Summary EventCacheSARLookup =
    ''One SubjectAccessReview cache consultation. Carries decision on a hit, never the cache key.''"
| "Summary EventCacheTokenReviewLookup =
    ''One TokenReview cache consultation. Carries authenticated on a hit, never the cache key.''"
| "Summary EventOIDCIssuerConfigured =
    ''Once per configured issuer at startup.''"
| "Summary EventOIDCIssuerInitialized =
    ''An issuer's JWKS loaded. Carries issuer_state=initialized.''"
| "Summary EventOIDCIssuerPending =
    ''The pending set or a pending reason changed. Carries issuer_state=pending; not emitted on every scrape.''"
| "Summary EventReadinessProxyReady =
    ''Readiness latched to ready.''"
| "Summary EventReadinessServerFailed =
    ''The readiness HTTP server returned an error.''"
| "Summary EventProxyConfigLoaded =
    ''The effective non-secret configuration is fixed.''"
| "Summary EventProxyConfigInvalid =
    ''The configuration cannot be used, including a CA bundle that cannot be read.''"
| "Summary EventProxyStartupFailed =
    ''The process could not reach serving after the logger was built; it exits non-zero without a second, unstructured error line.''"
| "Summary EventProxyServerStarted =
    ''The secure listener is serving.''"
| "Summary EventProxyServerStopped =
    ''The secure listener stopped.''"
| "Summary EventProxyShutdownStarted =
    ''A termination signal was received. The forced exit is the same event with forced=true.''"
| "Summary EventProxyShutdownCompleted =
    ''Listeners stopped, readiness stopped and pre-shutdown hooks finished.''"
| "Summary EventProxyHookCompleted =
    ''One record per pre-shutdown hook that finished.''"
| "Summary EventProxyHookFailed =
    ''A pre-shutdown hook returned an error.''"
| "Summary EventAuditBackendStarted =
    ''The audit backend is running.''"
| "Summary EventAuditBackendFailed =
    ''The audit backend did not start.''"
| "Summary EventAuditFlushCompleted =
    ''The pre-shutdown audit flush succeeded.''"
| "Summary EventAuditFlushFailed =
    ''The pre-shutdown audit flush failed.''"
| "Summary EventUpstreamRequestFailed =
    ''The reverse proxy transport failed. Carries reason=upstream_error and a classified termination; drops to DEBUG when the client canceled the request.''"
| "Summary EventUpstreamRequestCanceled =
    ''The client went away before the upstream response completed. Carries reason=client_canceled.''"
| "Summary EventLogWarningSuppressed =
    ''Token-bucket summary of dropped warning records.''"
| "Summary EventMetricsServerStarted =
    ''The metrics listener is serving /metrics.''"
| "Summary EventMetricsServerFailed =
    ''The metrics HTTP server returned an error.''"
| "Summary EventMetricsScrapeFailed =
    ''Gathering or encoding the exposition failed; the scrape was answered with 500.''"

definition metric_docs :: "(string \<times> string \<times> string) list" where
  "metric_docs = [
    (nameBuildInfo, ''STABLE'',
      ''Build information; always 1.''),
    (nameRequestsTotal, ''STABLE'',
      ''Completed requests by Kubernetes verb, scope, HTTP status code and how the exchange ended.''),
    (nameRequestDuration, ''STABLE'',
      ''Latency of completed requests in seconds, excluding long-running (watch, exec, attach, portforward, logs, proxy) and hijacked requests.''),
    (nameRequestsInFlight, ''STABLE'',
      ''Requests currently inside the handler chain.''),
    (nameLongRunningRequests, ''STABLE'',
      ''Long-running requests whose response has started (headers written or connection hijacked) and not yet ended.''),
    (nameAuthnAttempts, ''STABLE'',
      ''Authentication attempts by method and outcome, before the identity and authorization checks that follow.''),
    (nameAccessDecisions, ''STABLE'',
      ''Final access decisions; reason is empty on allow.''),
    (nameReviewRequests, ''STABLE'',
      ''TokenReview and SubjectAccessReview API calls actually issued to the API server, by outcome.''),
    (nameReviewDuration, ''STABLE'',
      ''Latency of review API calls in seconds.''),
    (nameCacheLookups, ''STABLE'',
      ''Review cache lookups by cache and result.''),
    (nameIssuerInitialized, ''STABLE'',
      ''1 once the issuer's authenticator has fetched its JWKS. Reports initialization, not ongoing issuer availability.''),
    (nameReady, ''STABLE'',
      ''1 once the proxy is serving and readiness has latched.''),
    (nameAuditBackendFailures, ''ALPHA'',
      ''Audit backend failures observable at start and shutdown. Asynchronous delivery failures are not included.'')]"

fun Level_String :: "level \<Rightarrow> string" where
  "Level_String l = (let str = (\<lambda>base val. if val = 0 then base else base @ (if val < 0 then itoa val else ''+'' @ itoa val)) in
     if l < LevelInfo then str ''DEBUG'' (l - LevelDebug)
     else if l < LevelWarn then str ''INFO'' (l - LevelInfo)
     else if l < LevelError then str ''WARN'' (l - LevelWarn)
     else str ''ERROR'' (l - LevelError))"

fun metric_type_name :: "metric_type \<Rightarrow> string" where
  "metric_type_name Counter = ''counter''"
| "metric_type_name Gauge = ''gauge''"
| "metric_type_name Histogram = ''histogram''"

section \<open>Rendering\<close>

abbreviation newline :: char where "newline \<equiv> CHR 0x0A"

abbreviation pipe :: char where "pipe \<equiv> CHR 0x7C"

abbreviation backslash :: char where "backslash \<equiv> CHR 0x5C"

text \<open>\<open>strings.ReplaceAll\<close> of a single byte.\<close>

definition replace_char :: "char \<Rightarrow> string \<Rightarrow> string \<Rightarrow> string" where
  "replace_char x r s = concat (map (\<lambda>c. if c = x then r else [c]) s)"

definition escape :: "string \<Rightarrow> string" where
  "escape s = replace_char newline '' '' (replace_char pipe [backslash, pipe] s)"

definition quoted_cell :: "string \<Rightarrow> string" where
  "quoted_cell s = ''`'' @ escape s @ ''`''"

definition table_row :: "string \<Rightarrow> string \<Rightarrow> string \<Rightarrow> string \<Rightarrow> string \<Rightarrow> string" where
  "table_row a b c d e = ''| `'' @ a @ ''` | '' @ b @ '' | '' @ c @ '' | '' @ d @ '' | '' @ e @ '' |'' @ [newline]"

definition levels :: "event_spec \<Rightarrow> string" where
  "levels spec = join_with '' or '' (map (\<lambda>l. escape (Level_String l)) (Level spec # AllowedLevels spec))"

definition doc_components :: "component list option \<Rightarrow> string" where
  "doc_components cs = (case cs of None \<Rightarrow> ''any''
     | Some cs \<Rightarrow> if cs = [] then ''any'' else join_with '', '' (map (\<lambda>c. quoted_cell (component_name c)) cs))"

definition doc_code :: "string list \<Rightarrow> string" where
  "doc_code fs = (if fs = [] then ''none'' else join_with '', '' (map quoted_cell fs))"

definition event_row :: "event_type \<Rightarrow> string" where
  "event_row e = (case Spec e of None \<Rightarrow> []
     | Some spec \<Rightarrow> table_row (escape (event_name e)) (doc_components (Components spec)) (levels spec) (doc_code (Required spec))
         (escape (Summary e)))"

definition eventdoc_renderTable :: string where
  "eventdoc_renderTable = ''| `event_type` | components | level | required | summary |'' @ [newline] @
     ''|---|---|---|---|---|'' @ [newline] @ concat (map event_row AllEventTypes)"

definition doc_labels :: "string list \<Rightarrow> string" where
  "doc_labels ls = (if ls = [] then ''none'' else join_with '', '' (map quoted_cell ls))"

definition metric_row :: "string \<times> metric_type \<times> string list \<Rightarrow> string" where
  "metric_row s = (case s of (name, ty, ls) \<Rightarrow> (case map_of metric_docs name of None \<Rightarrow> []
     | Some (stability, help) \<Rightarrow>
         table_row (escape name) (metric_type_name ty) (doc_labels ls) stability (escape help)))"

definition metricdoc_renderTable :: string where
  "metricdoc_renderTable = ''| name | type | labels | stability | help |'' @ [newline] @
     ''|---|---|---|---|---|'' @ [newline] @ concat (map metric_row catalogue)"

section \<open>Replacing the section\<close>

record doc_consts =
  dc_command :: string
  docPath :: string
  beginMarker :: string
  endMarker :: string
  dc_title :: string

definition skeleton :: "doc_consts \<Rightarrow> string" where
  "skeleton k = dc_title k @ [newline, newline] @ beginMarker k @ [newline] @ endMarker k @ [newline]"

definition eventdoc :: doc_consts where
  "eventdoc = \<lparr>dc_command = ''eventdoc'', docPath = ''docs/logging.md'', beginMarker = ''<!-- events:begin -->'',
     endMarker = ''<!-- events:end -->'', dc_title = ''# Logging''\<rparr>"

definition metricdoc :: doc_consts where
  "metricdoc = \<lparr>dc_command = ''metricdoc'', docPath = ''docs/metrics.md'', beginMarker = ''<!-- metrics:begin -->'',
     endMarker = ''<!-- metrics:end -->'', dc_title = ''# Metrics''\<rparr>"

text \<open>\<open>strings.Index\<close>: the first position the pattern starts at.\<close>

fun str_index :: "string \<Rightarrow> string \<Rightarrow> nat option" where
  "str_index [] p = (if p = [] then Some 0 else None)"
| "str_index (c # s) p = (if has_prefix (c # s) p then Some 0 else map_option Suc (str_index s p))"

definition replaceSection :: "doc_consts \<Rightarrow> string \<Rightarrow> string \<Rightarrow> err + string" where
  "replaceSection k doc table =
     (case str_index doc (beginMarker k) of
        None \<Rightarrow> Inl (NewError (docPath k @ '' does not contain '' @ beginMarker k))
      | Some b \<Rightarrow>
        (case str_index doc (endMarker k) of
           None \<Rightarrow> Inl (NewError (docPath k @ '' does not contain '' @ endMarker k))
         | Some e \<Rightarrow>
           if e < b then Inl (NewError (docPath k @ '' has '' @ endMarker k @ '' before '' @ beginMarker k))
           else Inr (take (b + length (beginMarker k)) doc @ [newline] @ table @ drop e doc)))"

section \<open>The command\<close>

text \<open>What \<open>os.ReadFile\<close> finds at the path.\<close>

datatype doc_file = NotExist | Unreadable err | Contents string

text \<open>The arguments of \<open>difflib.GetUnifiedDiffString\<close>, and what is outside: that library and \<open>os.WriteFile\<close>.\<close>

record unified_diff =
  ud_A :: "string list"
  ud_B :: "string list"
  ud_FromFile :: string
  ud_FromDate :: string
  ud_ToFile :: string
  ud_ToDate :: string
  ud_Context :: nat

record doc_env =
  de_SplitLines :: "string \<Rightarrow> string list"
  de_GetUnifiedDiffString :: "unified_diff \<Rightarrow> err + string"
  de_WriteFile :: "string \<Rightarrow> doc_file \<Rightarrow> err option \<times> doc_file"

definition unifiedDiff :: "doc_env \<Rightarrow> doc_consts \<Rightarrow> string \<Rightarrow> string \<Rightarrow> err + string" where
  "unifiedDiff env k current want = de_GetUnifiedDiffString env
     \<lparr>ud_A = de_SplitLines env current, ud_B = de_SplitLines env want, ud_FromFile = docPath k, ud_FromDate = ''committed'',
      ud_ToFile = docPath k, ud_ToDate = ''generated'', ud_Context = 3\<rparr>"

definition out_of_date :: "doc_consts \<Rightarrow> string \<Rightarrow> err" where
  "out_of_date k diff = NewError (docPath k @ '' is out of date: run `make '' @ dc_command k @
     ''` and commit the result'' @ [newline, newline] @ diff)"

definition docgen_run :: "doc_env \<Rightarrow> doc_consts \<Rightarrow> string \<Rightarrow> bool \<Rightarrow> doc_file \<Rightarrow> err option \<times> doc_file" where
  "docgen_run env k table check f =
     (case (case f of NotExist \<Rightarrow> Inr (skeleton k) | Unreadable e \<Rightarrow> Inl e | Contents t \<Rightarrow> Inr t) of
        Inl e \<Rightarrow> (Some e, f)
      | Inr current \<Rightarrow>
        (case replaceSection k current table of
           Inl e \<Rightarrow> (Some e, f)
         | Inr want \<Rightarrow>
           if want = current then (None, f)
           else if check then
             (case unifiedDiff env k current want of Inl e \<Rightarrow> (Some e, f) | Inr diff \<Rightarrow> (Some (out_of_date k diff), f))
           else de_WriteFile env want f))"

text \<open>\<open>main\<close>: the exit status and what is printed to standard error.\<close>

definition docgen_main :: "doc_env \<Rightarrow> doc_consts \<Rightarrow> string \<Rightarrow> bool \<Rightarrow> doc_file \<Rightarrow> nat \<times> string \<times> doc_file" where
  "docgen_main env k table check f =
     (case docgen_run env k table check f of
        (None, f') \<Rightarrow> (0, [], f')
      | (Some e, f') \<Rightarrow> (1, dc_command k @ '': '' @ err_text e @ [newline], f'))"

definition eventdoc_main :: "doc_env \<Rightarrow> bool \<Rightarrow> doc_file \<Rightarrow> nat \<times> string \<times> doc_file" where
  "eventdoc_main env = docgen_main env eventdoc eventdoc_renderTable"

definition metricdoc_main :: "doc_env \<Rightarrow> bool \<Rightarrow> doc_file \<Rightarrow> nat \<times> string \<times> doc_file" where
  "metricdoc_main env = docgen_main env metricdoc metricdoc_renderTable"

section \<open>Reading a table back\<close>

text \<open>A reader of the markdown: a line is cut at its bare pipes, and an escaped pipe stands for itself.\<close>

definition push_char :: "char \<Rightarrow> string list \<Rightarrow> string list" where
  "push_char c cs = (case cs of [] \<Rightarrow> [[c]] | p # ps \<Rightarrow> (c # p) # ps)"

fun read_cells :: "string \<Rightarrow> string list" where
  "read_cells [] = [[]]"
| "read_cells (c # s) = (if c = pipe then [] # read_cells s
     else if c = backslash \<and> s \<noteq> [] \<and> hd s = pipe then push_char pipe (read_cells (tl s))
     else push_char c (read_cells s))"

definition read_row :: "string \<Rightarrow> string list" where
  "read_row l = map (\<lambda>c. butlast (tl c)) (butlast (tl (read_cells l)))"

definition table_lines :: "string \<Rightarrow> string list" where
  "table_lines t = butlast (split_on newline t)"

definition read_table :: "string \<Rightarrow> string list list" where
  "read_table t = map read_row (drop 2 (table_lines t))"

definition plain :: "string \<Rightarrow> string" where
  "plain s = map (\<lambda>c. if c = newline then CHR '' '' else c) s"

text \<open>The five cells of an entry, as the registry and the catalogue have them.\<close>

definition tick :: "string \<Rightarrow> string" where
  "tick s = ''`'' @ s @ ''`''"

definition listed :: "string \<Rightarrow> string list \<Rightarrow> string" where
  "listed none xs = (if xs = [] then none else join_with '', '' (map tick xs))"

definition event_cells :: "event_type \<Rightarrow> string list" where
  "event_cells e = (case Spec e of None \<Rightarrow> []
     | Some spec \<Rightarrow>
       [tick (event_name e), listed ''any'' (map component_name (case Components spec of None \<Rightarrow> [] | Some cs \<Rightarrow> cs)),
        join_with '' or '' (map Level_String (Level spec # AllowedLevels spec)), listed ''none'' (Required spec), Summary e])"

definition metric_cells :: "string \<times> metric_type \<times> string list \<Rightarrow> string list" where
  "metric_cells s = (case s of (name, ty, ls) \<Rightarrow> (case map_of metric_docs name of None \<Rightarrow> []
     | Some (stability, help) \<Rightarrow> [tick name, metric_type_name ty, listed ''none'' ls, stability, help]))"

lemma escape_simps [simp]:
  "escape [] = []"
  "escape (c # s) = (if c = pipe then [backslash, pipe] else if c = newline then '' '' else [c]) @ escape s"
  by (simp_all add: escape_def replace_char_def)

lemma escape_append [simp]: "escape (s @ t) = escape s @ escape t"
  by (induction s) simp_all

lemma escape_join: "escape sep = sep \<Longrightarrow> join_with sep (map escape xs) = escape (join_with sep xs)"
  by (induction sep xs rule: join_with.induct) simp_all

lemma newline_escape [simp]: "newline \<notin> set (escape s)"
  by (induction s) auto

lemma escape_head: "escape s \<noteq> [] \<Longrightarrow> hd (escape s) \<noteq> pipe"
  by (cases s) auto

lemma read_cells_nonempty [simp]: "read_cells s \<noteq> []"
  by (induction s rule: read_cells.induct) (auto simp: push_char_def split: list.splits)

lemma push_char_Cons [simp]: "push_char c (p # ps) = (c # p) # ps"
  by (simp add: push_char_def)

text \<open>Escaped text followed by anything but a pipe is read as the text, with blanks for its newlines.\<close>

lemma read_cells_escape:
  assumes "read_cells (c # t) = p # ps" "c \<noteq> pipe"
  shows "read_cells (escape s @ c # t) = (plain s @ p) # ps"
proof (induction s)
  case Nil
  show ?case using assms(1) by (simp add: plain_def)
next
  case (Cons x s)
  have "hd (escape s @ c # t) \<noteq> pipe" using escape_head [of s] assms(2) by (cases "escape s = []") auto
  then show ?case using Cons.IH by (simp add: plain_def)
qed

lemma read_cells_cell:
  "read_cells (escape s @ CHR '' '' # pipe # t) = (plain s @ '' '') # read_cells t"
  by (rule read_cells_escape) simp_all

lemma butlast_snoc_Cons [simp]: "butlast (x # xs @ [y]) = x # xs"
  by (simp add: butlast_append)

text \<open>A row of escaped cells.\<close>

definition row_line :: "string list \<Rightarrow> string" where
  "row_line cs = pipe # concat (map (\<lambda>c. escape (CHR '' '' # c) @ [CHR '' '', pipe]) cs)"

lemma read_row_line: "read_row (row_line cs) = map plain cs"
proof -
  have "read_cells (concat (map (\<lambda>c. escape (CHR '' '' # c) @ [CHR '' '', pipe]) cs)) =
      map (\<lambda>c. plain (CHR '' '' # c) @ '' '') cs @ [[]]"
  proof (induction cs)
    case (Cons c cs)
    then show ?case
      using read_cells_cell [of "CHR '' '' # c" "concat (map (\<lambda>c. escape (CHR '' '' # c) @ [CHR '' '', pipe]) cs)"]
      by (simp del: escape_simps)
  qed simp
  then show ?thesis by (simp add: read_row_def row_line_def plain_def del: escape_simps)
qed

lemma newline_row_line: "newline \<notin> set (row_line cs)"
  by (auto simp: row_line_def simp del: escape_simps)

lemma table_row_line: "table_row (escape a) (escape b) (escape c) (escape d) (escape e) = row_line [tick a, b, c, d, e] @ [newline]"
  by (simp add: table_row_def row_line_def tick_def)

lemma split_on_line: "c \<notin> set x \<Longrightarrow> split_on c (x @ c # y) = x # split_on c y"
  by (induction x) (auto split: list.splits)

lemma table_lines_concat:
  "(\<forall>l \<in> set ls. newline \<notin> set l) \<Longrightarrow> table_lines (concat (map (\<lambda>l. l @ [newline]) ls)) = ls"
proof -
  assume "\<forall>l \<in> set ls. newline \<notin> set l"
  then have "split_on newline (concat (map (\<lambda>l. l @ [newline]) ls)) = ls @ [[]]"
    by (induction ls) (simp_all add: split_on_line)
  then show ?thesis by (simp add: table_lines_def)
qed

text \<open>Two heading lines and a row of cells per entry read back as the cells.\<close>

lemma read_table_rows:
  assumes "\<And>x. x \<in> set xs \<Longrightarrow> row x = row_line (cells x) @ [newline]" "\<And>x. x \<in> set xs \<Longrightarrow> newline \<notin> set (concat (cells x))"
    and "newline \<notin> set h1" "newline \<notin> set h2"
  shows "read_table (h1 @ [newline] @ h2 @ [newline] @ concat (map row xs)) = map cells xs"
proof -
  have "map row xs = map (\<lambda>l. l @ [newline]) (map (\<lambda>x. row_line (cells x)) xs)" using assms(1) by simp
  from arg_cong [OF this, of concat] have "h1 @ [newline] @ h2 @ [newline] @ concat (map row xs) =
      concat (map (\<lambda>l. l @ [newline]) (h1 # h2 # map (\<lambda>x. row_line (cells x)) xs))" by simp
  then have "table_lines (h1 @ [newline] @ h2 @ [newline] @ concat (map row xs)) =
      table_lines (concat (map (\<lambda>l. l @ [newline]) (h1 # h2 # map (\<lambda>x. row_line (cells x)) xs)))" by (rule arg_cong)
  also have "\<dots> = h1 # h2 # map (\<lambda>x. row_line (cells x)) xs"
    by (rule table_lines_concat) (use assms(3,4) newline_row_line in auto)
  finally have lines: "table_lines (h1 @ [newline] @ h2 @ [newline] @ concat (map row xs)) = h1 # h2 # map (\<lambda>x. row_line (cells x)) xs" .
  have "map plain (cells x) = cells x" if "x \<in> set xs" for x
    using assms(2) [OF that] by (force simp: plain_def intro!: map_idI)
  then show ?thesis unfolding read_table_def lines by (simp add: read_row_line)
qed

lemma listed_escape:
  assumes "escape n = n"
  shows "(if xs = [] then n else join_with '', '' (map quoted_cell xs)) = escape (listed n xs)"
proof -
  have "quoted_cell = escape \<circ> tick" by (simp add: fun_eq_iff quoted_cell_def tick_def)
  then show ?thesis using assms escape_join [of "'', ''" "map tick xs"] by (simp add: listed_def)
qed

lemma event_row_line: "event_row e = row_line (event_cells e) @ [newline]"
proof -
  obtain spec where s: "Spec e = Some spec" using Spec_registered [of e] by blast
  have c: "doc_components (Components spec) =
      escape (listed ''any'' (map component_name (case Components spec of None \<Rightarrow> [] | Some cs \<Rightarrow> cs)))"
    by (subst listed_escape [symmetric]) (simp_all add: doc_components_def comp_def split: option.splits)
  have r: "doc_code (Required spec) = escape (listed ''none'' (Required spec))"
    unfolding doc_code_def by (rule listed_escape) simp
  have v: "levels spec = escape (join_with '' or '' (map Level_String (Level spec # AllowedLevels spec)))"
    unfolding levels_def by (subst escape_join [symmetric]) (simp_all add: comp_def del: Level_String.simps)
  show ?thesis
    unfolding event_row_def event_cells_def s option.case c r v by (rule table_row_line)
qed

lemma event_cells_one_line: "newline \<notin> set (concat (event_cells e))"
proof -
  have "list_all (\<lambda>(e, _). newline \<notin> set (concat (event_cells e))) Registry" by code_simp
  moreover obtain spec where "(e, spec) \<in> set Registry"
    using Spec_registered [of e] unfolding Spec_def by (metis map_of_SomeD not_None_eq)
  ultimately show ?thesis by (auto simp: list_all_iff)
qed

lemma AllEventTypes_complete: "distinct AllEventTypes" "set AllEventTypes = UNIV"
  using Registry_distinct Registry_UNIV by (simp_all add: AllEventTypes_def)

lemma metric_row_line: "s \<in> set catalogue \<Longrightarrow> metric_row s = row_line (metric_cells s) @ [newline]"
proof -
  have "list_all (\<lambda>s. metric_row s = row_line (metric_cells s) @ [newline]) catalogue" by code_simp
  then show "s \<in> set catalogue \<Longrightarrow> metric_row s = row_line (metric_cells s) @ [newline]" by (simp add: list_all_iff)
qed

lemma metric_cells_one_line: "s \<in> set catalogue \<Longrightarrow> newline \<notin> set (concat (metric_cells s))"
proof -
  have "list_all (\<lambda>s. newline \<notin> set (concat (metric_cells s))) catalogue" by code_simp
  then show "s \<in> set catalogue \<Longrightarrow> newline \<notin> set (concat (metric_cells s))" by (simp add: list_all_iff)
qed

text \<open>
  C36. The generated tables say what the code has: read as markdown, each has one row per registered
  event, in the order of the names, and one per metric family, in the order of the catalogue, and the
  five cells of a row are the entry's fields, a pipe or a newline in a field notwithstanding.
\<close>

theorem tables_read_back:
  "read_table eventdoc_renderTable = map event_cells AllEventTypes \<and> distinct AllEventTypes \<and> set AllEventTypes = UNIV \<and>
   read_table metricdoc_renderTable = map metric_cells catalogue"
proof -
  have "read_table eventdoc_renderTable = map event_cells AllEventTypes"
    unfolding eventdoc_renderTable_def
    by (rule read_table_rows [OF event_row_line event_cells_one_line]) simp_all
  moreover have "read_table metricdoc_renderTable = map metric_cells catalogue"
    unfolding metricdoc_renderTable_def
    by (rule read_table_rows [OF metric_row_line metric_cells_one_line]) simp_all
  ultimately show ?thesis using AllEventTypes_complete by simp
qed

section \<open>A written file is up to date\<close>

text \<open>A marker starts with a byte that is nowhere else in it, so no two occurrences overlap.\<close>

abbreviation open_angle :: char where "open_angle \<equiv> CHR 0x3C"

definition marker :: "string \<Rightarrow> bool" where
  "marker m = (\<exists>r. m = open_angle # r \<and> open_angle \<notin> set r)"

lemma has_prefix_Cons [simp]: "has_prefix (x # s) (c # r) = (x = c \<and> has_prefix s r)"
  by (auto simp: has_prefix_def)

lemma has_prefix_barrier: "c \<notin> set r \<Longrightarrow> has_prefix (s @ c # t) r = has_prefix s r"
proof (induction s arbitrary: r)
  case Nil
  then show ?case by (cases r) (auto simp: has_prefix_def)
next
  case (Cons x s)
  then show ?case by (cases r) (simp_all add: has_prefix_def)
qed

lemma str_index_barrier:
  assumes "marker m"
  shows "str_index (s @ open_angle # t) m = (case str_index s m of Some i \<Rightarrow> Some i
    | None \<Rightarrow> map_option ((+) (length s)) (str_index (open_angle # t) m))"
proof -
  obtain r where m: "m = open_angle # r" "open_angle \<notin> set r" using assms by (auto simp: marker_def)
  show ?thesis
    by (induction s) (auto simp: m has_prefix_barrier option.map_comp comp_def simp del: str_index.simps(2)
        split: option.splits simp: str_index.simps(2) [of _ _ "open_angle # r"])
qed

lemma str_index_before:
  assumes "marker m" "marker n"
  shows "str_index (s @ n @ t) m = (case str_index s m of Some i \<Rightarrow> Some i | None \<Rightarrow> map_option ((+) (length s)) (str_index (n @ t) m))"
  using str_index_barrier [OF assms(1)] assms(2) unfolding marker_def by (metis append_Cons)

lemma str_index_skip:
  assumes "marker m" "open_angle \<notin> set s"
  shows "str_index (s @ t) m = map_option ((+) (length s)) (str_index t m)"
proof -
  obtain r where m: "m = open_angle # r" using assms(1) by (auto simp: marker_def)
  from assms(2) have "str_index (s @ t) m = (case str_index t m of None \<Rightarrow> None | Some i \<Rightarrow> Some (length s + i))"
    by (induction s) (auto simp: m split: option.splits)
  then show ?thesis by (cases "str_index t m") simp_all
qed

lemma str_index_SomeD: "str_index s p = Some i \<Longrightarrow> \<exists>t. s = take i s @ p @ t"
proof (induction s arbitrary: i)
  case (Cons c s)
  show ?case
  proof (cases "has_prefix (c # s) p")
    case True
    then show ?thesis using Cons.prems by (auto simp: has_prefix_iff)
  next
    case False
    then obtain j where "str_index s p = Some j" "i = Suc j" using Cons.prems by auto
    with Cons.IH show ?thesis by auto
  qed
qed (auto split: if_splits)

lemma str_index_bound: "str_index s p = Some i \<Longrightarrow> i + length p \<le> length s"
proof -
  assume "str_index s p = Some i"
  then obtain t where "s = take i s @ p @ t" using str_index_SomeD by blast
  then have "length s = length (take i s) + length p + length t" by (metis length_append add.assoc)
  moreover have "i \<le> length s" using \<open>str_index s p = Some i\<close>
    by (induction s arbitrary: i) (auto split: if_splits)
  ultimately show ?thesis by simp
qed

text \<open>The contract of a marked document: two different markers, and a table no marker can hide in.\<close>

locale marked_document =
  fixes k :: doc_consts and table :: string
  assumes begin_marker: "marker (beginMarker k)" and end_marker: "marker (endMarker k)"
    and markers_differ: "beginMarker k @ x \<noteq> endMarker k @ y"
    and table_unmarked: "open_angle \<notin> set table"
begin

lemma end_after_begin:
  "str_index (beginMarker k @ t) (endMarker k) = map_option ((+) (length (beginMarker k))) (str_index t (endMarker k))"
proof -
  obtain r where r: "beginMarker k = open_angle # r" "open_angle \<notin> set r" using begin_marker by (auto simp: marker_def)
  have "\<not> has_prefix (open_angle # r @ t) (endMarker k)" using markers_differ [of t] r(1) by (auto simp: has_prefix_iff)
  then show ?thesis using str_index_skip [OF end_marker r(2), of t] by (cases "str_index t (endMarker k)") (simp_all add: r)
qed

lemma replaceSection_at:
  assumes "str_index pre (beginMarker k) = None" "str_index pre (endMarker k) = None" "open_angle \<notin> set mid"
  shows "replaceSection k (pre @ beginMarker k @ mid @ endMarker k @ post) tab =
    Inr (pre @ beginMarker k @ [newline] @ tab @ endMarker k @ post)"
proof -
  have self: "str_index (m @ t) m = Some 0" if "marker m" for m t
    using that by (auto simp: marker_def has_prefix_def)
  note cut = str_index_before [OF _ begin_marker, of _ pre "mid @ endMarker k @ post"]
  have b: "str_index (pre @ beginMarker k @ mid @ endMarker k @ post) (beginMarker k) = Some (length pre)"
    using cut [OF begin_marker] assms(1) self [OF begin_marker] by simp
  have e: "str_index (pre @ beginMarker k @ mid @ endMarker k @ post) (endMarker k) =
      Some (length pre + (length (beginMarker k) + length mid))"
    using cut [OF end_marker] assms(2) end_after_begin str_index_skip [OF end_marker assms(3)] self [OF end_marker] by simp
  show ?thesis unfolding replaceSection_def b e by simp
qed

lemma replaceSection_parts:
  assumes "replaceSection k doc tab = Inr d"
  obtains pre mid post where "doc = pre @ beginMarker k @ mid @ endMarker k @ post"
    "d = pre @ beginMarker k @ [newline] @ tab @ endMarker k @ post"
    "str_index pre (beginMarker k) = None" "str_index pre (endMarker k) = None"
proof -
  obtain b e where b: "str_index doc (beginMarker k) = Some b" and e: "str_index doc (endMarker k) = Some e" and le: "b \<le> e"
    and d: "d = take (b + length (beginMarker k)) doc @ [newline] @ tab @ drop e doc"
    using assms by (auto simp: replaceSection_def split: option.splits if_splits)
  define pre where "pre = take b doc"
  obtain t where doc: "doc = pre @ beginMarker k @ t" using str_index_SomeD [OF b] by (auto simp: pre_def)
  have len: "length pre = b" using str_index_bound [OF b] by (simp add: pre_def)
  note cut = str_index_before [OF _ begin_marker, of _ pre t, folded doc]
  have none: "str_index pre m = None" if "marker m" "str_index doc m = Some i" "b \<le> i" for m i
  proof (rule ccontr)
    assume "str_index pre m \<noteq> None"
    then obtain j where j: "str_index pre m = Some j" by blast
    with cut [OF that(1)] that(2) have "j = i" by simp
    moreover have "j + length m \<le> b" using str_index_bound [OF j] len by simp
    ultimately show False using that(1,3) by (auto simp: marker_def)
  qed
  have p: "str_index pre (beginMarker k) = None" "str_index pre (endMarker k) = None"
    using none [OF begin_marker b] none [OF end_marker e le] by simp_all
  obtain i where i: "str_index t (endMarker k) = Some i" "e = b + (length (beginMarker k) + i)"
    using cut [OF end_marker] p(2) e end_after_begin len by (cases "str_index t (endMarker k)") auto
  obtain post where t: "t = take i t @ endMarker k @ post" using str_index_SomeD [OF i(1)] by blast
  have "drop i t = endMarker k @ post"
    using t str_index_bound [OF i(1)] by (metis append_take_drop_id same_append_eq)
  then have "d = pre @ beginMarker k @ [newline] @ tab @ endMarker k @ post"
    unfolding d by (subst (1 2) doc) (simp add: len i(2))
  moreover have "doc = pre @ beginMarker k @ take i t @ endMarker k @ post" using doc t by simp
  ultimately show thesis using that p by blast
qed

text \<open>A replaced document is a fixed point.\<close>

lemma replaceSection_idem:
  assumes "replaceSection k doc table = Inr d"
  shows "replaceSection k d table = Inr d"
proof -
  obtain pre mid post where d: "d = pre @ beginMarker k @ [newline] @ table @ endMarker k @ post"
    and p: "str_index pre (beginMarker k) = None" "str_index pre (endMarker k) = None"
    using replaceSection_parts [OF assms] by metis
  have "open_angle \<notin> set ([newline] @ table)" using table_unmarked by simp
  from replaceSection_at [OF p this, of post table] show ?thesis by (simp add: d)
qed

text \<open>What a run starts from: a missing file is taken for the skeleton.\<close>

lemma run_parts:
  assumes "docgen_run env k table False f = (None, f')" "\<And>t g g'. de_WriteFile env t g = (None, g') \<Longrightarrow> g' = Contents t"
    and "replaceSection k (skeleton k) table \<noteq> Inr (skeleton k)"
  obtains doc d where "f = NotExist \<and> doc = skeleton k \<or> f = Contents doc" "replaceSection k doc table = Inr d" "f' = Contents d"
  using assms by (auto simp: docgen_run_def split: doc_file.splits sum.splits if_splits)

lemma run_again:
  assumes "replaceSection k doc table = Inr d"
  shows "docgen_run env k table check (Contents d) = (None, Contents d)"
  using replaceSection_idem [OF assms] by (simp add: docgen_run_def)

end

lemma begins_differently: "s ! i \<noteq> t ! i \<Longrightarrow> i < length s \<Longrightarrow> i < length t \<Longrightarrow> s @ x \<noteq> t @ y"
  by (metis nth_append)

lemma event_table_unmarked: "open_angle \<notin> set eventdoc_renderTable"
proof -
  have "list_all (\<lambda>(e, _). open_angle \<notin> set (event_row e)) Registry" by code_simp
  moreover have "\<exists>spec. (e, spec) \<in> set Registry" for e
    using Spec_registered [of e] unfolding Spec_def by (metis map_of_SomeD not_None_eq)
  ultimately have "open_angle \<notin> set (event_row e)" for e by (fastforce simp: list_all_iff)
  then show ?thesis by (simp add: eventdoc_renderTable_def)
qed

interpretation event_document: marked_document eventdoc eventdoc_renderTable
proof
  show "beginMarker eventdoc @ x \<noteq> endMarker eventdoc @ y" for x y
    by (rule begins_differently [of _ 12]) (simp_all add: eventdoc_def)
qed (simp_all add: eventdoc_def marker_def event_table_unmarked)

interpretation metric_document: marked_document metricdoc metricdoc_renderTable
proof
  show "beginMarker metricdoc @ x \<noteq> endMarker metricdoc @ y" for x y
    by (rule begins_differently [of _ 13]) (simp_all add: metricdoc_def)
  have "list_all (\<lambda>s. open_angle \<notin> set (metric_row s)) catalogue" by code_simp
  then show "open_angle \<notin> set metricdoc_renderTable" by (simp add: metricdoc_renderTable_def list_all_iff)
qed (simp_all add: metricdoc_def marker_def)

definition generators :: "(doc_consts \<times> string) list" where
  "generators = [(eventdoc, eventdoc_renderTable), (metricdoc, metricdoc_renderTable)]"

lemma generators_marked: "(k, table) \<in> set generators \<Longrightarrow> marked_document k table \<and> table \<noteq> []"
proof -
  have "eventdoc_renderTable \<noteq> []" "metricdoc_renderTable \<noteq> []"
    by (simp_all add: eventdoc_renderTable_def metricdoc_renderTable_def)
  then show "(k, table) \<in> set generators \<Longrightarrow> marked_document k table \<and> table \<noteq> []"
    using event_document.marked_document_axioms metric_document.marked_document_axioms by (auto simp: generators_def)
qed

lemma skeleton_stale:
  assumes "(k, table) \<in> set generators"
  shows "replaceSection k (skeleton k) table \<noteq> Inr (skeleton k)"
proof -
  have m: "marked_document k table" "table \<noteq> []" using generators_marked [OF assms] by auto
  have t: "open_angle \<notin> set (dc_title k @ [newline, newline])"
    using assms by (auto simp: generators_def eventdoc_def metricdoc_def)
  have n: "str_index (dc_title k @ [newline, newline]) x = None" if "marker x" for x
    using str_index_skip [OF that t, of "[]"] that by (auto simp: marker_def)
  have "replaceSection k (skeleton k) table =
      Inr ((dc_title k @ [newline, newline]) @ beginMarker k @ [newline] @ table @ endMarker k @ [newline])"
    using marked_document.replaceSection_at [OF m(1), of "dc_title k @ [newline, newline]" "[newline]" "[newline]" table]
      n marked_document.begin_marker [OF m(1)] marked_document.end_marker [OF m(1)] by (simp add: skeleton_def)
  then show ?thesis using m(2) by (simp add: skeleton_def)
qed

text \<open>\<open>os.WriteFile\<close> without an error has stored what it was given.\<close>

definition stores :: "doc_env \<Rightarrow> bool" where
  "stores env = (\<forall>t f f'. de_WriteFile env t f = (None, f') \<longrightarrow> f' = Contents t)"

text \<open>
  C35. What a generator leaves behind is up to date. After a run that succeeds, the file is the old one
  (the skeleton, if there was none) with only the text between the markers replaced by a newline and the table, and
  another run, with or without \<^verbatim>\<open>-check\<close>, succeeds silently and changes nothing.
\<close>

theorem generated_file_is_current:
  assumes "stores env" "(k, table) \<in> set generators" "docgen_main env k table False f = (0, msg, f')"
  shows "(\<exists>pre mid post. (f = NotExist \<and> skeleton k = pre @ beginMarker k @ mid @ endMarker k @ post \<or>
            f = Contents (pre @ beginMarker k @ mid @ endMarker k @ post)) \<and>
          f' = Contents (pre @ beginMarker k @ [newline] @ table @ endMarker k @ post)) \<and>
    (\<forall>check. docgen_main env k table check f' = (0, [], f'))"
proof -
  have m: "marked_document k table" using generators_marked [OF assms(2)] by blast
  have run: "docgen_run env k table False f = (None, f')"
    using assms(3) by (auto simp: docgen_main_def split: prod.splits option.splits)
  have w: "\<And>t g g'. de_WriteFile env t g = (None, g') \<Longrightarrow> g' = Contents t" using assms(1) by (simp add: stores_def)
  obtain doc d where d: "f = NotExist \<and> doc = skeleton k \<or> f = Contents doc" "replaceSection k doc table = Inr d" "f' = Contents d"
    by (rule marked_document.run_parts [OF m run w skeleton_stale [OF assms(2)]], assumption, rule that)
  obtain pre mid post where "doc = pre @ beginMarker k @ mid @ endMarker k @ post"
    "d = pre @ beginMarker k @ [newline] @ table @ endMarker k @ post"
    by (rule marked_document.replaceSection_parts [OF m d(2)], rule that)
  moreover have "docgen_main env k table check f' = (0, [], f')" for check
    using marked_document.run_again [OF m d(2)] by (simp add: docgen_main_def d(3))
  ultimately show ?thesis using d(1,3) by metis
qed

definition demo_doc_env :: doc_env where
  "demo_doc_env = \<lparr>de_SplitLines = (\<lambda>s. [s]), de_GetUnifiedDiffString = (\<lambda>d. Inr (concat (ud_B d))),
     de_WriteFile = (\<lambda>t _. (None, Contents t))\<rparr>"

theorem generated_file_is_current_witness:
  "\<exists>f'. docgen_main demo_doc_env eventdoc eventdoc_renderTable False NotExist = (0, [], f') \<and>
    docgen_main demo_doc_env eventdoc eventdoc_renderTable True f' = (0, [], f')"
proof -
  have g: "(eventdoc, eventdoc_renderTable) \<in> set generators" by (simp add: generators_def)
  have "stores demo_doc_env" by (simp add: stores_def demo_doc_env_def)
  obtain d where "replaceSection eventdoc (skeleton eventdoc) eventdoc_renderTable = Inr d"
    by (simp add: skeleton_def eventdoc_def replaceSection_def has_prefix_def)
  then have run: "docgen_main demo_doc_env eventdoc eventdoc_renderTable False NotExist = (0, [], Contents d)"
    using skeleton_stale [OF g] by (auto simp: docgen_main_def docgen_run_def demo_doc_env_def)
  with generated_file_is_current [OF \<open>stores demo_doc_env\<close> g run] show ?thesis by blast
qed

end
