(* ===== verification/Tunnel.thy ===== *)
theory Tunnel
  imports Options Machines "HOL-Library.Multiset"
begin

text \<open>
  The tunnel of the load generator (\<^verbatim>\<open>hack/metrics-demo/load/main.go\<close>): a \<^verbatim>\<open>kubectl port-forward\<close> that is
  reopened when it drops and stopped by \<open>Close\<close> or by the caller's context. Several goroutines share it: the
  constructor, one per forward that waits for the process, one per reconnect, the watchdog on the
  context, and callers of \<open>Close\<close>. Each is a program counter with the values of its locals; a step runs one of them to
  its next channel operation, lock or process call, so the machine has every interleaving the mutex
  and the channels allow. Processes, clocks and the context are moves of the environment.

  Shown: \<open>stop\<close> is never called twice (it closes a channel, and would panic), nothing is published
  after \<open>Close\<close> has looked, and a cancelled tunnel winds down -- every run of its goroutines ends, and
  when none can move all are finished and no \<^verbatim>\<open>kubectl\<close> is left.
\<close>

section \<open>The announcement\<close>

text \<open>The regular expression \<^verbatim>\<open>^Forwarding from 127\.0\.0\.1:(\d+) ->\<close>.\<close>

definition forwardedPort :: "string \<Rightarrow> string option" where
  "forwardedPort line =
     (let p = ''Forwarding from 127.0.0.1:''; rest = drop (length p) line; ds = takeWhile is_digit rest in
      if has_prefix line p \<and> ds \<noteq> [] \<and> has_prefix (drop (length ds) rest) '' ->'' then Some ds else None)"

text \<open>The lines the scanner yields, and its error at their end, if any.\<close>

fun readForwardedPort :: "string list \<Rightarrow> err option \<Rightarrow> err + int" where
  "readForwardedPort [] (Some e) = Inl (NewError (''failed to read kubectl port-forward output: '' @ err_text e))"
| "readForwardedPort [] None = Inl (NewError ''kubectl port-forward exited before it announced a local port'')"
| "readForwardedPort (l # ls) e =
     (case forwardedPort l of
        None \<Rightarrow> readForwardedPort ls e
      | Some ds \<Rightarrow> (case atoi ds of
          Some p \<Rightarrow> Inr p
        | None \<Rightarrow> Inl (NewError (''strconv.Atoi: parsing '' @ go_quote ds @ '': value out of range''))))"

section \<open>State\<close>

text \<open>One \<^verbatim>\<open>kubectl\<close> process with the channels \<open>stopping\<close> and \<open>waited\<close> of its \<open>startPortForward\<close>.\<close>

record forward =
  fw_argv :: "string list"
  fw_alive :: bool
  fw_killed :: bool
  fw_stopping :: bool
  fw_waited :: bool

text \<open>Who called \<open>open\<close>: the constructor, or a reconnect in its attempt \<open>i\<close>.\<close>

datatype origin = ByNew | ByReopen nat

datatype goroutine =
    OpenStart origin
  | OpenAwait origin nat
  | OpenPublish origin nat int
  | OpenStop origin nat
  | OpenStopped origin nat
  | Waiting nat
  | Waited nat err
  | ReopenCheck err
  | ReopenWait nat
  | CloseLock
  | CloseCancel "nat option"
  | CloseStop nat
  | CloseStopped nat
  | Watchdog
  | Finished

datatype tunnel_log = Dropped string err | Reopened string string | GaveUp string

record tunnel =
  tn_kubeconfig :: string
  tn_namespace :: string
  tn_target :: string
  tn_remote :: int
  tn_scheme :: string
  tn_cancelled :: bool
  tn_port :: int
  tn_stop :: "nat option"
  tn_closed :: bool
  tn_result :: "err option option"
  tn_forwards :: "forward list"
  tn_panicked :: bool
  tn_log :: "tunnel_log list"

definition tunnelReopenAttempts :: nat where "tunnelReopenAttempts = 10"

text \<open>\<open>URL\<close>: the far end's address through the tunnel as it stands.\<close>

definition tunnel_URL :: "tunnel \<Rightarrow> string" where
  "tunnel_URL t = tn_scheme t @ ''://127.0.0.1:'' @ itoa (tn_port t)"

text \<open>The literal \<open>newTunnel\<close> starts from; the context may have been cancelled before.\<close>

definition newTunnel :: "bool \<Rightarrow> string \<Rightarrow> string \<Rightarrow> string \<Rightarrow> int \<Rightarrow> string \<Rightarrow> tunnel" where
  "newTunnel cancelled kubeconfig namespace target remote scheme =
     \<lparr>tn_kubeconfig = kubeconfig, tn_namespace = namespace, tn_target = target, tn_remote = remote, tn_scheme = scheme,
      tn_cancelled = cancelled, tn_port = 0, tn_stop = None, tn_closed = False, tn_result = None, tn_forwards = [],
      tn_panicked = False, tn_log = []\<rparr>"

definition update_forward :: "nat \<Rightarrow> (forward \<Rightarrow> forward) \<Rightarrow> tunnel \<Rightarrow> tunnel" where
  "update_forward i f t = t\<lparr>tn_forwards := (tn_forwards t)[i := f (tn_forwards t ! i)]\<rparr>"

definition kubectl_argv :: "tunnel \<Rightarrow> string list" where
  "kubectl_argv t = [''kubectl'', ''--kubeconfig'', tn_kubeconfig t, ''-n'', tn_namespace t, ''port-forward'', tn_target t,
     '':'' @ itoa (tn_remote t)]"

definition start_forward :: "tunnel \<Rightarrow> tunnel" where
  "start_forward t = t\<lparr>tn_forwards := tn_forwards t @
     [\<lparr>fw_argv = kubectl_argv t, fw_alive = True, fw_killed = False, fw_stopping = False, fw_waited = False\<rparr>]\<rparr>"

text \<open>
  The function \<open>stop\<close> a forward returns, up to its wait: it closes \<open>stopping\<close>, which panics when that
  has happened before, and kills the process.
\<close>

definition stop_forward :: "nat \<Rightarrow> tunnel \<Rightarrow> tunnel" where
  "stop_forward i t = (if fw_stopping (tn_forwards t ! i) then t\<lparr>tn_panicked := True\<rparr>
     else update_forward i (\<lambda>f. f\<lparr>fw_stopping := True, fw_killed := True\<rparr>) t)"

text \<open>\<open>startPortForward\<close> giving up: it kills the process and reaps it itself.\<close>

definition reap_forward :: "nat \<Rightarrow> tunnel \<Rightarrow> tunnel" where
  "reap_forward i t = update_forward i (\<lambda>f. f\<lparr>fw_alive := False, fw_killed := True, fw_waited := True\<rparr>) t"

section \<open>What a goroutine does next\<close>

text \<open>What the environment may answer a goroutine that waits for it.\<close>

datatype answer =
    Proceed
  | PipeFails err
  | StartFails err
  | Stdout "string list" "err option" string
  | ReadyTimeout string
  | ContextDone err string
  | Elapsed
  | Exited string string

text \<open>The errors of \<open>open\<close>: the sentinel its callers look for, or any other.\<close>

datatype open_error = errTunnelClosed | OpenFailed err

fun open_error_err :: "open_error \<Rightarrow> err" where
  "open_error_err errTunnelClosed = NewError ''the tunnel was closed while a port-forward was starting''"
| "open_error_err (OpenFailed e) = e"

text \<open>
  The return of \<open>open\<close>: the constructor hands the tunnel out and starts the watchdog, or cancels;
  a reconnect is done unless the error is one to retry and an attempt is left.
\<close>

fun open_returns :: "origin \<Rightarrow> open_error option \<Rightarrow> tunnel \<Rightarrow> goroutine \<times> goroutine list \<times> tunnel" where
  "open_returns ByNew None t = (Finished, [Watchdog], t\<lparr>tn_result := Some None\<rparr>)"
| "open_returns ByNew (Some e) t = (Finished, [], t\<lparr>tn_cancelled := True, tn_result := Some (Some (open_error_err e))\<rparr>)"
| "open_returns (ByReopen i) None t = (Finished, [], t\<lparr>tn_log := tn_log t @ [Reopened (tn_target t) (tunnel_URL t)]\<rparr>)"
| "open_returns (ByReopen i) (Some e) t =
     (if e = errTunnelClosed then (Finished, [], t)
      else if Suc i < tunnelReopenAttempts then (ReopenWait (Suc i), [], t)
      else (Finished, [], t\<lparr>tn_log := tn_log t @ [GaveUp (tn_target t)]\<rparr>))"

definition no_port :: "origin \<Rightarrow> nat \<Rightarrow> string \<Rightarrow> string \<Rightarrow> tunnel \<Rightarrow> goroutine \<times> goroutine list \<times> tunnel" where
  "no_port og i why stderr t = open_returns og (Some (OpenFailed (NewError (why @ '': '' @ trim_space stderr)))) (reap_forward i t)"

text \<open>
  One step of a goroutine: its next program counter, the goroutines it starts, and the tunnel.
  \<open>None\<close>: with this answer it cannot move. First \<open>open\<close>, with \<open>startPortForward\<close> in it.
\<close>

type_synonym go_result = "(goroutine \<times> goroutine list \<times> tunnel) option"

definition go_start :: "origin \<Rightarrow> answer \<Rightarrow> tunnel \<Rightarrow> go_result" where
  "go_start og a t = (case a of
       PipeFails e \<Rightarrow> Some (open_returns og (Some (OpenFailed e)) t)
     | StartFails e \<Rightarrow>
         Some (open_returns og (Some (OpenFailed (NewError (''failed to start kubectl port-forward: '' @ err_text e)))) t)
     | Proceed \<Rightarrow> if tn_cancelled t then None else Some (OpenAwait og (length (tn_forwards t)), [], start_forward t)
     | _ \<Rightarrow> None)"

definition go_await :: "origin \<Rightarrow> nat \<Rightarrow> answer \<Rightarrow> tunnel \<Rightarrow> go_result" where
  "go_await og i a t = (case a of
       Stdout ls e stderr \<Rightarrow>
         (case readForwardedPort ls e of
            Inr port \<Rightarrow> Some (OpenPublish og i port, [Waiting i], t)
          | Inl err \<Rightarrow> Some (no_port og i (err_text err) stderr t))
     | ReadyTimeout stderr \<Rightarrow>
         Some (no_port og i ''kubectl port-forward did not announce a local port within 30s'' stderr t)
     | ContextDone e stderr \<Rightarrow>
         if tn_cancelled t then
           Some (no_port og i (''kubectl port-forward was stopped before it announced a local port: '' @ err_text e) stderr t)
         else None
     | _ \<Rightarrow> None)"

definition go_publish :: "origin \<Rightarrow> nat \<Rightarrow> int \<Rightarrow> tunnel \<Rightarrow> go_result" where
  "go_publish og i port t =
     (if tn_closed t then Some (OpenStop og i, [], t)
      else Some (open_returns og None (t\<lparr>tn_port := port, tn_stop := Some i\<rparr>)))"

text \<open>The goroutine that owns \<open>cmd.Wait\<close>; the process has to be dead for it to go on.\<close>

definition go_wait :: "nat \<Rightarrow> answer \<Rightarrow> tunnel \<Rightarrow> go_result" where
  "go_wait i a t = (case a of
       Exited werr stderr \<Rightarrow>
         if fw_alive (tn_forwards t ! i) then None
         else Some (Waited i (NewError (''kubectl port-forward exited ('' @ werr @ ''): '' @ trim_space stderr)), [],
           update_forward i (\<lambda>f. f\<lparr>fw_waited := True\<rparr>) t)
     | _ \<Rightarrow> None)"

definition go_waited :: "nat \<Rightarrow> err \<Rightarrow> tunnel \<Rightarrow> go_result" where
  "go_waited i cause t = Some (Finished, if fw_stopping (tn_forwards t ! i) then [] else [ReopenCheck cause], t)"

text \<open>\<open>reopen\<close>: the check, and the wait of its attempt \<open>i\<close>.\<close>

definition go_reopen :: "err \<Rightarrow> tunnel \<Rightarrow> go_result" where
  "go_reopen cause t =
     (if tn_closed t then Some (Finished, [], t)
      else Some (ReopenWait 0, [], t\<lparr>tn_log := tn_log t @ [Dropped (tn_target t) cause]\<rparr>))"

definition go_retry :: "nat \<Rightarrow> answer \<Rightarrow> tunnel \<Rightarrow> go_result" where
  "go_retry i a t = (case a of
       ContextDone _ _ \<Rightarrow> if tn_cancelled t then Some (Finished, [], t) else None
     | Elapsed \<Rightarrow> Some (OpenStart (ByReopen i), [], t)
     | _ \<Rightarrow> None)"

text \<open>\<open>Close\<close>: the locked part, the cancellation, and the stop of what was published.\<close>

definition go_close :: "tunnel \<Rightarrow> go_result" where
  "go_close t =
     (if tn_closed t then Some (Finished, [], t)
      else Some (CloseCancel (tn_stop t), [], t\<lparr>tn_closed := True, tn_stop := None\<rparr>))"

definition go_cancel :: "nat option \<Rightarrow> tunnel \<Rightarrow> go_result" where
  "go_cancel st t = Some (case st of None \<Rightarrow> Finished | Some i \<Rightarrow> CloseStop i, [], t\<lparr>tn_cancelled := True\<rparr>)"

fun go :: "goroutine \<Rightarrow> answer \<Rightarrow> tunnel \<Rightarrow> go_result" where
  "go (OpenStart og) a t = go_start og a t"
| "go (OpenAwait og i) a t = go_await og i a t"
| "go (OpenPublish og i port) a t = go_publish og i port t"
| "go (OpenStop og i) a t = Some (OpenStopped og i, [], stop_forward i t)"
| "go (OpenStopped og i) a t =
     (if fw_waited (tn_forwards t ! i) then Some (open_returns og (Some errTunnelClosed) t) else None)"
| "go (Waiting i) a t = go_wait i a t"
| "go (Waited i cause) a t = go_waited i cause t"
| "go (ReopenCheck cause) a t = go_reopen cause t"
| "go (ReopenWait i) a t = go_retry i a t"
| "go CloseLock a t = go_close t"
| "go (CloseCancel st) a t = go_cancel st t"
| "go (CloseStop i) a t = Some (CloseStopped i, [], stop_forward i t)"
| "go (CloseStopped i) a t = (if fw_waited (tn_forwards t ! i) then Some (Finished, [], t) else None)"
| "go Watchdog a t = (if tn_cancelled t then Some (CloseLock, [], t) else None)"
| "go Finished a t = None"

section \<open>The machine\<close>

type_synonym tunnel_state = "tunnel \<times> goroutine list"

text \<open>
  A step of the program: some goroutine moves, or the system kills a process that was told to die, by
  \<open>Kill\<close> or through the context its command was made with.
\<close>

inductive tunnel_go :: "tunnel_state \<Rightarrow> tunnel_state \<Rightarrow> bool" where
  moves: "\<not> tn_panicked t \<Longrightarrow> go g a t = Some (g', new, t') \<Longrightarrow>
    tunnel_go (t, xs @ g # ys) (t', xs @ g' # new @ ys)"
| killed: "i < length (tn_forwards t) \<Longrightarrow> fw_alive (tn_forwards t ! i) \<Longrightarrow> tn_cancelled t \<or> fw_killed (tn_forwards t ! i) \<Longrightarrow>
    tunnel_go (t, gs) (update_forward i (\<lambda>f. f\<lparr>fw_alive := False\<rparr>) t, gs)"

text \<open>A step of the outside: a process exits on its own, the caller's context ends, or the tunnel's owner calls \<open>Close\<close>.\<close>

inductive tunnel_outside :: "tunnel_state \<Rightarrow> tunnel_state \<Rightarrow> bool" where
  drops: "i < length (tn_forwards t) \<Longrightarrow>
    tunnel_outside (t, gs) (update_forward i (\<lambda>f. f\<lparr>fw_alive := False\<rparr>) t, gs)"
| cancels: "tunnel_outside (t, gs) (t\<lparr>tn_cancelled := True\<rparr>, gs)"
| closes: "tn_result t = Some None \<Longrightarrow> tunnel_outside (t, gs) (t, gs @ [CloseLock])"

definition tunnel_step :: "tunnel_state \<Rightarrow> tunnel_state \<Rightarrow> bool" where
  "tunnel_step s s' = (tunnel_go s s' \<or> tunnel_outside s s')"

definition tunnel_init :: "tunnel_state \<Rightarrow> bool" where
  "tunnel_init s = (\<exists>c kc ns tg r sc. s = (newTunnel c kc ns tg r sc, [OpenStart ByNew]))"

section \<open>Invariants\<close>

text \<open>The forwards whose \<open>stop\<close> a goroutine holds and may still call, and those it waits for.\<close>

fun held :: "goroutine \<Rightarrow> nat list" where
  "held (OpenAwait _ i) = [i]"
| "held (OpenPublish _ i _) = [i]"
| "held (OpenStop _ i) = [i]"
| "held (CloseCancel (Some i)) = [i]"
| "held (CloseStop i) = [i]"
| "held _ = []"

definition published :: "tunnel \<Rightarrow> nat list" where
  "published t = (case tn_stop t of None \<Rightarrow> [] | Some i \<Rightarrow> [i])"

definition holders :: "tunnel_state \<Rightarrow> nat list" where
  "holders s = published (fst s) @ concat (map held (snd s))"

fun awaited :: "goroutine \<Rightarrow> nat option" where
  "awaited (OpenStopped _ i) = Some i"
| "awaited (CloseStopped i) = Some i"
| "awaited (Waiting i) = Some i"
| "awaited (Waited i _) = Some i"
| "awaited _ = None"

text \<open>Every \<open>stop\<close> that can still be called is held once, and has not been called.\<close>

definition stops_owned :: "tunnel_state \<Rightarrow> bool" where
  "stops_owned s = (distinct (holders s) \<and> \<not> tn_panicked (fst s) \<and>
     (\<forall>i \<in> set (holders s). i < length (tn_forwards (fst s)) \<and> \<not> fw_stopping (tn_forwards (fst s) ! i)))"

definition awaits_known :: "tunnel_state \<Rightarrow> bool" where
  "awaits_known s = (\<forall>g \<in> set (snd s). \<forall>i. awaited g = Some i \<longrightarrow> i < length (tn_forwards (fst s)))"

text \<open>Every process is reaped, or some goroutine is going to reap it.\<close>

fun reaper_of :: "goroutine \<Rightarrow> nat option" where
  "reaper_of (Waiting i) = Some i"
| "reaper_of (OpenAwait _ i) = Some i"
| "reaper_of _ = None"

definition reapers :: "tunnel_state \<Rightarrow> bool" where
  "reapers s = (\<forall>i < length (tn_forwards (fst s)). fw_waited (tn_forwards (fst s) ! i) \<or> Some i \<in> reaper_of ` set (snd s))"

definition closing :: "tunnel_state \<Rightarrow> bool" where
  "closing s = ((tn_closed (fst s) \<longrightarrow> tn_stop (fst s) = None) \<and>
     (tn_result (fst s) = Some None \<longrightarrow> tn_closed (fst s) \<or> Watchdog \<in> set (snd s) \<or> CloseLock \<in> set (snd s)))"

lemmas forward_updates = update_forward_def start_forward_def stop_forward_def reap_forward_def no_port_def

lemma open_returns_frame:
  assumes "open_returns og e t = (g', new, t')"
  shows "tn_forwards t' = tn_forwards t \<and> tn_stop t' = tn_stop t \<and> tn_closed t' = tn_closed t \<and> tn_panicked t' = tn_panicked t \<and>
    held g' = [] \<and> awaited g' = None \<and> reaper_of g' = None \<and> concat (map held new) = [] \<and> (\<forall>g \<in> set new. awaited g = None) \<and>
    (tn_result t' = Some None \<longrightarrow> tn_result t = Some None \<or> Watchdog \<in> set new)"
  using assms by (cases "(og, e, t)" rule: open_returns.cases; auto split: if_splits)

lemma go_start_cases:
  assumes "go_start og a t = Some r"
  obtains (failed) e where "open_returns og (Some (OpenFailed e)) t = r"
  | (started) "\<not> tn_cancelled t" "r = (OpenAwait og (length (tn_forwards t)), [], start_forward t)"
  using assms unfolding go_start_def by (cases a) (auto split: if_splits)

lemma go_await_cases:
  assumes "go_await og i a t = Some r"
  obtains (announced) port where "r = (OpenPublish og i port, [Waiting i], t)"
  | (failed) e where "open_returns og (Some (OpenFailed e)) (reap_forward i t) = r"
  using assms unfolding go_await_def no_port_def by (cases a) (auto split: if_splits sum.splits)

lemmas go_defs = go_publish_def go_waited_def go_reopen_def go_close_def go_cancel_def

lemma go_wait_cases:
  assumes "go_wait i a t = Some r"
  obtains (exited) e where "\<not> fw_alive (tn_forwards t ! i)" "r = (Waited i e, [], update_forward i (\<lambda>f. f\<lparr>fw_waited := True\<rparr>) t)"
  using assms unfolding go_wait_def by (cases a) (auto split: if_splits)

lemma go_retry_cases:
  assumes "go_retry i a t = Some r"
  obtains (ended) "tn_cancelled t" "r = (Finished, [], t)" | (again) "r = (OpenStart (ByReopen i), [], t)"
  using assms unfolding go_retry_def by (cases a) (auto split: if_splits)

text \<open>What a move does to the held stops: it gives some up, calling one or not, or it starts a forward.\<close>

definition gives_up :: "tunnel \<Rightarrow> goroutine \<Rightarrow> tunnel \<Rightarrow> goroutine list \<Rightarrow> bool" where
  "gives_up t g t' gs' = (mset (published t' @ concat (map held gs')) \<subseteq># mset (published t @ held g) \<and>
     length (tn_forwards t') = length (tn_forwards t) \<and>
     (\<forall>i < length (tn_forwards t). fw_stopping (tn_forwards t' ! i) \<longrightarrow> fw_stopping (tn_forwards t ! i) \<or>
        held g = [i] \<and> concat (map held gs') = [] \<and> published t' = published t))"

definition takes_new :: "tunnel \<Rightarrow> goroutine \<Rightarrow> tunnel \<Rightarrow> goroutine list \<Rightarrow> bool" where
  "takes_new t g t' gs' = (\<exists>f. published t' = published t \<and> held g = [] \<and> concat (map held gs') = [length (tn_forwards t)] \<and>
     tn_forwards t' = tn_forwards t @ [f] \<and> \<not> fw_stopping f)"

lemma nth_update_keeps: "(\<And>x. A (f x) = A x) \<Longrightarrow> A (xs[i := f (xs ! i)] ! j) = A (xs ! j)"
  by (cases "i < length xs") (auto simp: nth_list_update list_update_beyond not_less)

lemma go_stops:
  assumes "go g a t = Some (g', new, t')" "\<not> tn_panicked t"
    "\<forall>i \<in> set (held g). i < length (tn_forwards t) \<and> \<not> fw_stopping (tn_forwards t ! i)"
  shows "\<not> tn_panicked t' \<and> (gives_up t g t' (g' # new) \<or> takes_new t g t' (g' # new))"
proof (cases g)
  case (OpenStart og)
  with assms(1) have "go_start og a t = Some (g', new, t')" by simp
  then show ?thesis
  proof (cases rule: go_start_cases)
    case (failed e)
    from open_returns_frame [OF failed] assms(2) show ?thesis by (simp add: OpenStart gives_up_def published_def)
  next
    case started
    then show ?thesis using assms(2) by (auto simp: OpenStart takes_new_def published_def start_forward_def)
  qed
next
  case (OpenAwait og i)
  with assms(1) have "go_await og i a t = Some (g', new, t')" by simp
  then show ?thesis
  proof (cases rule: go_await_cases)
    case (announced port)
    then show ?thesis using assms(2) by (simp add: OpenAwait gives_up_def published_def)
  next
    case (failed e)
    note r = open_returns_frame [OF failed]
    then have "concat (map held new) = []" by blast
    with r assms(2) show ?thesis
      by (auto simp: OpenAwait gives_up_def published_def reap_forward_def update_forward_def nth_list_update simp del: concat_eq_Nil_conv)
  qed
next
  case (OpenPublish og i port)
  then show ?thesis using assms
    by (auto simp: go_defs gives_up_def published_def dest!: open_returns_frame simp del: concat_eq_Nil_conv split: if_splits)
next
  case (OpenStopped og i)
  then show ?thesis using assms by (auto simp: gives_up_def published_def dest!: open_returns_frame split: if_splits)
next
  case (Waiting i)
  with assms(1) have "go_wait i a t = Some (g', new, t')" by simp
  then show ?thesis
    by (cases rule: go_wait_cases) (use assms(2) in \<open>simp add: Waiting gives_up_def published_def update_forward_def nth_update_keeps\<close>)
next
  case (ReopenWait i)
  with assms(1) have "go_retry i a t = Some (g', new, t')" by simp
  then show ?thesis by (cases rule: go_retry_cases) (use assms(2) in \<open>simp_all add: ReopenWait gives_up_def published_def\<close>)
next
  case (CloseCancel st)
  with assms show ?thesis by (cases st) (auto simp: go_defs gives_up_def published_def)
qed (use assms in \<open>auto simp: go_defs gives_up_def published_def stop_forward_def update_forward_def nth_list_update
      split: if_splits option.splits\<close>)

lemma distinct_sub_mset: "mset ys \<subseteq># mset xs \<Longrightarrow> distinct xs \<Longrightarrow> distinct ys"
proof -
  assume "mset ys \<subseteq># mset xs" "distinct xs"
  then obtain zs where "mset xs = mset (ys @ zs)" by (metis ex_mset mset_append mset_subset_eq_exists_conv)
  then show ?thesis using \<open>distinct xs\<close> mset_eq_imp_distinct_iff [of xs "ys @ zs"] by simp
qed

lemma owned_subset:
  assumes "mset (P' @ G) \<subseteq># mset (P @ H)" "distinct (P @ H @ R)" "\<forall>i \<in> set (P @ H @ R). i < n \<and> \<not> A i"
    and "\<forall>i < n. B i \<longrightarrow> A i \<or> H = [i] \<and> G = [] \<and> P' = P"
  shows "distinct (P' @ G @ R) \<and> (\<forall>i \<in> set (P' @ G @ R). i < n \<and> \<not> B i)"
proof -
  have sub: "mset (P' @ G @ R) \<subseteq># mset (P @ H @ R)" using assms(1) by simp
  then have "set (P' @ G @ R) \<subseteq> set (P @ H @ R)" by (metis set_mset_mono set_mset_mset)
  moreover have False if i: "i \<in> set (P' @ G @ R)" "i \<in> set (P @ H @ R)" "B i" for i
  proof -
    have "H = [i] \<and> G = [] \<and> P' = P" using assms(3,4) i(2,3) by blast
    then show False using assms(2) i(1) by auto
  qed
  ultimately have "\<forall>i \<in> set (P' @ G @ R). i < n \<and> \<not> B i" using assms(3) by blast
  with distinct_sub_mset [OF sub assms(2)] show ?thesis by blast
qed

lemma owned_fresh:
  assumes "distinct (P @ R)" "\<forall>i \<in> set (P @ R). i < length F \<and> \<not> A (F ! i)" "\<not> A f"
  shows "distinct (P @ [length F] @ R) \<and> (\<forall>i \<in> set (P @ [length F] @ R). i < length (F @ [f]) \<and> \<not> A ((F @ [f]) ! i))"
  using assms by (auto simp: nth_append intro: less_SucI)

lemma stops_owned_parts:
  "stops_owned (t, xs @ gs @ ys) = (\<not> tn_panicked t \<and>
     distinct (published t @ concat (map held gs) @ concat (map held xs) @ concat (map held ys)) \<and>
     (\<forall>i \<in> set (published t @ concat (map held gs) @ concat (map held xs) @ concat (map held ys)).
        i < length (tn_forwards t) \<and> \<not> fw_stopping (tn_forwards t ! i)))"
proof -
  have "distinct (p @ x @ g @ y) = distinct (p @ g @ x @ y) \<and> set (p @ x @ g @ y) = set (p @ g @ x @ y)" for p x g y :: "nat list"
    by auto
  from this [of "published t" "concat (map held xs)" "concat (map held gs)" "concat (map held ys)"] show ?thesis
    unfolding stops_owned_def holders_def fst_conv snd_conv map_append concat_append by metis
qed

text \<open>A state in which the moved goroutine has been replaced by what it became and started.\<close>

lemma go_stops_owned:
  assumes "go g a t = Some (g', new, t')" "stops_owned (t, xs @ g # ys)"
  shows "stops_owned (t', xs @ g' # new @ ys)"
proof -
  let ?rest = "concat (map held xs) @ concat (map held ys)" and ?got = "concat (map held (g' # new))"
  have own: "distinct (published t @ held g @ ?rest)" "\<not> tn_panicked t"
    "\<forall>i \<in> set (published t @ held g @ ?rest). i < length (tn_forwards t) \<and> \<not> fw_stopping (tn_forwards t ! i)"
    using assms(2) stops_owned_parts [of t xs "[g]" ys] by simp_all
  have "\<not> tn_panicked t'" and "gives_up t g t' (g' # new) \<or> takes_new t g t' (g' # new)"
    using go_stops [OF assms(1) own(2)] own(3) by auto
  moreover have "distinct (published t' @ ?got @ ?rest) \<and>
      (\<forall>i \<in> set (published t' @ ?got @ ?rest). i < length (tn_forwards t') \<and> \<not> fw_stopping (tn_forwards t' ! i))"
    if "gives_up t g t' (g' # new)"
  proof -
    have len: "length (tn_forwards t') = length (tn_forwards t)" using that unfolding gives_up_def by blast
    show ?thesis unfolding len by (rule owned_subset [OF _ own(1,3)]) (use that in \<open>unfold gives_up_def, blast+\<close>)
  qed
  moreover have "distinct (published t' @ ?got @ ?rest) \<and>
      (\<forall>i \<in> set (published t' @ ?got @ ?rest). i < length (tn_forwards t') \<and> \<not> fw_stopping (tn_forwards t' ! i))"
    if new: "takes_new t g t' (g' # new)"
  proof -
    obtain f where f: "published t' = published t" "held g = []" "?got = [length (tn_forwards t)]"
      "tn_forwards t' = tn_forwards t @ [f]" "\<not> fw_stopping f"
      using new unfolding takes_new_def by blast
    show ?thesis using owned_fresh [of "published t" ?rest "tn_forwards t" fw_stopping f] own(1,3) f(2,5) unfolding f(1,3,4) by simp
  qed
  ultimately show ?thesis using stops_owned_parts [of t' xs "g' # new" ys] by (metis append_Cons)
qed

lemma go_awaits_known:
  assumes "go g a t = Some (g', new, t')" "stops_owned (t, xs @ g # ys)" "awaits_known (t, xs @ g # ys)"
  shows "awaits_known (t', xs @ g' # new @ ys)"
proof -
  have "\<not> tn_panicked t" "\<forall>i \<in> set (held g). i < length (tn_forwards t) \<and> \<not> fw_stopping (tn_forwards t ! i)"
    using assms(2) by (auto simp: stops_owned_def holders_def)
  from go_stops [OF assms(1) this] have len: "length (tn_forwards t) \<le> length (tn_forwards t')"
    by (auto simp: gives_up_def takes_new_def)
  have "\<forall>h \<in> set (g' # new). \<forall>i. awaited h = Some i \<longrightarrow> i \<in> set (held g) \<or> awaited g = Some i"
    using assms(1)
    by (cases g) (auto simp: go_defs dest!: open_returns_frame elim!: go_start_cases go_await_cases go_wait_cases go_retry_cases
        split: if_splits option.splits)
  moreover have "i < length (tn_forwards t)" if "i \<in> set (held g) \<or> awaited g = Some i" for i
    using that assms(2,3) by (auto simp: stops_owned_def holders_def awaits_known_def)
  ultimately show ?thesis using assms(3) len unfolding awaits_known_def by fastforce
qed

lemma go_reaps:
  assumes "go g a t = Some (g', new, t')" "i < length (tn_forwards t')" "\<not> fw_waited (tn_forwards t' ! i)"
  shows "Some i \<in> reaper_of ` set (g' # new) \<or>
    i < length (tn_forwards t) \<and> \<not> fw_waited (tn_forwards t ! i) \<and> reaper_of g \<noteq> Some i"
proof (cases g)
  case (OpenStart og)
  with assms(1) have "go_start og a t = Some (g', new, t')" by simp
  then show ?thesis
    by (cases rule: go_start_cases)
      (use assms(2,3) in \<open>auto simp: OpenStart start_forward_def nth_append less_Suc_eq dest!: open_returns_frame split: if_splits\<close>)
next
  case (OpenAwait og j)
  with assms(1) have "go_await og j a t = Some (g', new, t')" by simp
  then show ?thesis
  proof (cases rule: go_await_cases)
    case (failed e)
    from open_returns_frame [OF failed] have "tn_forwards t' = tn_forwards (reap_forward j t)" by blast
    then show ?thesis using assms(2,3) by (cases "i = j") (simp_all add: OpenAwait reap_forward_def update_forward_def)
  qed (use assms(2,3) in \<open>auto simp: OpenAwait\<close>)
next
  case (Waiting j)
  with assms(1) have "go_wait j a t = Some (g', new, t')" by simp
  then show ?thesis
    by (cases rule: go_wait_cases; cases "i = j") (use assms(2,3) in \<open>simp_all add: Waiting update_forward_def\<close>)
next
  case (ReopenWait j)
  with assms(1) have "go_retry j a t = Some (g', new, t')" by simp
  then show ?thesis by (cases rule: go_retry_cases) (use assms(2,3) in \<open>simp_all add: ReopenWait\<close>)
next
  case (OpenStop og j)
  then show ?thesis using assms
    by (cases "i = j") (auto simp: stop_forward_def update_forward_def split: if_splits)
next
  case (CloseStop j)
  then show ?thesis using assms
    by (cases "i = j") (auto simp: stop_forward_def update_forward_def split: if_splits)
qed (use assms in \<open>auto simp: go_defs dest!: open_returns_frame split: if_splits option.splits\<close>)

lemma go_reapers:
  assumes "go g a t = Some (g', new, t')" "reapers (t, xs @ g # ys)"
  shows "reapers (t', xs @ g' # new @ ys)"
  unfolding reapers_def fst_conv snd_conv
proof (intro allI impI)
  fix i assume i: "i < length (tn_forwards t')"
  show "fw_waited (tn_forwards t' ! i) \<or> Some i \<in> reaper_of ` set (xs @ g' # new @ ys)"
  proof (cases "fw_waited (tn_forwards t' ! i)")
    case False
    from go_reaps [OF assms(1) i False] assms(2) show ?thesis unfolding reapers_def by fastforce
  qed simp
qed

lemma go_closing:
  assumes "go g a t = Some (g', new, t')" "closing (t, xs @ g # ys)"
  shows "closing (t', xs @ g' # new @ ys)"
  using assms
  by (cases g) (auto simp: go_defs closing_def forward_updates
      dest!: open_returns_frame elim!: go_start_cases go_await_cases go_wait_cases go_retry_cases split: if_splits option.splits)

text \<open>The constructor is under way until it has a result.\<close>

fun by_new :: "goroutine \<Rightarrow> bool" where
  "by_new (OpenStart og) = (og = ByNew)"
| "by_new (OpenAwait og _) = (og = ByNew)"
| "by_new (OpenPublish og _ _) = (og = ByNew)"
| "by_new (OpenStop og _) = (og = ByNew)"
| "by_new (OpenStopped og _) = (og = ByNew)"
| "by_new _ = False"

definition constructing :: "tunnel_state \<Rightarrow> bool" where
  "constructing s = (tn_result (fst s) = None \<longrightarrow> list_ex by_new (snd s))"

lemma open_returns_result: "open_returns og e t = (g', new, t') \<Longrightarrow> tn_result t' = None \<Longrightarrow> tn_result t = None \<and> og \<noteq> ByNew"
  by (cases "(og, e, t)" rule: open_returns.cases) (auto split: if_splits)

lemma go_result:
  assumes "go g a t = Some (g', new, t')" "tn_result t' = None"
  shows "tn_result t = None \<and> (by_new g \<longrightarrow> by_new g')"
  using assms
  by (cases g) (auto simp: go_defs forward_updates dest!: open_returns_result
      elim!: go_start_cases go_await_cases go_wait_cases go_retry_cases split: if_splits option.splits)

definition tunnel_inv :: "tunnel_state \<Rightarrow> bool" where
  "tunnel_inv s = (stops_owned s \<and> awaits_known s \<and> reapers s \<and> closing s \<and> constructing s)"

lemma go_inv:
  assumes "go g a t = Some (g', new, t')" "tunnel_inv (t, xs @ g # ys)"
  shows "tunnel_inv (t', xs @ g' # new @ ys)"
proof -
  have "constructing (t', xs @ g' # new @ ys)"
    using go_result [OF assms(1)] assms(2) by (auto simp: tunnel_inv_def constructing_def)
  then show ?thesis
    using assms(2) go_stops_owned [OF assms(1)] go_awaits_known [OF assms(1)] go_reapers [OF assms(1)] go_closing [OF assms(1)]
    unfolding tunnel_inv_def by blast
qed

lemma exits_inv:
  assumes "tunnel_inv (t, gs)"
  shows "tunnel_inv (update_forward i (\<lambda>f. f\<lparr>fw_alive := False\<rparr>) t, gs)"
  using assms
  by (simp add: tunnel_inv_def stops_owned_def awaits_known_def reapers_def closing_def constructing_def holders_def published_def
      update_forward_def nth_update_keeps)

lemma tunnel_go_inv: "tunnel_inv s \<Longrightarrow> tunnel_go s s' \<Longrightarrow> tunnel_inv s'"
  by (erule tunnel_go.cases) (auto intro: go_inv exits_inv)

lemma tunnel_outside_inv: "tunnel_inv s \<Longrightarrow> tunnel_outside s s' \<Longrightarrow> tunnel_inv s'"
  by (erule tunnel_outside.cases)
    (auto simp: exits_inv, auto simp: tunnel_inv_def stops_owned_def awaits_known_def reapers_def closing_def constructing_def
      holders_def published_def)

interpretation tunnel: inductive_invariant tunnel_init tunnel_step tunnel_inv
proof
  show "tunnel_init s \<Longrightarrow> tunnel_inv s" for s
    by (auto simp: tunnel_init_def newTunnel_def tunnel_inv_def stops_owned_def awaits_known_def reapers_def closing_def
        constructing_def holders_def published_def)
qed (auto simp: tunnel_step_def intro: tunnel_go_inv tunnel_outside_inv)

section \<open>Winding down\<close>

text \<open>An upper bound on the steps a goroutine of a cancelled tunnel has left, with those it may start.\<close>

definition retries :: "nat \<Rightarrow> nat" where
  "retries i = 20 * (tunnelReopenAttempts - i) + 3"

fun return_cost :: "origin \<Rightarrow> nat" where
  "return_cost ByNew = 5"
| "return_cost (ByReopen i) = (if Suc i < tunnelReopenAttempts then retries (Suc i) else 0)"

definition waiting_cost :: nat where
  "waiting_cost = retries 0 + 3"

fun cost :: "goroutine \<Rightarrow> nat" where
  "cost (OpenStart og) = return_cost og + 1"
| "cost (OpenAwait og _) = return_cost og + 4 + waiting_cost"
| "cost (OpenPublish og _ _) = return_cost og + 3"
| "cost (OpenStop og _) = return_cost og + 2"
| "cost (OpenStopped og _) = return_cost og + 1"
| "cost (Waiting _) = waiting_cost"
| "cost (Waited _ _) = retries 0 + 2"
| "cost (ReopenCheck _) = retries 0 + 1"
| "cost (ReopenWait i) = retries i"
| "cost CloseLock = 4"
| "cost (CloseCancel _) = 3"
| "cost (CloseStop _) = 2"
| "cost (CloseStopped _) = 1"
| "cost Watchdog = 5"
| "cost Finished = 0"

definition tunnel_work :: "tunnel_state \<Rightarrow> nat" where
  "tunnel_work s = sum_list (map cost (snd s)) + length (filter fw_alive (tn_forwards (fst s)))"

lemma alive_update:
  "(fw_alive y \<Longrightarrow> fw_alive (xs ! i)) \<Longrightarrow> length (filter fw_alive (xs[i := y])) \<le> length (filter fw_alive xs)"
  by (induction xs arbitrary: i) (auto split: nat.splits intro: le_SucI)

lemma open_returns_cost:
  "open_returns og e t = (g', new, t') \<Longrightarrow> cost g' + sum_list (map cost new) \<le> return_cost og \<and> (tn_cancelled t \<longrightarrow> tn_cancelled t')"
  by (cases "(og, e, t)" rule: open_returns.cases) (auto split: if_splits)

lemma go_cost:
  assumes "go g a t = Some (g', new, t')" "tn_cancelled t"
  shows "cost g' + sum_list (map cost new) < cost g \<and> tn_cancelled t'"
  using assms
  by (cases g) (auto simp: go_defs forward_updates waiting_cost_def retries_def tunnelReopenAttempts_def dest!: open_returns_cost
      elim!: go_start_cases go_await_cases go_wait_cases go_retry_cases split: if_splits option.splits)

lemma go_alive:
  assumes "go g a t = Some (g', new, t')" "tn_cancelled t"
  shows "length (filter fw_alive (tn_forwards t')) \<le> length (filter fw_alive (tn_forwards t))"
  using assms
  by (cases g) (auto simp: go_defs forward_updates dest!: open_returns_frame intro!: alive_update
      elim!: go_start_cases go_await_cases go_wait_cases go_retry_cases split: if_splits option.splits)

lemma tunnel_go_work:
  assumes "tunnel_go s s'" "tn_cancelled (fst s)"
  shows "tunnel_work s' < tunnel_work s \<and> tn_cancelled (fst s')"
  using assms(1)
proof cases
  case (moves t g a g' new t' xs ys)
  with assms(2) show ?thesis using go_cost [OF moves(4)] go_alive [OF moves(4)] by (simp add: tunnel_work_def)
next
  case (killed i t gs)
  have "length (filter fw_alive ((tn_forwards t)[i := (tn_forwards t ! i)\<lparr>fw_alive := False\<rparr>])) < length (filter fw_alive (tn_forwards t))"
    using killed(3,4) by (subst (2) id_take_nth_drop [OF killed(3)], subst upd_conv_take_nth_drop [OF killed(3)]) simp
  then show ?thesis using killed assms(2) by (simp add: tunnel_work_def update_forward_def)
qed

interpretation wind_down: terminating_machine tunnel_go "\<lambda>s. tunnel_inv s \<and> tn_cancelled (fst s)" tunnel_work
  by unfold_locales (use tunnel_go_inv tunnel_go_work in blast)+

text \<open>Whatever a goroutine of a cancelled tunnel waits for comes, once the processes are dead.\<close>

lemma go_enabled:
  assumes "tn_cancelled t" "g \<noteq> Finished" "\<And>i. awaited g = Some i \<Longrightarrow> \<not> fw_alive (tn_forwards t ! i)"
    and "\<And>i. awaited g = Some i \<Longrightarrow> reaper_of g = None \<Longrightarrow> fw_waited (tn_forwards t ! i)"
  shows "\<exists>a. go g a t \<noteq> None"
proof (cases g)
  case (OpenStart og)
  have "go g (StartFails (NewError [])) t \<noteq> None" by (simp add: OpenStart go_start_def)
  then show ?thesis ..
next
  case (OpenAwait og i)
  have "go g (ReadyTimeout []) t \<noteq> None" by (simp add: OpenAwait go_await_def)
  then show ?thesis ..
next
  case (Waiting i)
  have "go g (Exited [] []) t \<noteq> None" using assms(3) by (simp add: Waiting go_wait_def)
  then show ?thesis ..
next
  case (ReopenWait i)
  have "go g Elapsed t \<noteq> None" by (simp add: ReopenWait go_retry_def)
  then show ?thesis ..
qed (use assms in \<open>simp_all add: go_defs del: not_None_eq\<close>)

definition wound_down :: "tunnel_state \<Rightarrow> bool" where
  "wound_down s = (list_all (\<lambda>g. g = Finished) (snd s) \<and> list_all (\<lambda>f. \<not> fw_alive f \<and> fw_waited f) (tn_forwards (fst s)) \<and>
     tn_result (fst s) \<noteq> None \<and> (tn_result (fst s) = Some None \<longrightarrow> tn_closed (fst s)))"

lemma at_rest_wound_down:
  assumes "tunnel_inv (t, gs)" "tn_cancelled t" "\<And>s. \<not> tunnel_go (t, gs) s"
  shows "wound_down (t, gs)"
proof -
  have inv: "\<not> tn_panicked t" "awaits_known (t, gs)" "reapers (t, gs)" "closing (t, gs)" "constructing (t, gs)"
    using assms(1) by (auto simp: tunnel_inv_def stops_owned_def)
  have dead: "\<not> fw_alive (tn_forwards t ! i)" if "i < length (tn_forwards t)" for i
    using assms(3) tunnel_go.killed [OF that _ disjI1 [OF assms(2)]] by blast
  have stuck: "go g a t = None" if g: "g \<in> set gs" for g a
  proof (rule ccontr)
    assume "go g a t \<noteq> None"
    then obtain g' new t' where "go g a t = Some (g', new, t')" by auto
    moreover obtain xs ys where "gs = xs @ g # ys" using g by (meson split_list)
    ultimately show False using assms(3) tunnel_go.moves [OF inv(1)] by blast
  qed
  have known: "i < length (tn_forwards t)" if "g \<in> set gs" "awaited g = Some i" for g i
    using inv(2) that by (auto simp: awaits_known_def)
  have no_reaper: "reaper_of g = None" if "g \<in> set gs" for g
  proof (rule ccontr)
    assume "reaper_of g \<noteq> None"
    then have "awaited g = None \<or> reaper_of g = awaited g" "g \<noteq> Finished" by (cases g; simp)+
    with go_enabled [OF assms(2), of g] stuck [OF that] known [OF that] dead \<open>reaper_of g \<noteq> None\<close> show False by fastforce
  qed
  have waited: "fw_waited (tn_forwards t ! i)" if "i < length (tn_forwards t)" for i
    using inv(3) that no_reaper by (force simp: reapers_def)
  have fin: "g = Finished" if "g \<in> set gs" for g
    using go_enabled [OF assms(2), of g] stuck [OF that] known [OF that] dead waited by fastforce
  then have "list_all (\<lambda>g. g = Finished) gs" by (simp add: list_all_iff)
  moreover have "tn_result t \<noteq> None" "tn_result t = Some None \<longrightarrow> tn_closed t"
    using inv(4,5) fin by (fastforce simp: closing_def constructing_def list_ex_iff)+
  ultimately show ?thesis using dead waited by (simp add: wound_down_def list_all_length)
qed

text \<open>
  C30. A forward is stopped at most once, and never missed by \<open>Close\<close>. In every interleaving of the
  constructor, reconnects, waiting goroutines, the watchdog and callers of \<open>Close\<close>, no \<open>stop\<close> is called twice --
  its second call would close a closed channel and panic -- every \<open>stop\<close> that can still be called
  has a single owner, and once \<open>Close\<close> has taken the published forward none is ever published again.
\<close>

theorem forwards_are_stopped_once:
  assumes "reachable tunnel_init tunnel_step (t, gs)"
  shows "\<not> tn_panicked t \<and> distinct (holders (t, gs)) \<and> (\<forall>i \<in> set (holders (t, gs)). \<not> fw_stopping (tn_forwards t ! i)) \<and>
    (tn_closed t \<longrightarrow> tn_stop t = None)"
  using tunnel.always [OF assms] by (simp add: tunnel_inv_def stops_owned_def closing_def)

text \<open>
  C31. A cancelled tunnel winds down and leaves no \<^verbatim>\<open>kubectl\<close> behind. From any reachable state whose
  context is cancelled -- by a signal, by \<open>Close\<close> or by a failed constructor -- the goroutines can take only a bounded number of steps, however they
  interleave, and when none can move every goroutine has finished, every process is dead and reaped, and a
  tunnel that was handed out is closed.
\<close>

theorem cancelled_tunnel_winds_down:
  assumes "reachable tunnel_init tunnel_step s" "tn_cancelled (fst s)"
  shows "(\<forall>n s'. (tunnel_go ^^ n) s s' \<longrightarrow> n \<le> tunnel_work s) \<and>
    (\<exists>s'. tunnel_go\<^sup>*\<^sup>* s s' \<and> (\<forall>s''. \<not> tunnel_go s' s'')) \<and>
    (\<forall>s'. tunnel_go\<^sup>*\<^sup>* s s' \<longrightarrow> (\<forall>s''. \<not> tunnel_go s' s'') \<longrightarrow> wound_down s')"
proof -
  have inv: "tunnel_inv s \<and> tn_cancelled (fst s)" using tunnel.always [OF assms(1)] assms(2) by blast
  have "n \<le> tunnel_work s" if "(tunnel_go ^^ n) s s'" for n s' using wind_down.steps_bounded [OF that inv] by simp
  moreover have "wound_down s'" if "tunnel_go\<^sup>*\<^sup>* s s'" "\<forall>s''. \<not> tunnel_go s' s''" for s'
    using wind_down.inv_later [OF that(1) inv] that(2) by (cases s') (auto intro: at_rest_wound_down)
  ultimately show ?thesis using wind_down.comes_to_rest [OF inv] by blast
qed

text \<open>A tunnel that came up on port 54321, whose process then dropped, and whose owner closed it while it reconnected.\<close>

definition demo_tunnel :: tunnel where
  "demo_tunnel = newTunnel False ''kubeconfig'' ''proxy'' ''svc/kop'' 443 ''https''"

definition demo_open :: tunnel where
  "demo_open = (start_forward demo_tunnel)\<lparr>tn_port := 54321, tn_stop := Some 0, tn_result := Some None\<rparr>"

lemma demo_announced: "readForwardedPort [''Handling'', ''Forwarding from 127.0.0.1:54321 -> 8443''] None = Inr 54321"
  by (simp add: forwardedPort_def has_prefix_def is_digit_def atoi_def Let_def)

lemma first_moves:
  assumes "reachable tunnel_init tunnel_step (t, g # ys)" "\<not> tn_panicked t" "go g a t = Some (g', new, t')"
  shows "reachable tunnel_init tunnel_step (t', g' # new @ ys)"
  using reach_step [OF assms(1)] tunnel_go.moves [OF assms(2,3), of "[]" ys] by (simp add: tunnel_step_def)

lemma demo_open_reachable: "reachable tunnel_init tunnel_step (demo_open, [Finished, Watchdog, Waiting 0])"
proof -
  have "reachable tunnel_init tunnel_step (demo_tunnel, [OpenStart ByNew])"
    by (rule reach_init) (unfold tunnel_init_def demo_tunnel_def, blast)
  then have "reachable tunnel_init tunnel_step (start_forward demo_tunnel, OpenAwait ByNew 0 # [] @ [])"
    by (rule first_moves [where a = Proceed]) (simp_all add: go_start_def demo_tunnel_def newTunnel_def)
  then have "reachable tunnel_init tunnel_step (start_forward demo_tunnel, OpenAwait ByNew 0 # [])" by simp
  then have "reachable tunnel_init tunnel_step (start_forward demo_tunnel, OpenPublish ByNew 0 54321 # [Waiting 0] @ [])"
    by (rule first_moves [where a = "Stdout [''Handling'', ''Forwarding from 127.0.0.1:54321 -> 8443''] None []"])
      (simp_all add: go_await_def demo_announced demo_tunnel_def newTunnel_def start_forward_def del: readForwardedPort.simps)
  then have "reachable tunnel_init tunnel_step (start_forward demo_tunnel, OpenPublish ByNew 0 54321 # [Waiting 0])" by simp
  then have "reachable tunnel_init tunnel_step (demo_open, Finished # [Watchdog] @ [Waiting 0])"
    by (rule first_moves) (simp_all add: go_publish_def demo_open_def demo_tunnel_def newTunnel_def start_forward_def)
  then show ?thesis by simp
qed

theorem forwards_are_stopped_once_witness:
  "\<not> tn_panicked demo_open \<and> holders (demo_open, [Finished, Watchdog, Waiting 0]) = [0] \<and> \<not> fw_stopping (tn_forwards demo_open ! 0)"
  using forwards_are_stopped_once [OF demo_open_reachable]
  by (simp add: holders_def published_def demo_open_def)

theorem cancelled_tunnel_winds_down_witness:
  "\<exists>s'. tunnel_go\<^sup>*\<^sup>* (demo_open\<lparr>tn_cancelled := True\<rparr>, [Finished, Watchdog, Waiting 0]) s' \<and> wound_down s'"
proof -
  have "reachable tunnel_init tunnel_step (demo_open\<lparr>tn_cancelled := True\<rparr>, [Finished, Watchdog, Waiting 0])"
    by (rule reach_step [OF demo_open_reachable]) (simp add: tunnel_step_def tunnel_outside.cancels)
  from cancelled_tunnel_winds_down [OF this] show ?thesis by fastforce
qed

end
