(* ===== verification/LoadGen.thy ===== *)
theory LoadGen
  imports Tunnel
begin

text \<open>
  The load generator (\<^verbatim>\<open>hack/metrics-demo/load/main.go\<close>) above its tunnels: one scenario per kind of traffic,
  each made of calls with an expected status, run once as a test or in rotation for a while. What
  is outside -- the deployed proxy, the cluster, \<^verbatim>\<open>client-go\<close>, the clock, the signing of tokens and the parser of the
  exposition -- is the record \<open>load_env\<close> over a state \<open>'s\<close> nobody looks into. Counter values are the integers they count,
  so the format \<^verbatim>\<open>%.0f\<close> prints one. The loops without a bound of their own are partial functions, and that they return is proved.

  Shown: a run of \<^verbatim>\<open>--once\<close> succeeds exactly when every call behaved, the coalescing scenario returns
  after at most three bursts and passes only on evidence of shared reviews, the command returns and closes
  every tunnel it opened, and what the generator repeats of the proxy agrees with it.
\<close>

section \<open>What is outside\<close>

datatype load_log =
    LogCall string int int bool "string option"
  | LogBurst string nat nat int int
  | LogAllExpected nat nat
  | LogCallFailed string string
  | LogFinished int

record sample =
  sm_Name :: string
  sm_Labels :: "(string \<times> string) list"
  sm_Value :: int

record load_request =
  lr_Method :: string
  lr_URL :: string
  lr_Header :: header

record pod =
  pd_Name :: string
  pd_Running :: bool
  pd_Containers :: "(string \<times> int) list list"

datatype json = JString string | JStrings "string list" | JInt int

record 's lstate =
  ls_out :: 's
  ls_log :: "load_log list"
  ls_tunnels :: "nat list"

text \<open>
  \<open>le_After d\<close> is the select between the context and \<open>time.After d\<close>: the context's error, or \<open>None\<close> when
  the time has passed. \<open>le_order\<close> is the order in which released goroutines do their calls.
\<close>

record 's load_env =
  le_now :: "'s \<Rightarrow> int"
  le_After :: "int \<Rightarrow> 's \<Rightarrow> err option \<times> 's"
  le_NewRequest :: "string \<Rightarrow> string \<Rightarrow> err option"
  le_Do :: "load_request \<Rightarrow> 's \<Rightarrow> (err + int \<times> string) \<times> 's"
  le_order :: "'s \<Rightarrow> nat list"
  le_ParseMetrics :: "string \<Rightarrow> err + sample list"
  le_NewTokenPayloadForIdentity :: "string \<Rightarrow> string list \<Rightarrow> int \<Rightarrow> err + string"
  le_Marshal :: "(string \<times> json) list \<Rightarrow> err + string"
  le_SignToken :: "string \<Rightarrow> err + string"
  le_CreateToken :: "'s \<Rightarrow> (err + string) \<times> 's"
  le_Watch :: "string \<Rightarrow> 's \<Rightarrow> err option \<times> 's"
  le_Exec :: "string \<Rightarrow> 's \<Rightarrow> err option \<times> 's"
  le_Format :: "int \<Rightarrow> string"
  le_URL :: "nat \<Rightarrow> 's \<Rightarrow> string"
  le_Pods :: "'s \<Rightarrow> (err + pod list) \<times> 's"
  le_newTunnel :: "string \<Rightarrow> int \<Rightarrow> string \<Rightarrow> 's \<Rightarrow> (err + nat) \<times> 's"
  le_Close :: "nat \<Rightarrow> 's \<Rightarrow> 's"
  le_loadState :: "err option"
  le_newGenerator :: "err option"

definition on_out :: "('s \<Rightarrow> 'a \<times> 's) \<Rightarrow> 's lstate \<Rightarrow> 'a \<times> 's lstate" where
  "on_out f s = (let (x, o1) = f (ls_out s) in (x, s\<lparr>ls_out := o1\<rparr>))"

definition log_load :: "load_log \<Rightarrow> 's lstate \<Rightarrow> 's lstate" where
  "log_load r s = s\<lparr>ls_log := ls_log s @ [r]\<rparr>"

section \<open>The generator\<close>

text \<open>A pinned replica: its name and the tunnels to its proxy port and to its metrics port.\<close>

record pinnedPod =
  pp_name :: string
  pp_proxy :: nat
  pp_metrics :: nat

record generator =
  ge_namespace :: string
  ge_tunnel :: nat
  ge_pinned :: pinnedPod
  ge_issuerURL :: string

definition demoUser :: string where "demoUser = ''user@example.com''"
definition demoClientID :: string where "demoClientID = ''kube-oidc-proxy''"
definition demoPod :: string where "demoPod = ''demo-shell''"
definition impersonated :: string where "impersonated = ''jjackson''"
definition notImpersonated :: string where "notImpersonated = ''mallory''"
definition cacheWarmCalls :: nat where "cacheWarmCalls = 3"
definition coalesceCalls :: nat where "coalesceCalls = 8"
definition coalesceAttempts :: nat where "coalesceAttempts = 3"
definition sarCacheTTL :: int where "sarCacheTTL = seconds 10"
definition metricDecisions :: string where "metricDecisions = ''kube_oidc_proxy_access_decisions_total''"
definition metricReviewCalls :: string where "metricReviewCalls = ''kube_oidc_proxy_review_requests_total''"
definition metricCacheLookups :: string where "metricCacheLookups = ''kube_oidc_proxy_cache_lookups_total''"
definition hostileMethodCount :: nat where "hostileMethodCount = 9"
definition statusNone :: int where "statusNone = 0"

text \<open>One exchange: what it was, what came back and what was expected.\<close>

record result =
  re_kind :: string
  re_want :: int
  re_status :: int
  re_duration :: int
  re_err :: "err option"

definition result_ok :: "result \<Rightarrow> bool" where
  "result_ok r = (re_err r = None \<and> re_status r = re_want r)"

type_synonym 's call = "'s lstate \<Rightarrow> (int \<times> err option) \<times> 's lstate"

text \<open>A scenario that does not return is \<open>None\<close>.\<close>

record 's scenario =
  sc_name :: string
  sc_run :: "'s lstate \<Rightarrow> (result list \<times> 's lstate) option"

definition observe :: "'s load_env \<Rightarrow> string \<Rightarrow> int \<Rightarrow> 's call \<Rightarrow> 's lstate \<Rightarrow> result \<times> 's lstate" where
  "observe env kind want run s = (let ((status, e), s1) = run s in
     (\<lparr>re_kind = kind, re_want = want, re_status = status, re_duration = le_now env (ls_out s1) - le_now env (ls_out s), re_err = e\<rparr>, s1))"

definition one :: "'s load_env \<Rightarrow> string \<Rightarrow> int \<Rightarrow> 's call \<Rightarrow> 's scenario" where
  "one env name want run = \<lparr>sc_name = name, sc_run = (\<lambda>s. let (r, s1) = observe env name want run s in Some ([r], s1))\<rparr>"

definition failed_setup :: "string \<Rightarrow> err \<Rightarrow> result list" where
  "failed_setup kind e = [\<lparr>re_kind = kind, re_want = 0, re_status = 0, re_duration = 0, re_err = Some e\<rparr>]"

section \<open>Calls\<close>

definition mint :: "'s load_env \<Rightarrow> string \<Rightarrow> string list \<Rightarrow> int \<Rightarrow> err + string" where
  "mint env username groups expiry = (case le_NewTokenPayloadForIdentity env username groups expiry of
     Inl e \<Rightarrow> Inl e | Inr payload \<Rightarrow> le_SignToken env payload)"

definition validToken :: "'s load_env \<Rightarrow> 's lstate \<Rightarrow> err + string" where
  "validToken env s = mint env demoUser [''demo''] (le_now env (ls_out s) + seconds 600)"

definition tokenWithoutUsername :: "'s load_env \<Rightarrow> generator \<Rightarrow> int \<Rightarrow> err + string" where
  "tokenWithoutUsername env g expiry =
     (case le_Marshal env [(''iss'', JString (ge_issuerURL g)), (''aud'', JStrings [demoClientID, ''aud-2'']), (''email'', JString []),
         (''groups'', JStrings [''demo'']), (''exp'', JInt (expiry div 1000000000))] of
        Inl e \<Rightarrow> Inl (NewError (''failed to marshal the token payload: '' @ err_text e))
      | Inr payload \<Rightarrow> le_SignToken env payload)"

definition doAt :: "'s load_env \<Rightarrow> string \<Rightarrow> string \<Rightarrow> string \<Rightarrow> string \<Rightarrow> header \<Rightarrow> 's call" where
  "doAt env base meth path token headers s =
     (case le_NewRequest env meth (base @ path) of
        Some e \<Rightarrow> ((0, Some e), s)
      | None \<Rightarrow>
        let h0 = (if token \<noteq> [] then hdr_set [] ''Authorization'' (''Bearer '' @ token) else []);
            h = fold (\<lambda>(k, vs) h. fold (\<lambda>v h. hdr_add h k v) vs h) headers h0 in
        case on_out (le_Do env \<lparr>lr_Method = meth, lr_URL = base @ path, lr_Header = h\<rparr>) s of
          (Inl e, s1) \<Rightarrow> ((0, Some e), s1)
        | (Inr (status, body), s1) \<Rightarrow> ((status, None), s1))"

definition do_call :: "'s load_env \<Rightarrow> generator \<Rightarrow> string \<Rightarrow> string \<Rightarrow> string \<Rightarrow> header \<Rightarrow> 's call" where
  "do_call env g meth path token headers s = doAt env (le_URL env (ge_tunnel g) (ls_out s)) meth path token headers s"

definition doWithValidToken :: "'s load_env \<Rightarrow> generator \<Rightarrow> string \<Rightarrow> string \<Rightarrow> header \<Rightarrow> 's call" where
  "doWithValidToken env g meth path headers s = (case validToken env s of
     Inl e \<Rightarrow> ((0, Some e), s) | Inr token \<Rightarrow> do_call env g meth path token headers s)"

definition scrape :: "'s load_env \<Rightarrow> generator \<Rightarrow> 's lstate \<Rightarrow> (err + sample list) \<times> 's lstate" where
  "scrape env g s = (let url = le_URL env (pp_metrics (ge_pinned g)) (ls_out s) @ ''/metrics'' in
     case le_NewRequest env ''GET'' url of
       Some e \<Rightarrow> (Inl e, s)
     | None \<Rightarrow>
       (case on_out (le_Do env \<lparr>lr_Method = ''GET'', lr_URL = url, lr_Header = []\<rparr>) s of
          (Inl e, s1) \<Rightarrow> (Inl (NewError (''failed to scrape '' @ pp_name (ge_pinned g) @ '': '' @ err_text e)), s1)
        | (Inr (status, body), s1) \<Rightarrow>
            (if status \<noteq> 200 then Inl (NewError (''scraping '' @ pp_name (ge_pinned g) @ '' answered '' @ itoa status))
             else le_ParseMetrics env body, s1)))"

definition seriesSum :: "sample list \<Rightarrow> string \<Rightarrow> (string \<times> string) list \<Rightarrow> int" where
  "seriesSum samples name lbls = sum_list (map sm_Value (filter (\<lambda>s. sm_Name s = name \<and>
     list_all (\<lambda>(k, v). (case map_of (sm_Labels s) k of None \<Rightarrow> [] | Some x \<Rightarrow> x) = v) lbls) samples))"

definition sarMissLabels :: "(string \<times> string) list" where
  "sarMissLabels = [(''cache'', ''sar''), (''result'', ''miss'')]"

text \<open>\<open>repeat\<close>: it stops at the first call that did not answer as expected, and names it.\<close>

fun repeat_from :: "'s load_env \<Rightarrow> string \<Rightarrow> nat \<Rightarrow> int \<Rightarrow> 's call \<Rightarrow> nat \<Rightarrow> nat \<Rightarrow> 's lstate \<Rightarrow> result list \<times> 's lstate" where
  "repeat_from env kind n want c i 0 s = ([], s)"
| "repeat_from env kind n want c i (Suc left) s =
     (let (r, s1) = observe env (kind @ ''['' @ nat_digits (i + 1) @ ''/'' @ nat_digits n @ '']'') want c s;
          r1 = (if re_err r = None \<and> re_status r \<noteq> want
                then r\<lparr>re_err := Some (NewError (''call '' @ nat_digits (i + 1) @ '' of '' @ nat_digits n @ '' answered '' @
                  itoa (re_status r) @ '', want '' @ itoa want))\<rparr>
                else r) in
      if re_err r1 \<noteq> None then ([r1], s1)
      else let (rs, s2) = repeat_from env kind n want c (i + 1) left s1 in (r1 # rs, s2))"

definition load_repeat :: "'s load_env \<Rightarrow> string \<Rightarrow> nat \<Rightarrow> int \<Rightarrow> 's call \<Rightarrow> 's lstate \<Rightarrow> result list \<times> 's lstate" where
  "load_repeat env kind n want c s = repeat_from env kind n want c 0 n s"

section \<open>The scenarios with assertions of their own\<close>

definition podsPath :: "generator \<Rightarrow> string" where
  "podsPath g = ''/api/v1/namespaces/'' @ ge_namespace g @ ''/pods''"

definition noUsernameClaim :: "'s load_env \<Rightarrow> generator \<Rightarrow> 's lstate \<Rightarrow> result list \<times> 's lstate" where
  "noUsernameClaim env g s =
     (case tokenWithoutUsername env g (le_now env (ls_out s) + seconds 600) of
        Inl e \<Rightarrow> (failed_setup ''no_username_claim'' e, s)
      | Inr token \<Rightarrow>
        (case scrape env g s of
           (Inl e, s1) \<Rightarrow> (failed_setup ''no_username_claim'' e, s1)
         | (Inr before, s1) \<Rightarrow>
           let (r, s2) = observe env ''no_username_claim'' 403
                 (\<lambda>s. doAt env (le_URL env (pp_proxy (ge_pinned g)) (ls_out s)) ''GET'' (podsPath g) token [] s) s1 in
           if re_err r \<noteq> None then ([r], s2)
           else case scrape env g s2 of
             (Inl e, s3) \<Rightarrow> ([r\<lparr>re_err := Some e\<rparr>], s3)
           | (Inr after, s3) \<Rightarrow>
             let lbls = [(''decision'', ''deny''), (''reason'', ''no_username_claim'')];
                 grew = seriesSum after metricDecisions lbls - seriesSum before metricDecisions lbls in
             ([if grew < 1 then r\<lparr>re_err := Some (NewError (pp_name (ge_pinned g) @
                 '' recorded no decisions{reason=no_username_claim} for the call (delta '' @ itoa grew @ '')''))\<rparr> else r], s3)))"

text \<open>The verdict on a burst; \<open>errNoConcurrentMiss\<close> marks the one that is retried.\<close>

datatype verdict = NoConcurrentMiss string | Verdict string

fun verdict_err :: "verdict \<Rightarrow> err" where
  "verdict_err (NoConcurrentMiss t) = (let e = NewError ''the burst produced no concurrent cache misses'' in Errorf (t @ '': '' @ err_text e) [e])"
| "verdict_err (Verdict t) = NewError t"

definition coalescingVerdict :: "string \<Rightarrow> nat \<Rightarrow> int \<Rightarrow> int \<Rightarrow> int \<Rightarrow> verdict option" where
  "coalescingVerdict pod calls allowed misses reviews =
     (if allowed \<noteq> int calls then
        Some (Verdict (pod @ '' allowed '' @ itoa allowed @ '' of '' @ nat_digits calls @ '' calls, want all of them''))
      else if misses < 2 then
        Some (NoConcurrentMiss (pod @ '' answered '' @ nat_digits calls @ '' simultaneous calls with '' @ itoa misses @
          '' decision-cache miss(es), so at most one reached the flight group''))
      else if reviews < 1 then
        Some (Verdict (pod @ '' recorded '' @ itoa misses @
          '' decision-cache misses and no SubjectAccessReview at all; the two counters disagree''))
      else if reviews \<ge> misses then
        Some (Verdict (pod @ '' issued '' @ itoa reviews @ '' SubjectAccessReviews for '' @ itoa misses @
          '' concurrent decision-cache misses; they did not coalesce''))
      else None)"

text \<open>The calls of a burst, in the order the released goroutines make them; each writes its own slot.\<close>

fun burst_calls :: "'s load_env \<Rightarrow> generator \<Rightarrow> string \<Rightarrow> nat list \<Rightarrow> result list \<Rightarrow> 's lstate \<Rightarrow> result list \<times> 's lstate" where
  "burst_calls env g token [] slots s = (slots, s)"
| "burst_calls env g token (i # is) slots s =
     (let (r, s1) = observe env (''impersonation_coalesced['' @ nat_digits (i + 1) @ ''/'' @ nat_digits coalesceCalls @ '']'') 200
            (\<lambda>s. doAt env (le_URL env (pp_proxy (ge_pinned g)) (ls_out s)) ''GET'' (podsPath g) token
               [(''Impersonate-User'', [impersonated])] s) s in
      burst_calls env g token is (slots[i := r]) s1)"

definition empty_result :: result where
  "empty_result = \<lparr>re_kind = [], re_want = 0, re_status = 0, re_duration = 0, re_err = None\<rparr>"

text \<open>How far the counters of a burst moved: decisions allowed, cache misses, reviews.\<close>

definition burst_deltas :: "sample list \<Rightarrow> sample list \<Rightarrow> int \<times> int \<times> int" where
  "burst_deltas before after =
     (seriesSum after metricDecisions [(''decision'', ''allow'')] - seriesSum before metricDecisions [(''decision'', ''allow'')],
      seriesSum after metricCacheLookups sarMissLabels - seriesSum before metricCacheLookups sarMissLabels,
      seriesSum after metricReviewCalls [(''review'', ''sar'')] - seriesSum before metricReviewCalls [(''review'', ''sar'')])"

definition coalesceBurst :: "'s load_env \<Rightarrow> generator \<Rightarrow> nat \<Rightarrow> string \<Rightarrow> 's lstate \<Rightarrow> (result list \<times> verdict option) \<times> 's lstate" where
  "coalesceBurst env g attempt token s =
     (case on_out (le_After env (sarCacheTTL + seconds 1)) s of
        (Some e, s1) \<Rightarrow> ((failed_setup ''impersonation_coalesced'' e, None), s1)
      | (None, s1) \<Rightarrow>
        (case scrape env g s1 of
           (Inl e, s2) \<Rightarrow> ((failed_setup ''impersonation_coalesced'' e, None), s2)
         | (Inr before, s2) \<Rightarrow>
           let (results, s3) = burst_calls env g token (le_order env (ls_out s2)) (replicate coalesceCalls empty_result) s2 in
           if \<not> list_all result_ok results then ((results, None), s3)
           else case scrape env g s3 of
             (Inl e, s4) \<Rightarrow> ((results[0 := (results ! 0)\<lparr>re_err := Some e\<rparr>], None), s4)
           | (Inr after, s4) \<Rightarrow>
             let (decisions, misses, reviews) = burst_deltas before after in
             ((results, coalescingVerdict (pp_name (ge_pinned g)) coalesceCalls decisions misses reviews),
              log_load (LogBurst (pp_name (ge_pinned g)) attempt coalesceCalls misses reviews) s4)))"

text \<open>The loop \<^verbatim>\<open>for attempt := 1; ; attempt++\<close>, which only its \<open>break\<close> ends.\<close>

partial_function (option) coalesce_loop ::
  "'s load_env \<Rightarrow> generator \<Rightarrow> string \<Rightarrow> nat \<Rightarrow> 's lstate \<Rightarrow> ((result list \<times> verdict option) \<times> 's lstate) option" where
  "coalesce_loop env g token attempt s =
     (let ((results, v), s1) = coalesceBurst env g attempt token s in
      if (case v of Some (NoConcurrentMiss _) \<Rightarrow> attempt = coalesceAttempts | _ \<Rightarrow> True) then Some ((results, v), s1)
      else coalesce_loop env g token (attempt + 1) s1)"

declare coalesce_loop.simps [code]

definition coalesced_results :: "result list \<times> verdict option \<Rightarrow> result list" where
  "coalesced_results rv = (case rv of
       (results, Some v) \<Rightarrow> if results \<noteq> [] then results[0 := (results ! 0)\<lparr>re_err := Some (verdict_err v)\<rparr>] else results
     | (results, None) \<Rightarrow> results)"

definition coalescedImpersonation :: "'s load_env \<Rightarrow> generator \<Rightarrow> 's lstate \<Rightarrow> (result list \<times> 's lstate) option" where
  "coalescedImpersonation env g s =
     (case validToken env s of
        Inl e \<Rightarrow> Some (failed_setup ''impersonation_coalesced'' e, s)
      | Inr token \<Rightarrow> map_option (\<lambda>(rv, s1). (coalesced_results rv, s1)) (coalesce_loop env g token 1 s))"

fun hostile_from :: "'s load_env \<Rightarrow> generator \<Rightarrow> string \<Rightarrow> nat list \<Rightarrow> 's lstate \<Rightarrow> result list \<times> 's lstate" where
  "hostile_from env g token [] s = ([], s)"
| "hostile_from env g token (i # is) s =
     (let (r, s1) = observe env (''hostile_methods[M'' @ nat_digits i @ '']'') 403
            (do_call env g (''M'' @ nat_digits i) ''/apis/x/v1/y'' token []) s;
          (rs, s2) = hostile_from env g token is s1 in (r # rs, s2))"

definition hostileMethods :: "'s load_env \<Rightarrow> generator \<Rightarrow> 's lstate \<Rightarrow> result list \<times> 's lstate" where
  "hostileMethods env g s = (case validToken env s of
     Inl e \<Rightarrow> (failed_setup ''hostile_methods'' e, s)
   | Inr token \<Rightarrow> hostile_from env g token [1..<hostileMethodCount + 1] s)"

section \<open>The scenarios\<close>

definition serviceAccountToken :: "'s load_env \<Rightarrow> generator \<Rightarrow> 's lstate \<Rightarrow> (err + string) \<times> 's lstate" where
  "serviceAccountToken env g s = (case on_out (le_CreateToken env) s of
       (Inl e, s1) \<Rightarrow> (Inl (NewError (''failed to mint a token for serviceaccount '' @ ge_namespace g @ ''/demo-passthrough: '' @ err_text e)), s1)
     | (Inr tok, s1) \<Rightarrow> (Inr tok, s1))"

definition unknownServiceAccountToken :: string where
  "unknownServiceAccountToken = ''eyJhbGciOiJSUzI1NiIsImtpZCI6ImRlbW8ifQ.'' @
     ''eyJzdWIiOiJzeXN0ZW06c2VydmljZWFjY291bnQ6cHJveHk6bm9ib2R5In0.'' @ ''bm90LWEtdmFsaWQtc2lnbmF0dXJl''"

definition watch_call :: "'s load_env \<Rightarrow> 's call" where
  "watch_call env s = (case validToken env s of
     Inl e \<Rightarrow> ((0, Some e), s)
   | Inr token \<Rightarrow> (case on_out (le_Watch env token) s of (Some e, s1) \<Rightarrow> ((0, Some e), s1) | (None, s1) \<Rightarrow> ((statusNone, None), s1)))"

definition exec_call :: "'s load_env \<Rightarrow> 's call" where
  "exec_call env s = (case validToken env s of
     Inl e \<Rightarrow> ((0, Some e), s)
   | Inr token \<Rightarrow> (case on_out (le_Exec env token) s of (Some e, s1) \<Rightarrow> ((0, Some e), s1) | (None, s1) \<Rightarrow> ((statusNone, None), s1)))"

text \<open>The headers of the scenario that exceeds the cap on impersonation values.\<close>

definition tooManyHeaders :: header where
  "tooManyHeaders = fold (\<lambda>i h. hdr_add h ''Impersonate-Group'' (''group-'' @ nat_digits i)) [0..<100] [(''Impersonate-User'', [impersonated])]"

definition with_token :: "(err + string) \<Rightarrow> (string \<Rightarrow> 's call) \<Rightarrow> 's call" where
  "with_token t c s = (case t of Inl e \<Rightarrow> ((0, Some e), s) | Inr token \<Rightarrow> c token s)"

definition scenarios :: "'s load_env \<Rightarrow> generator \<Rightarrow> 's scenario list" where
  "scenarios env g =
     (let pods = podsPath g; get = doWithValidToken env g ''GET'' in
      [one env ''allowed_list'' 200 (get pods []),
       one env ''allowed_get'' 200 (get (pods @ ''/'' @ demoPod) []),
       one env ''forbidden_by_rbac'' 403 (get ''/api/v1/nodes'' []),
       one env ''upstream_5xx'' 504 (get (pods @ ''?resourceVersion=99999999999&timeoutSeconds=2'') []),
       one env ''invalid_token'' 401 (\<lambda>s. do_call env g ''GET'' pods (''not-a-token-'' @ le_Format env (le_now env (ls_out s))) [] s),
       one env ''expired_token'' 401 (\<lambda>s. with_token (mint env demoUser [''demo''] (le_now env (ls_out s) - seconds 3600))
         (\<lambda>token. do_call env g ''GET'' pods token []) s),
       \<lparr>sc_name = ''impersonation_allowed'', sc_run = (\<lambda>s. Some (load_repeat env ''impersonation_allowed'' cacheWarmCalls 200
         (get pods [(''Impersonate-User'', [impersonated])]) s))\<rparr>,
       \<lparr>sc_name = ''impersonation_coalesced'', sc_run = coalescedImpersonation env g\<rparr>,
       one env ''impersonation_denied'' 403 (get pods [(''Impersonate-User'', [notImpersonated])]),
       one env ''too_many_impersonation_values'' 431 (get pods tooManyHeaders),
       one env ''reserved_identity'' 403 (\<lambda>s. with_token (mint env demoUser [''system:masters''] (le_now env (ls_out s) + seconds 600))
         (\<lambda>token. do_call env g ''GET'' pods token []) s),
       \<lparr>sc_name = ''no_username_claim'', sc_run = (\<lambda>s. Some (noUsernameClaim env g s))\<rparr>,
       \<lparr>sc_name = ''passthrough_allowed'', sc_run = (\<lambda>s. case serviceAccountToken env g s of
            (Inl e, s1) \<Rightarrow> Some (failed_setup ''passthrough_allowed'' e, s1)
          | (Inr token, s1) \<Rightarrow> Some (load_repeat env ''passthrough_allowed'' cacheWarmCalls 200 (do_call env g ''GET'' pods token []) s1))\<rparr>,
       \<lparr>sc_name = ''passthrough_denied'', sc_run = (\<lambda>s. Some (load_repeat env ''passthrough_denied'' cacheWarmCalls 401
         (do_call env g ''GET'' pods unknownServiceAccountToken []) s))\<rparr>,
       one env ''watch'' statusNone (watch_call env),
       one env ''exec'' statusNone (exec_call env),
       one env ''logs'' 200 (get (pods @ ''/'' @ demoPod @ ''/log'') []),
       \<lparr>sc_name = ''non_resource'', sc_run = (\<lambda>s.
          let (r1, s1) = observe env ''non_resource[/version]'' 200 (get ''/version'' []) s;
              (r2, s2) = observe env ''non_resource[/healthz]'' 200 (get ''/healthz'' []) s1 in Some ([r1, r2], s2))\<rparr>,
       \<lparr>sc_name = ''hostile_methods'', sc_run = (\<lambda>s. Some (hostileMethods env g s))\<rparr>])"

section \<open>Running them\<close>

text \<open>A duration in milliseconds; Go's division rounds towards zero, and a duration here is not negative.\<close>

definition log_call :: "result \<Rightarrow> load_log" where
  "log_call r = LogCall (re_kind r) (re_status r) (re_duration r div 1000000) (result_ok r) (map_option err_text (re_err r))"

definition load_call :: "'s scenario \<Rightarrow> 's lstate \<Rightarrow> (result list \<times> 's lstate) option" where
  "load_call sc s = map_option (\<lambda>(rs, s1). (rs, s1\<lparr>ls_log := ls_log s1 @ map log_call rs\<rparr>)) (sc_run sc s)"

definition failure_of :: "result \<Rightarrow> string list" where
  "failure_of r = (case re_err r of
       Some e \<Rightarrow> [re_kind r @ '': '' @ err_text e]
     | None \<Rightarrow> if re_status r \<noteq> re_want r
         then [re_kind r @ '': status '' @ itoa (re_status r) @ '', want '' @ itoa (re_want r)] else [])"

fun once_loop :: "'s scenario list \<Rightarrow> string list \<Rightarrow> nat \<Rightarrow> 's lstate \<Rightarrow> ((string list \<times> nat) \<times> 's lstate) option" where
  "once_loop [] failures calls s = Some ((failures, calls), s)"
| "once_loop (sc # scs) failures calls s = (case load_call sc s of
       None \<Rightarrow> None
     | Some (rs, s1) \<Rightarrow> once_loop scs (failures @ concat (map failure_of rs)) (calls + length rs) s1)"

definition runOnce :: "'s scenario list \<Rightarrow> 's lstate \<Rightarrow> (err option \<times> 's lstate) option" where
  "runOnce scs s = (case once_loop scs [] 0 s of
       None \<Rightarrow> None
     | Some ((failures, calls), s1) \<Rightarrow>
       if failures \<noteq> [] then
         Some (Some (NewError (nat_digits (length failures) @ '' of '' @ nat_digits calls @ '' calls across '' @ nat_digits (length scs) @
           '' scenarios did not behave as expected:'' @ [char_of (10::nat)] @ ''  '' @
           join_with ([char_of (10::nat)] @ ''  '') failures)), s1)
       else Some (None, log_load (LogAllExpected (length scs) calls) s1))"

definition log_failure :: "result \<Rightarrow> load_log list" where
  "log_failure r = (case re_err r of None \<Rightarrow> [] | Some e \<Rightarrow> [LogCallFailed (re_kind r) (err_text e)])"

text \<open>The timed loop: its end is up to the clock and the context.\<close>

partial_function (option) for_loop ::
  "'s load_env \<Rightarrow> 's scenario list \<Rightarrow> int \<Rightarrow> int \<Rightarrow> nat \<Rightarrow> 's lstate \<Rightarrow> (bool \<times> 's lstate) option" where
  "for_loop env scs deadline interval i s =
     (if \<not> le_now env (ls_out s) < deadline then Some (True, s)
      else case load_call (scs ! (i mod length scs)) s of
        None \<Rightarrow> None
      | Some (rs, s1) \<Rightarrow>
        (case on_out (le_After env interval) (s1\<lparr>ls_log := ls_log s1 @ concat (map log_failure rs)\<rparr>) of
           (Some e, s2) \<Rightarrow> Some (False, s2)
         | (None, s2) \<Rightarrow> for_loop env scs deadline interval (i + 1) s2))"

declare for_loop.simps [code]

definition runFor :: "'s load_env \<Rightarrow> 's scenario list \<Rightarrow> int \<Rightarrow> int \<Rightarrow> 's lstate \<Rightarrow> (err option \<times> 's lstate) option" where
  "runFor env scs dur interval s =
     map_option (\<lambda>(finished, s1). (None, if finished then log_load (LogFinished dur) s1 else s1))
       (for_loop env scs (le_now env (ls_out s) + dur) interval 0 s)"

section \<open>The command\<close>

definition open_tunnel :: "'s load_env \<Rightarrow> string \<Rightarrow> int \<Rightarrow> string \<Rightarrow> 's lstate \<Rightarrow> (err + nat) \<times> 's lstate" where
  "open_tunnel env target remote scheme s = (case on_out (le_newTunnel env target remote scheme) s of
       (Inl e, s1) \<Rightarrow> (Inl e, s1)
     | (Inr t, s1) \<Rightarrow> (Inr t, s1\<lparr>ls_tunnels := ls_tunnels s1 @ [t]\<rparr>))"

definition close_tunnel :: "'s load_env \<Rightarrow> nat \<Rightarrow> 's lstate \<Rightarrow> 's lstate" where
  "close_tunnel env t s = s\<lparr>ls_out := le_Close env t (ls_out s), ls_tunnels := remove1 t (ls_tunnels s)\<rparr>"

definition pinned_Close :: "'s load_env \<Rightarrow> pinnedPod \<Rightarrow> 's lstate \<Rightarrow> 's lstate" where
  "pinned_Close env p s = close_tunnel env (pp_metrics p) (close_tunnel env (pp_proxy p) s)"

text \<open>The last container port of that name wins; 0 is no port.\<close>

definition metricsPort :: "pod \<Rightarrow> int" where
  "metricsPort pd = fold (\<lambda>(n, p) acc. if n = ''metrics'' then p else acc) (concat (pd_Containers pd)) 0"

definition pin :: "'s load_env \<Rightarrow> string \<Rightarrow> 's lstate \<Rightarrow> (err + pinnedPod) \<times> 's lstate" where
  "pin env ns s = (case on_out (le_Pods env) s of
       (Inl e, s1) \<Rightarrow> (Inl (NewError (''failed to list the proxy pods in '' @ ns @ '': '' @ err_text e)), s1)
     | (Inr pods, s1) \<Rightarrow>
       (case find pd_Running pods of
          None \<Rightarrow> (Inl (NewError (''no running proxy pod in '' @ ns @
            '' matching app.kubernetes.io/name=kube-oidc-proxy,app.kubernetes.io/instance=kop'')), s1)
        | Some pd \<Rightarrow>
          if metricsPort pd = 0 then (Inl (NewError (''pod '' @ pd_Name pd @ '' declares no container port named '' @
            go_quote ''metrics'' @ ''; is metrics.enabled set?'')), s1)
          else (case open_tunnel env (''pod/'' @ pd_Name pd) 8443 ''https'' s1 of
              (Inl e, s2) \<Rightarrow> (Inl e, s2)
            | (Inr proxyTun, s2) \<Rightarrow>
              (case open_tunnel env (''pod/'' @ pd_Name pd) (metricsPort pd) ''http'' s2 of
                 (Inl e, s3) \<Rightarrow> (Inl e, close_tunnel env proxyTun s3)
               | (Inr metricsTun, s3) \<Rightarrow> (Inr \<lparr>pp_name = pd_Name pd, pp_proxy = proxyTun, pp_metrics = metricsTun\<rparr>, s3)))))"

definition load_run :: "'s load_env \<Rightarrow> string \<Rightarrow> string \<Rightarrow> int \<Rightarrow> int \<Rightarrow> bool \<Rightarrow> 's lstate \<Rightarrow> (err option \<times> 's lstate) option" where
  "load_run env issuerURL ns dur interval once s =
     (case le_loadState env of
        Some e \<Rightarrow> Some (Some e, s)
      | None \<Rightarrow>
        (case open_tunnel env ''svc/kop-kube-oidc-proxy'' 443 ''https'' s of
           (Inl e, s1) \<Rightarrow> Some (Some e, s1)
         | (Inr tun, s1) \<Rightarrow>
           map_option (\<lambda>(e, s'). (e, close_tunnel env tun s'))
             (case le_newGenerator env of
                Some e \<Rightarrow> Some (Some e, s1)
              | None \<Rightarrow>
                (case pin env ns s1 of
                   (Inl e, s2) \<Rightarrow> Some (Some e, s2)
                 | (Inr p, s2) \<Rightarrow>
                   map_option (\<lambda>(e, s'). (e, pinned_Close env p s'))
                     (let scs = scenarios env \<lparr>ge_namespace = ns, ge_tunnel = tun, ge_pinned = p, ge_issuerURL = issuerURL\<rparr> in
                      if once then runOnce scs s2 else runFor env scs dur interval s2)))))"

section \<open>The coalescing scenario\<close>

lemma coalesceBurst_passes:
  assumes "coalesceBurst env g attempt token s = ((rs, v), s')" "v = None" "list_all result_ok rs"
  shows "\<exists>before misses reviews. ls_log s' = before @ [LogBurst (pp_name (ge_pinned g)) attempt coalesceCalls misses reviews] \<and>
    1 \<le> reviews \<and> reviews < misses"
proof -
  have bad: "\<not> list_all result_ok (failed_setup k e)" for k e by (simp add: failed_setup_def result_ok_def)
  have fix0: "\<not> list_all result_ok (xs[0 := (xs ! 0)\<lparr>re_err := Some e\<rparr>])" if "xs \<noteq> []" for xs e
    using that by (cases xs) (auto simp: result_ok_def)
  have slots: "length (fst (burst_calls env g token is xs s)) = length xs" for "is" xs and s
    by (induction "is" arbitrary: xs s) (simp_all add: case_prod_beta Let_def)
  have ne: "fst (burst_calls env g token is (replicate coalesceCalls empty_result) s) \<noteq> []" for "is" and s
    using slots [of "is" "replicate coalesceCalls empty_result" s] by (auto simp: coalesceCalls_def)
  show ?thesis using assms bad fix0 ne
    by (auto simp: coalesceBurst_def coalescingVerdict_def log_load_def case_prod_beta Let_def
        split: prod.splits option.splits sum.splits if_splits)
qed

text \<open>The loop ends with the burst of an attempt within the budget, the last unless that burst settled it.\<close>

lemma coalesce_loop_returns:
  assumes "attempt \<le> coalesceAttempts"
  shows "\<exists>a s1 rs v s'. coalesce_loop env g token attempt s = Some ((rs, v), s') \<and> attempt \<le> a \<and> a \<le> coalesceAttempts \<and>
    coalesceBurst env g a token s1 = ((rs, v), s') \<and> ((\<exists>t. v = Some (NoConcurrentMiss t)) \<longrightarrow> a = coalesceAttempts)"
  using assms
proof (induction "coalesceAttempts - attempt" arbitrary: attempt s)
  case 0
  obtain rs v s1 where b: "coalesceBurst env g attempt token s = ((rs, v), s1)" by (metis surj_pair)
  have last: "attempt = coalesceAttempts" using 0 by simp
  have "coalesce_loop env g token attempt s = Some ((rs, v), s1)"
    unfolding coalesce_loop.simps [of env g token attempt s] b using last by (simp split: option.splits verdict.splits)
  then show ?case using b last by blast
next
  case (Suc n)
  obtain rs v s1 where b: "coalesceBurst env g attempt token s = ((rs, v), s1)" by (metis surj_pair)
  show ?case
  proof (cases "\<exists>t. v = Some (NoConcurrentMiss t)")
    case True
    then have "coalesce_loop env g token attempt s = coalesce_loop env g token (attempt + 1) s1"
      using Suc.hyps(2) by (subst coalesce_loop.simps) (auto simp: b)
    moreover have "n = coalesceAttempts - (attempt + 1)" "attempt + 1 \<le> coalesceAttempts" using Suc.hyps(2) by simp_all
    ultimately show ?thesis using Suc.hyps(1) [of "attempt + 1" s1] by (metis Suc_eq_plus1 Suc_leD)
  next
    case False
    then have "coalesce_loop env g token attempt s = Some ((rs, v), s1)"
      by (subst coalesce_loop.simps) (auto simp: b split: option.splits verdict.splits)
    then show ?thesis using b False Suc.prems by blast
  qed
qed

lemma coalesced_results_passes: "list_all result_ok (coalesced_results (rs, v)) \<Longrightarrow> rs \<noteq> [] \<Longrightarrow> v = None \<and> list_all result_ok rs"
  by (cases rs; cases v) (auto simp: coalesced_results_def result_ok_def)

lemma coalesceBurst_nonempty: "coalesceBurst env g a token s = ((rs, v), s') \<Longrightarrow> rs \<noteq> []"
proof -
  have slots: "length (fst (burst_calls env g token is xs s)) = length xs" for "is" xs and s
    by (induction "is" arbitrary: xs s) (simp_all add: case_prod_beta Let_def)
  have "fst (burst_calls env g token is (replicate coalesceCalls empty_result) s) \<noteq> []" for "is" and s
    using slots [of "is" "replicate coalesceCalls empty_result" s] by (auto simp: coalesceCalls_def)
  then show "coalesceBurst env g a token s = ((rs, v), s') \<Longrightarrow> rs \<noteq> []"
    by (auto simp: coalesceBurst_def failed_setup_def case_prod_beta Let_def split: prod.splits option.splits sum.splits if_splits)
qed

text \<open>
  C32. The coalescing scenario returns, and passes only on evidence. Its loop has no condition of its
  own, yet every run of it ends with the burst of attempt three at the latest; and when none of the
  results it reports is a failure, the counters of that last burst, which it has just logged, showed
  more than one concurrent cache miss answered by at least one review and by fewer reviews than misses.
\<close>

theorem coalescing_returns_with_evidence:
  "\<exists>rs s'. coalescedImpersonation env g s = Some (rs, s') \<and>
    (list_all result_ok rs \<longrightarrow> (\<exists>before attempt misses reviews.
       ls_log s' = before @ [LogBurst (pp_name (ge_pinned g)) attempt coalesceCalls misses reviews] \<and>
       1 \<le> attempt \<and> attempt \<le> coalesceAttempts \<and> 1 \<le> reviews \<and> reviews < misses))"
proof (cases "validToken env s")
  case (Inl e)
  then show ?thesis by (simp add: coalescedImpersonation_def failed_setup_def result_ok_def)
next
  case (Inr token)
  obtain a s1 rs v s' where l: "coalesce_loop env g token 1 s = Some ((rs, v), s')" "1 \<le> a" "a \<le> coalesceAttempts"
    "coalesceBurst env g a token s1 = ((rs, v), s')"
    using coalesce_loop_returns [of 1] by (metis coalesceAttempts_def one_le_numeral)
  have "v = None" "list_all result_ok rs" if "list_all result_ok (coalesced_results (rs, v))"
    using coalesced_results_passes [OF that coalesceBurst_nonempty [OF l(4)]] by auto
  moreover have "coalescedImpersonation env g s = Some (coalesced_results (rs, v), s')" using Inr l(1) by (simp add: coalescedImpersonation_def)
  ultimately show ?thesis using coalesceBurst_passes [OF l(4)] l(2,3) by blast
qed

text \<open>A proxy that answers everything and shares one review among the eight calls of a burst; the state counts the calls and the time.\<close>

definition demo_load_env :: "(nat \<times> int) load_env" where
  "demo_load_env = \<lparr>le_now = snd, le_After = (\<lambda>d (n, c). (None, (n, c + (if d < 0 then 0 else d)))), le_NewRequest = (\<lambda>_ _. None),
     le_Do = (\<lambda>q (n, c). if lr_URL q = ''m/metrics'' then (Inr (200, replicate n CHR ''x''), (n, c)) else (Inr (200, []), (n + 1, c))),
     le_order = (\<lambda>_. [7, 6, 5, 4, 3, 2, 1, 0]),
     le_ParseMetrics = (\<lambda>b. Inr [\<lparr>sm_Name = metricDecisions, sm_Labels = [(''decision'', ''allow'')], sm_Value = int (length b)\<rparr>,
        \<lparr>sm_Name = metricCacheLookups, sm_Labels = sarMissLabels, sm_Value = int (length b)\<rparr>,
        \<lparr>sm_Name = metricReviewCalls, sm_Labels = [(''review'', ''sar'')], sm_Value = int (length b) div 8\<rparr>]),
     le_NewTokenPayloadForIdentity = (\<lambda>u _ _. Inr u), le_Marshal = (\<lambda>_. Inr ''{}''), le_SignToken = Inr, le_CreateToken = (\<lambda>s. (Inr ''t'', s)),
     le_Watch = (\<lambda>_ s. (None, s)), le_Exec = (\<lambda>_ s. (None, s)), le_Format = (\<lambda>_. []), le_URL = (\<lambda>t _. if t = 2 then ''m'' else ''p''),
     le_Pods = (\<lambda>s. (Inr [\<lparr>pd_Name = ''kop-0'', pd_Running = True, pd_Containers = [[(''metrics'', 9090)]]\<rparr>], s)),
     le_newTunnel = (\<lambda>_ r _ s. (Inr (if r = 443 then 0 else if r = 8443 then 1 else 2), s)), le_Close = (\<lambda>_ s. s),
     le_loadState = None, le_newGenerator = None\<rparr>"

definition demo_generator :: generator where
  "demo_generator = \<lparr>ge_namespace = ''proxy'', ge_tunnel = 0, ge_pinned = \<lparr>pp_name = ''kop-0'', pp_proxy = 1, pp_metrics = 2\<rparr>, ge_issuerURL = []\<rparr>"

definition demo_lstate :: "(nat \<times> int) lstate" where
  "demo_lstate = \<lparr>ls_out = (0, 0), ls_log = [], ls_tunnels = []\<rparr>"

lemma demo_coalesces: "map_option (\<lambda>(rs, s). (length rs, list_all result_ok rs)) (coalescedImpersonation demo_load_env demo_generator demo_lstate) = Some (8, True)"
  by code_simp

theorem coalescing_returns_with_evidence_witness:
  "\<exists>rs s'. coalescedImpersonation demo_load_env demo_generator demo_lstate = Some (rs, s') \<and> list_all result_ok rs \<and>
    (\<exists>before attempt misses reviews. ls_log s' = before @ [LogBurst ''kop-0'' attempt coalesceCalls misses reviews] \<and>
       1 \<le> reviews \<and> reviews < misses)"
proof -
  have n: "pp_name (ge_pinned demo_generator) = ''kop-0''" by (simp add: demo_generator_def)
  obtain rs s' where r: "coalescedImpersonation demo_load_env demo_generator demo_lstate = Some (rs, s')"
    and e: "list_all result_ok rs \<longrightarrow> (\<exists>before attempt misses reviews.
       ls_log s' = before @ [LogBurst ''kop-0'' attempt coalesceCalls misses reviews] \<and>
       1 \<le> attempt \<and> attempt \<le> coalesceAttempts \<and> 1 \<le> reviews \<and> reviews < misses)"
    using coalescing_returns_with_evidence [of demo_load_env demo_generator demo_lstate] unfolding n by blast
  have "list_all result_ok rs" using demo_coalesces by (simp add: r)
  with r e show ?thesis by blast
qed

section \<open>What a scenario leaves alone\<close>

text \<open>The moves of the outside a scenario can cause.\<close>

definition outside_moves :: "'s load_env \<Rightarrow> 's \<Rightarrow> 's \<Rightarrow> bool" where
  "outside_moves env o1 o2 = ((\<exists>d. o2 = snd (le_After env d o1)) \<or> (\<exists>q. o2 = snd (le_Do env q o1)) \<or> o2 = snd (le_CreateToken env o1) \<or>
     (\<exists>t. o2 = snd (le_Watch env t o1)) \<or> (\<exists>t. o2 = snd (le_Exec env t o1)))"

text \<open>A relation between states that these moves and the record of a burst respect; then every scenario does.\<close>

locale load_relation =
  fixes env :: "'s load_env" and R :: "'s lstate \<Rightarrow> 's lstate \<Rightarrow> bool"
  assumes R_refl: "R s s" and R_trans: "R s1 s2 \<Longrightarrow> R s2 s3 \<Longrightarrow> R s1 s3"
    and R_out: "outside_moves env (ls_out s) o2 \<Longrightarrow> R s (s\<lparr>ls_out := o2\<rparr>)"
    and R_burst: "R s (log_load (LogBurst pd a c m r) s)"
begin

text \<open>One rule per construct: a sequence, a call of the outside, a return.\<close>

lemma R_bind: "R s (snd p) \<Longrightarrow> (\<And>x s1. R s1 (snd (h x s1))) \<Longrightarrow> R s (snd (case p of (x, s1) \<Rightarrow> h x s1))"
  by (cases p) (auto intro: R_trans)

lemma R_return: "R s (snd (x, s))"
  by (simp add: R_refl)

lemma R_op:
  "R s (snd (on_out (le_After env d) s))" "R s (snd (on_out (le_Do env q) s))" "R s (snd (on_out (le_CreateToken env) s))"
  "R s (snd (on_out (le_Watch env tok) s))" "R s (snd (on_out (le_Exec env tok) s))"
  by (auto simp: on_out_def case_prod_beta outside_moves_def intro!: R_out)

lemma R_observe: "(\<And>s. R s (snd (c s))) \<Longrightarrow> R s (snd (observe env kind want c s))"
  by (simp add: observe_def case_prod_beta Let_def)

lemma R_doAt: "R s (snd (doAt env b meth path token h s))"
  unfolding doAt_def Let_def by (auto intro!: R_bind R_op R_return R_refl split: option.split sum.split)

lemma R_do: "R s (snd (do_call env g meth path token h s))" "R s (snd (doWithValidToken env g meth path h s))"
  unfolding do_call_def doWithValidToken_def by (auto intro!: R_doAt R_return R_refl split: sum.split)

lemma R_with_token: "(\<And>tok. R s (snd (c tok s))) \<Longrightarrow> R s (snd (with_token t c s))"
  unfolding with_token_def by (auto intro!: R_return R_refl split: sum.split)

lemma R_streams: "R s (snd (watch_call env s))" "R s (snd (exec_call env s))"
  unfolding watch_call_def exec_call_def by (auto intro!: R_bind R_op R_return R_refl split: sum.split option.split)

lemma R_scrape: "R s (snd (scrape env g s))"
  unfolding scrape_def Let_def by (auto intro!: R_bind R_op R_return R_refl split: sum.split option.split)

lemma R_account: "R s (snd (serviceAccountToken env g s))"
  unfolding serviceAccountToken_def by (auto intro!: R_bind R_op R_return R_refl split: sum.split)

lemma R_repeat: "(\<And>s. R s (snd (c s))) \<Longrightarrow> R s (snd (repeat_from env kind n want c i left s))"
proof (induction left arbitrary: i s)
  case (Suc left)
  have again: "\<forall>s1. R s1 (snd (repeat_from env kind n want c (i + 1) left s1))" using Suc by blast
  show ?case unfolding repeat_from.simps Let_def
    by (rule R_bind [OF R_observe [OF Suc.prems]]) (use again in \<open>auto intro!: R_bind R_return R_refl simp del: repeat_from.simps\<close>)
qed (simp add: R_refl)

lemma R_hostile: "R s (snd (hostile_from env g token is s))"
proof (induction "is" arbitrary: s)
  case (Cons i "is")
  show ?case unfolding hostile_from.simps Let_def
    by (rule R_bind [OF R_observe [OF R_do(1)]], rule R_bind [OF Cons.IH], rule R_return)
qed (simp add: R_refl)

lemma R_burst_calls: "R s (snd (burst_calls env g token is slots s))"
proof (induction "is" arbitrary: slots s)
  case (Cons i "is")
  show ?case unfolding burst_calls.simps Let_def by (rule R_bind [OF R_observe [OF R_doAt]], rule Cons.IH)
qed (simp add: R_refl)

lemma R_noUsernameClaim: "R s (snd (noUsernameClaim env g s))"
  unfolding noUsernameClaim_def Let_def
  by (auto intro!: R_bind [OF R_scrape] R_bind [OF R_observe [OF R_doAt]] R_return R_refl split: sum.split)

lemma R_deltas: "(\<And>d m r. R s (snd (h d m r))) \<Longrightarrow> R s (snd (case burst_deltas b a of (d, m, r) \<Rightarrow> h d m r))"
  by (cases "burst_deltas b a") simp

lemma R_coalesceBurst: "R s (snd (coalesceBurst env g a token s))"
  unfolding coalesceBurst_def Let_def
  by (auto intro!: R_deltas R_bind [OF R_op(1)] R_bind [OF R_scrape] R_bind [OF R_burst_calls] R_burst R_refl split: sum.split option.split)

lemma R_coalesce_loop:
  "a \<le> coalesceAttempts \<Longrightarrow> coalesce_loop env g token a s = Some (rv, s') \<Longrightarrow> R s s'"
proof (induction "coalesceAttempts - a" arbitrary: a s)
  case 0
  obtain rs v s1 where b: "coalesceBurst env g a token s = ((rs, v), s1)" by (metis surj_pair)
  have "a = coalesceAttempts" using 0 by simp
  then have "s1 = s'" using 0(3) unfolding coalesce_loop.simps [of env g token a s] b by (auto split: option.splits verdict.splits)
  then show ?case using R_coalesceBurst [of s g a token] by (simp add: b)
next
  case (Suc n)
  obtain rs v s1 where b: "coalesceBurst env g a token s = ((rs, v), s1)" by (metis surj_pair)
  have "R s s1" using R_coalesceBurst [of s g a token] by (simp add: b)
  moreover have "s1 = s' \<or> coalesce_loop env g token (a + 1) s1 = Some (rv, s')"
    using Suc.prems(2) unfolding coalesce_loop.simps [of env g token a s] b by (auto split: if_splits)
  moreover have "n = coalesceAttempts - (a + 1)" "a + 1 \<le> coalesceAttempts" using Suc.hyps(2) by simp_all
  ultimately show ?case using Suc.hyps(1) [of "a + 1" s1] R_trans by blast
qed

lemma R_coalesced: "coalescedImpersonation env g s = Some (rs, s') \<Longrightarrow> R s s'"
  using R_coalesce_loop [of 1 g _ s _ s']
  by (auto simp: coalescedImpersonation_def coalesceAttempts_def R_refl split: sum.splits)

text \<open>Every scenario returns, and keeps the relation.\<close>

lemma R_scenario:
  assumes "sc \<in> set (scenarios env g)"
  shows "\<exists>rs s'. sc_run sc s = Some (rs, s') \<and> R s s'"
proof -
  have ret: "\<exists>rs s'. p = (rs, s') \<and> R s s'" if "R s (snd p)" for p :: "result list \<times> 's lstate"
    using that by (cases p) simp
  have one: "\<exists>rs s'. sc_run (one env name want c) s = Some (rs, s') \<and> R s s'" if "\<And>s. R s (snd (c s))" for name want c
    using R_observe [OF that, of s name want] by (auto simp: one_def Let_def split: prod.splits)
  have host: "R s (snd (hostileMethods env g s))"
    unfolding hostileMethods_def by (auto intro!: R_hostile R_refl split: sum.split)
  have res: "\<exists>rs s'. (case observe env k1 w1 c1 s of (r1, s1) \<Rightarrow> case observe env k2 w2 c2 s1 of (r2, s2) \<Rightarrow> Some ([r1, r2], s2)) =
      Some (rs, s') \<and> R s s'"
    if c: "\<And>s. R s (snd (c1 s))" "\<And>s. R s (snd (c2 s))" for k1 w1 c1 k2 w2 c2
  proof -
    obtain r1 s1 r2 s2 where o: "observe env k1 w1 c1 s = (r1, s1)" "observe env k2 w2 c2 s1 = (r2, s2)" by (metis surj_pair)
    have "R s s1" "R s1 s2" using R_observe [OF c(1), of s k1 w1] R_observe [OF c(2), of s1 k2 w2] by (simp_all add: o)
    then show ?thesis using R_trans by (auto simp: o)
  qed
  have acc: "\<exists>rs s'. (case serviceAccountToken env g s of (Inl e, s1) \<Rightarrow> Some (failed_setup k e, s1)
      | (Inr token, s1) \<Rightarrow> Some (load_repeat env k n w (c token) s1)) = Some (rs, s') \<and> R s s'"
    if c: "\<And>tok s. R s (snd (c tok s))" for k n w c
  proof -
    obtain x s1 where a: "serviceAccountToken env g s = (x, s1)" by fastforce
    have "R s s1" using R_account [of s g] by (simp add: a)
    moreover have "R s1 (snd (load_repeat env k n w (c tok) s1))" for tok unfolding load_repeat_def by (rule R_repeat [OF c])
    ultimately show ?thesis
      by (cases x; simp add: a) (metis R_trans prod.collapse)
  qed
  have coal: "\<exists>rs s'. coalescedImpersonation env g s = Some (rs, s') \<and> R s s'"
    using coalescing_returns_with_evidence [of env g s] R_coalesced by blast
  from assms show ?thesis
    by (auto simp: scenarios_def Let_def load_repeat_def simp del: split_paired_Ex
        intro!: one ret acc res coal host R_do R_with_token R_streams R_repeat R_noUsernameClaim)
qed

end

section \<open>Running them once\<close>

fun is_call :: "load_log \<Rightarrow> bool" where
  "is_call (LogCall _ _ _ _ _) = True"
| "is_call _ = False"

text \<open>A scenario neither opens nor closes a tunnel, and writes no record of a call.\<close>

definition same_books :: "'s lstate \<Rightarrow> 's lstate \<Rightarrow> bool" where
  "same_books s s' = (ls_tunnels s' = ls_tunnels s \<and> filter is_call (ls_log s') = filter is_call (ls_log s))"

interpretation bookkeeping: load_relation env same_books for env
  by unfold_locales (auto simp: same_books_def log_load_def)

text \<open>The results of the calls a run of scenarios makes, in order.\<close>

fun results_of :: "'s scenario list \<Rightarrow> 's lstate \<Rightarrow> result list" where
  "results_of [] s = []"
| "results_of (sc # scs) s = (case load_call sc s of None \<Rightarrow> [] | Some (rs, s1) \<Rightarrow> rs @ results_of scs s1)"

lemma failure_of_ok: "failure_of r = [] \<longleftrightarrow> result_ok r"
  by (auto simp: failure_of_def result_ok_def split: option.splits)

lemma filter_log_call: "filter is_call (map log_call rs) = map log_call rs"
  by (induction rs) (simp_all add: log_call_def)

lemma once_loop_returns:
  assumes "\<And>sc s. sc \<in> set scs \<Longrightarrow> \<exists>rs s'. sc_run sc s = Some (rs, s') \<and> same_books s s'"
  shows "\<exists>s'. once_loop scs fs n s = Some ((fs @ concat (map failure_of (results_of scs s)), n + length (results_of scs s)), s') \<and>
    filter is_call (ls_log s') = filter is_call (ls_log s) @ map log_call (results_of scs s) \<and> ls_tunnels s' = ls_tunnels s"
  using assms
proof (induction scs arbitrary: fs n s)
  case (Cons sc scs)
  obtain rs s0 where r: "sc_run sc s = Some (rs, s0)" "same_books s s0" using Cons.prems [of sc s] by auto
  define s1 where "s1 = s0\<lparr>ls_log := ls_log s0 @ map log_call rs\<rparr>"
  have c: "load_call sc s = Some (rs, s1)" by (simp add: load_call_def r s1_def)
  have "\<exists>s'. once_loop scs (fs @ concat (map failure_of rs)) (n + length rs) s1 =
      Some (((fs @ concat (map failure_of rs)) @ concat (map failure_of (results_of scs s1)), (n + length rs) + length (results_of scs s1)), s') \<and>
      filter is_call (ls_log s') = filter is_call (ls_log s1) @ map log_call (results_of scs s1) \<and> ls_tunnels s' = ls_tunnels s1"
    by (rule Cons.IH) (use Cons.prems in auto)
  moreover have "filter is_call (ls_log s1) = filter is_call (ls_log s) @ map log_call rs" "ls_tunnels s1 = ls_tunnels s"
    using r(2) by (simp_all add: s1_def same_books_def filter_log_call)
  ultimately show ?case by (auto simp: c)
qed simp

lemma concat_failures: "concat (map failure_of rs) = [] \<longleftrightarrow> list_all result_ok rs"
  by (induction rs) (simp_all add: failure_of_ok)

text \<open>
  C34. A run of \<^verbatim>\<open>--once\<close> is a faithful test. It returns, it succeeds exactly when every single call of
  every scenario answered with the status expected of it, and its log has one record per call made, in order.
\<close>

theorem once_passes_exactly:
  "\<exists>e s'. runOnce (scenarios env g) s = Some (e, s') \<and>
    (e = None \<longleftrightarrow> list_all result_ok (results_of (scenarios env g) s)) \<and>
    filter is_call (ls_log s') = filter is_call (ls_log s) @ map log_call (results_of (scenarios env g) s)"
proof -
  have "\<exists>rs s'. sc_run sc s = Some (rs, s') \<and> same_books s s'" if "sc \<in> set (scenarios env g)" for sc s
    using bookkeeping.R_scenario [OF that] .
  from once_loop_returns [OF this, of "scenarios env g" "[]" 0 s]
  obtain s' where l: "once_loop (scenarios env g) [] 0 s =
      Some ((concat (map failure_of (results_of (scenarios env g) s)), length (results_of (scenarios env g) s)), s')"
    "filter is_call (ls_log s') = filter is_call (ls_log s) @ map log_call (results_of (scenarios env g) s)" by auto
  show ?thesis
    by (cases "list_all result_ok (results_of (scenarios env g) s)")
      (use concat_failures [of "results_of (scenarios env g) s"] l(2) in \<open>auto simp: runOnce_def l(1) log_load_def\<close>)
qed

section \<open>The command returns\<close>

text \<open>A clock that does not go back, and a wait that takes its time.\<close>

definition steady :: "'s load_env \<Rightarrow> bool" where
  "steady env = (\<forall>o1 o2. outside_moves env o1 o2 \<longrightarrow> le_now env o1 \<le> le_now env o2)"

definition timely :: "'s load_env \<Rightarrow> bool" where
  "timely env = (steady env \<and> (\<forall>d o1 o2. le_After env d o1 = (None, o2) \<longrightarrow> le_now env o1 + d \<le> le_now env o2))"

interpretation clock: load_relation env "\<lambda>s s'. steady env \<longrightarrow> le_now env (ls_out s) \<le> le_now env (ls_out s')" for env
  by unfold_locales (auto simp: steady_def log_load_def)

lemma load_call_returns:
  assumes "sc \<in> set (scenarios env g)" "steady env"
  shows "\<exists>rs s'. load_call sc s = Some (rs, s') \<and> ls_tunnels s' = ls_tunnels s \<and> le_now env (ls_out s) \<le> le_now env (ls_out s')"
  using bookkeeping.R_scenario [OF assms(1), of s] clock.R_scenario [OF assms(1), of s] assms(2)
  by (auto simp: load_call_def same_books_def)

lemma for_loop_returns:
  assumes "timely env" "0 < interval"
  shows "\<exists>r s'. for_loop env (scenarios env g) deadline interval i s = Some (r, s') \<and> ls_tunnels s' = ls_tunnels s"
proof (induction "nat (deadline - le_now env (ls_out s))" arbitrary: i s rule: less_induct)
  case less
  let ?sc = "scenarios env g ! (i mod length (scenarios env g))"
  have "0 < length (scenarios env g)" by (simp add: scenarios_def Let_def)
  then have "?sc \<in> set (scenarios env g)" by simp
  then obtain rs s1 where c: "load_call ?sc s = Some (rs, s1)" "ls_tunnels s1 = ls_tunnels s"
    "le_now env (ls_out s) \<le> le_now env (ls_out s1)"
    using load_call_returns assms(1) unfolding timely_def by blast
  define s2 where "s2 = s1\<lparr>ls_log := ls_log s1 @ concat (map log_failure rs)\<rparr>"
  obtain w o3 where w: "le_After env interval (ls_out s1) = (w, o3)" by fastforce
  have out: "on_out (le_After env interval) s2 = (w, s2\<lparr>ls_out := o3\<rparr>)" by (simp add: on_out_def s2_def w)
  note unfold = for_loop.simps [of env "scenarios env g" deadline interval i s] c(1) option.case prod.case s2_def [symmetric] out
  show ?case
  proof (cases "le_now env (ls_out s) < deadline")
    case True
    show ?thesis
    proof (cases w)
      case None
      have "le_now env (ls_out s) < le_now env o3" using assms c(3) w None unfolding timely_def by fastforce
      then have "nat (deadline - le_now env (ls_out (s2\<lparr>ls_out := o3\<rparr>))) < nat (deadline - le_now env (ls_out s))" using True by simp
      from less.hyps [OF this, of "i + 1"] show ?thesis unfolding unfold using True None c(2) by (auto simp: s2_def)
    next
      case (Some e)
      then show ?thesis unfolding unfold using True c(2) by (auto simp: s2_def)
    qed
  next
    case False
    then show ?thesis by (subst for_loop.simps) auto
  qed
qed

lemma open_close_tunnels:
  assumes "open_tunnel env tg rm sch s = (r, s1)"
  shows "ls_tunnels s1 = ls_tunnels s @ (case r of Inl _ \<Rightarrow> [] | Inr t \<Rightarrow> [t])"
  using assms by (auto simp: open_tunnel_def on_out_def split: prod.splits sum.splits)

lemma pin_tunnels:
  assumes "pin env ns s = (r, s1)"
  shows "mset (ls_tunnels s1) = mset (ls_tunnels s) + (case r of Inl _ \<Rightarrow> {#} | Inr p \<Rightarrow> {#pp_proxy p, pp_metrics p#})"
  using assms
  by (auto simp: pin_def on_out_def close_tunnel_def split: prod.splits sum.splits option.splits if_splits dest!: open_close_tunnels)

text \<open>
  C33. The command returns and leaves no tunnel open. With a clock that runs and a positive interval, a run of
  the load generator comes to its end, once or for a duration, and on every path -- a failing
  setup, no pod, a metrics port that cannot be forwarded, failing calls -- every tunnel it opened has been closed.
\<close>

theorem load_run_returns_and_closes:
  assumes "timely env" "0 < interval"
  shows "\<exists>e s'. load_run env u ns dur interval once s = Some (e, s') \<and> mset (ls_tunnels s') = mset (ls_tunnels s)"
proof -
  have runs: "\<exists>e s'. (if once then runOnce (scenarios env g) s2 else runFor env (scenarios env g) dur interval s2) = Some (e, s') \<and>
      ls_tunnels s' = ls_tunnels s2" for g s2
  proof (cases once)
    case True
    have "\<exists>rs s'. sc_run sc s = Some (rs, s') \<and> same_books s s'" if "sc \<in> set (scenarios env g)" for sc s
      using bookkeeping.R_scenario [OF that] .
    from once_loop_returns [OF this, of "scenarios env g" "[]" 0 s2] show ?thesis
      using True by (auto simp: runOnce_def log_load_def)
  next
    case False
    obtain r s' where "for_loop env (scenarios env g) (le_now env (ls_out s2) + dur) interval 0 s2 = Some (r, s')" "ls_tunnels s' = ls_tunnels s2"
      using for_loop_returns [OF assms] by blast
    then show ?thesis using False by (cases r) (simp_all add: runFor_def log_load_def)
  qed
  define inner where "inner tun s1 = (case le_newGenerator env of
      Some e \<Rightarrow> Some (Some e, s1)
    | None \<Rightarrow>
      (case pin env ns s1 of
         (Inl e, s2) \<Rightarrow> Some (Some e, s2)
       | (Inr p, s2) \<Rightarrow>
         map_option (\<lambda>(e, s'). (e, pinned_Close env p s'))
           (let scs = scenarios env \<lparr>ge_namespace = ns, ge_tunnel = tun, ge_pinned = p, ge_issuerURL = u\<rparr> in
            if once then runOnce scs s2 else runFor env scs dur interval s2)))" for tun and s1 :: "'a lstate"
  have inner: "\<exists>e s'. inner tun s1 = Some (e, s') \<and> mset (ls_tunnels s') = mset (ls_tunnels s1)" for tun s1
  proof (cases "le_newGenerator env")
    case None
    obtain r s2 where p: "pin env ns s1 = (r, s2)" by fastforce
    show ?thesis
    proof (cases r)
      case (Inr pp)
      obtain e s3 where "(let scs = scenarios env \<lparr>ge_namespace = ns, ge_tunnel = tun, ge_pinned = pp, ge_issuerURL = u\<rparr> in
          if once then runOnce scs s2 else runFor env scs dur interval s2) = Some (e, s3)" "ls_tunnels s3 = ls_tunnels s2"
        using runs unfolding Let_def by blast
      then show ?thesis
        using pin_tunnels [OF p] by (simp add: inner_def None p Inr pinned_Close_def close_tunnel_def)
    qed (use pin_tunnels [OF p] in \<open>simp add: inner_def None p\<close>)
  qed (simp add: inner_def)
  show ?thesis
  proof (cases "le_loadState env")
    case None
    obtain r s1 where o: "open_tunnel env ''svc/kop-kube-oidc-proxy'' 443 ''https'' s = (r, s1)" by fastforce
    show ?thesis
    proof (cases r)
      case (Inr tun)
      obtain e s2 where i: "inner tun s1 = Some (e, s2)" "mset (ls_tunnels s2) = mset (ls_tunnels s1)" using inner by blast
      have "load_run env u ns dur interval once s = Some (e, close_tunnel env tun s2)"
        using i(1) by (simp add: load_run_def None o Inr inner_def)
      then show ?thesis using i(2) open_close_tunnels [OF o] by (simp add: Inr close_tunnel_def)
    qed (use open_close_tunnels [OF o] in \<open>simp add: load_run_def None o\<close>)
  qed (simp add: load_run_def)
qed

theorem load_run_returns_and_closes_witness:
  "\<exists>e s'. load_run demo_load_env [] ''proxy'' (seconds 600) (seconds 1) False demo_lstate = Some (e, s') \<and> ls_tunnels s' = []"
proof -
  have "timely demo_load_env"
    by (auto simp: timely_def steady_def outside_moves_def demo_load_env_def split: prod.splits)
  from load_run_returns_and_closes [OF this, of "seconds 1" "[]" "''proxy''" "seconds 600" False demo_lstate] show ?thesis
    by (simp add: demo_lstate_def)
qed

section \<open>What the generator repeats of the proxy\<close>

text \<open>
  The program is a client of the deployed proxy and imports none of its packages, so it repeats what it
  relies on: the lifetime of a cached decision, the names of three metric families, and that a hundred
  and one impersonation values are over the default cap.
\<close>

lemma repeats_the_proxy:
  "sarCacheTTL = DefaultAllowCacheTTL"
  "metricDecisions = nameAccessDecisions" "metricReviewCalls = nameReviewRequests" "metricCacheLookups = nameCacheLookups"
  "DefaultMaxHeaderValues < int (countImpersonationHeaderValues tooManyHeaders)"
proof -
  show "sarCacheTTL = DefaultAllowCacheTTL" by (simp add: sarCacheTTL_def DefaultAllowCacheTTL_def)
  show "metricDecisions = nameAccessDecisions" "metricReviewCalls = nameReviewRequests" "metricCacheLookups = nameCacheLookups"
    by code_simp+
  have adds: "hdr_values (fold (\<lambda>i h. hdr_add h ''Impersonate-Group'' (f i)) is h) ''Impersonate-Group'' =
      hdr_values h ''Impersonate-Group'' @ map f is" for f "is" h
    by (induction "is" arbitrary: h) (simp_all add: hdr_simps)
  have le: "length (hdr_values h k) \<le> countImpersonationHeaderValues h" if "impersonation_key (canonical_key k)" for h k
    using that by (induction h) (auto simp: hdr_values_def split: option.splits)
  have "impersonation_key (canonical_key ''Impersonate-Group'')" by code_simp
  from le [OF this, of tooManyHeaders] have "100 \<le> countImpersonationHeaderValues tooManyHeaders"
    unfolding tooManyHeaders_def adds by simp
  then show "DefaultMaxHeaderValues < int (countImpersonationHeaderValues tooManyHeaders)" by (simp add: DefaultMaxHeaderValues_def)
qed

end
