(* ===== verification/Spec2Isabelle.thy ===== *)
theory Spec2Isabelle
  imports Lifetime DocGen LoadGen
begin

text \<open>
  kube-oidc-proxy, verified. The proxy stands in front of a Kubernetes API server: it authenticates a
  request with OIDC (or, when configured, with a TokenReview of the API server), decides whom the
  request acts as, and forwards it with its own credentials and impersonation headers. This
  development models the Go code of \<^verbatim>\<open>pkg/\<close> and \<^verbatim>\<open>cmd/\<close>, and the documentation and load generators of \<^verbatim>\<open>hack/\<close>,
  as executable definitions and proves what makes it correct.

  \<^bold>\<open>How the parts meet.\<close> The command (\<^verbatim>\<open>cmd/app/run.go\<close>) validates the options, builds the loggers, the
  metrics recorder, the reviewers, the token authenticators and the proxy, starts the listeners, and
  takes them down after a signal. Every request runs through the filters \<open>withHandlers\<close> composes:
  request id, request info, lifecycle, sanitised forward headers, authentication (OIDC, then
  TokenReview), impersonation, audit, and the round tripper that sends the call. Each filter either
  answers through the error handler or hands the request on. All of them report through the event registry and the recorder.

  \<^bold>\<open>Modelling conventions.\<close> A string is its bytes. Stateful code passes its state: the record \<open>tele\<close>
  (clock, log stream, metric updates) is extended by \<open>rstate\<close> (the per-request holders), \<open>tr_state\<close> and \<open>sar_state\<close> (the two caches and the calls
  sent) and \<open>world\<close> (the connection and everything else a handler writes). A handler is a function of writer, request and
  world giving a possible panic and the new world. Go errors are the trees of \<open>err\<close>; a nil error is
  \<open>None\<close>. A Go map that is ranged over is the list of its entries in some order, and theorems hold for
  every order. A nanosecond duration is an \<open>int\<close>. Code outside the repository (the API server, the
  OIDC authenticators, the LRU stores, HMAC and SHA-256, the audit filters, listeners and files) is an
  argument, usually a field of an environment record; what is relied on of it is a named predicate
  (\<open>sound_env\<close>, \<open>aggregates\<close>, \<open>wired\<close>, the laws of the cache locale). Loops are
  structural recursions or functions with a measure, and the two without a bound of their own partial
  functions proved to return, so no fuel is needed.

  \<^bold>\<open>The theories.\<close>
  \<^item> \<open>Prelude\<close>, \<open>GoErrors\<close>, \<open>NetAddr\<close>: strings, UTF-8, white space, decimal rendering, HTTP headers;
    \<open>errors.Is\<close>, \<open>errors.As\<close> and \<open>errors.Join\<close>; \<open>ParseIP\<close>, \<open>ParseCIDR\<close>, \<open>Contains\<close>, \<open>SplitHostPort\<close>.
  \<^item> \<open>Events\<close>, \<open>Logging\<close> (\<^verbatim>\<open>pkg/logging\<close>): the event registry, sanitising, emission, the warning limiter,
    the klog bridge. Every registered event is emitted with its level; what the limiter drops is reported.
  \<^item> \<open>Metrics\<close> (\<^verbatim>\<open>pkg/metrics\<close>): catalogue, projections, recorder, listener. No call can leave the vocabulary.
  \<^item> \<open>RequestContext\<close>, \<open>AccessLog\<close> (\<^verbatim>\<open>pkg/proxy/context\<close>, \<^verbatim>\<open>pkg/proxy/logging\<close>): context values,
    client-address resolution, the access record; the two resolvers agree.
  \<^item> \<open>ExpireCache\<close>, \<open>TokenReview\<close>, \<open>SubjectAccessReview\<close> (\<^verbatim>\<open>pkg/proxy/tokenreview\<close>, \<^verbatim>\<open>subjectaccessreview\<close>):
    the contract of an expiring store as a locale, interpreted for both caches; a cached
    answer is never older than its lifetime, failures are never cached, and an impersonation is granted part by part.
  \<^item> \<open>Hooks\<close>, \<open>AuditChain\<close>, \<open>Response\<close>, \<open>Lifecycle\<close> (\<^verbatim>\<open>pkg/proxy/hooks\<close>, \<^verbatim>\<open>audit\<close>, \<^verbatim>\<open>lifecycle.go\<close>): the
    shutdown registry, the audit filters, the response recorder against the connection, and the one
    terminal record of a request.
  \<^item> \<open>Proxy\<close>, \<open>Handlers\<close> (\<^verbatim>\<open>proxy.go\<close>, \<^verbatim>\<open>issuerattr.go\<close>, \<^verbatim>\<open>handlers.go\<close>, \<^verbatim>\<open>requestid.go\<close>): construction, the round
    tripper, every filter, the error handler and the chain.
  \<^item> \<open>Calm\<close>, \<open>Decision\<close>, \<open>Quiet\<close>, \<open>Chain\<close>, \<open>Gate\<close>, \<open>Serve\<close>, \<open>Forward\<close>, \<open>Delivery\<close>: the composed request path.
    \<open>Calm\<close> is what a step leaves alone, \<open>Decision\<close> the single access decision, \<open>Quiet\<close> which steps ask no review,
    \<open>Chain\<close> the calls each filter can lead to, \<open>Gate\<close> the abstract admission rules (\<open>admits\<close>), \<open>Serve\<close> the whole chain as stages,
    \<open>Forward\<close> the headers of the outgoing call, \<open>Delivery\<close> that an accepted caller gets through.
  \<^item> \<open>Machines\<close>, \<open>Probe\<close> (\<^verbatim>\<open>pkg/probe\<close>): interleaved state machines with inductive and latched invariants and
    with a bounded amount of work as locales; readiness as such a machine, checks in flight overlapping each other and the start of serving.
  \<^item> \<open>Paths\<close>, \<open>Traffic\<close>, \<open>Lifetime\<close>: what a request does to the two caches, as one locale with an interpretation for
    each; a run of requests as a machine whose invariants tie every cached answer to a review made during the
    run and every exchange to its records; and that a successful startup is a state such a run can begin in.
  \<^item> \<open>Signals\<close>, \<open>Flags\<close> (\<^verbatim>\<open>pkg/util\<close>): the signal goroutine as a machine over received signals; the
    map-valued flag with the CSV reader and writer it uses, and their round trip.
  \<^item> \<open>Options\<close>, \<open>Startup\<close>, \<open>App\<close> (\<^verbatim>\<open>cmd\<close>): defaults and validation; fingerprint, issuer names and token
    authenticators; the run from validation to the drain, with the order of its effects and what a failure leaves behind.
  \<^item> \<open>DocGen\<close> (\<^verbatim>\<open>hack/eventdoc\<close>, \<^verbatim>\<open>hack/metricdoc\<close>): the tables read back as the registry and the catalogue, and a written
    file is up to date. \<open>Tunnel\<close>, \<open>LoadGen\<close> (\<^verbatim>\<open>hack/metrics-demo/load\<close>): the goroutines of a port-forward
    as a machine that stops each process once and winds down when cancelled; the scenarios, their runs and the command.
  \<^item> this theory: the end-to-end theorems about \<open>serve_request\<close>, on a concrete proxy as witness.

  \<^bold>\<open>What the end-to-end theorems say.\<close> Serving any request sends at most one call, and only one the
  admission rules allow; an accepted caller does get it; no reserved identity and no impersonation header of the client goes out;
  the forwarded address list and the request id are vouched for. Over any run of requests: each leaves exactly one access
  decision, one terminal record and one counted request, and the calls sent are those of the requests entered as
  allowed; from empty caches, an impersonated identity was granted to the caller, and a token
  passed through was authenticated, during the run and within the cache's lifetime. A successful
  startup leaves such a proxy with such caches. Three theorems record behaviour that differs from what the
  source means to do: the token is lost when impersonation is disabled, a forwarding header whose first
  value is empty is not sanitised, and the configuration fingerprint depends on a map's order.

  \<^bold>\<open>Not modelled.\<close> The demo's issuer (\<^verbatim>\<open>hack/metrics-demo/issuer\<close>) and the test code of \<^verbatim>\<open>test/\<close>, which drive a
  cluster; of the load generator the reading of its state files, the construction of clients and the bodies of
  its watch and exec calls; \<open>FakeJWT\<close> (a call into go-jose) and the free-port helper; usage output and the flags of the embedded
  Kubernetes option structs; client throttling. Requests are served one at a time: what concurrent requests share, the
  caches, enters as an arbitrary state and an arbitrary schedule of shared calls. Text with non-ASCII
  bytes is quoted by \<open>%q\<close> as if printable.
\<close>

section \<open>A proxy to try the theorems on\<close>

definition demo_auditor :: auditor where
  "demo_auditor = \<lparr>au_logger = Discard, au_metrics = NilRecorder, au_AuditBackend = None,
     au_BasicLongRunningRequestCheck = (\<lambda>_ _ _ _. False), au_RequestInfoFilter = (\<lambda>h. h), au_WithAudit = (\<lambda>h. h),
     au_WithAuditInit = (\<lambda>h. h), au_WithFailedAuthenticationAudit = (\<lambda>h. h)\<rparr>"

definition demo_config :: config where
  "demo_config = \<lparr>DisableImpersonation = False, TokenReviewEnabled = True, AllowedReservedGroups = [], FlushInterval = 0,
     ExternalAddress = [], ExtraUserHeaders = [], ExtraUserHeadersClientIPEnabled = False, TrustedProxies = []\<rparr>"

definition demo_proxy :: proxy where
  "demo_proxy = \<lparr>p_tokenReviewer = NewCached demo_env demo_reviewer 10 10, p_subjectAccessReviewer = demo_sar,
     p_auditor = demo_auditor, p_config = demo_config, p_logger = logger_for 0 ComponentRequest, p_oidcLog = None,
     p_tokenReviewLog = None, p_upstreamLog = None, p_trustedProxies = [], p_allowedReservedGroups = [],
     p_access = NewAccessLogger (Some (logger_for 0 ComponentRequest)) [], p_metrics = Recorder, p_hooks = hooks_New None\<rparr>"

text \<open>An authenticator that takes the token \<open>alice\<close> for that user, and an API server that answers everything.\<close>

definition demo_answer :: "request \<Rightarrow> oidc_answer" where
  "demo_answer q = (let ok = (hdr_get (Header q) ''Authorization'' = ''Bearer alice'') in
     \<lparr>oa_User = demo_user ''alice'', oa_ok = ok, oa_err = (if ok then None else Some (NewError ''not an OIDC token'')),
      oa_issuer = ''issuer'', oa_header = (if ok then hdr_del (Header q) ''Authorization'' else Header q)\<rparr>)"

definition demo_transport :: transport where
  "demo_transport c s = (3, [], Inr \<lparr>ur_StatusCode = 200, ur_Header = [], ur_Body = [(5, False)], ur_readErr = False, ur_writable = False\<rparr>)"

definition demo_proxy_env :: env where
  "demo_proxy_env = \<lparr>ev_AuthenticateRequest = (\<lambda>q _. demo_answer q), ev_NewUUID = (\<lambda>n. ''uuid-'' @ nat_digits n),
     ev_bucket = (\<lambda>_ _. True), ev_sar = demo_sar_env, ev_clientTransport = demo_transport,
     ev_noAuthClientTransport = Some demo_transport, ev_ctxErr = (\<lambda>_. None)\<rparr>"

text \<open>The same proxy with impersonation and TokenReview switched off.\<close>

definition direct_proxy :: proxy where
  "direct_proxy = demo_proxy\<lparr>p_config := demo_config\<lparr>DisableImpersonation := True, TokenReviewEnabled := False\<rparr>\<rparr>"

definition alice_request :: request where
  "alice_request = demo_request [(''Authorization'', [''Bearer alice'']), (''Accept'', [''*/*''])]"

definition alice_served :: "panic option \<times> world" where
  "alice_served = serve_request demo_proxy_env demo_proxy Raw alice_request demo_world"

definition bob_request :: request where
  "bob_request = demo_request [(''Authorization'', [''Bearer alice'']), (''Impersonate-User'', [''bob''])]"

definition bob_served :: "panic option \<times> world" where
  "bob_served = serve_request demo_proxy_env demo_proxy Raw bob_request demo_world"

definition alice_direct :: "panic option \<times> world" where
  "alice_direct = serve_request demo_proxy_env direct_proxy Raw alice_request demo_world"

lemma transparent_id: "transparent (\<lambda>h. h)"
  unfolding transparent_def
proof (intro allI)
  fix h :: handler and w req s
  obtain r s2 where "h w req s = (r, s2)" by (metis surj_pair)
  moreover have "with_info (requestInfoKey (Ctx req)) req = req" by (simp add: with_info_def)
  ultimately show "\<exists>ri s1 r s2 s3. audit_only s s1 \<and> h w (with_info ri req) s1 = (r, s2) \<and> audit_only s2 s3 \<and> h w req s = (r, s3)"
    by (metis audit_only_refl)
qed

lemma demo_sound: "sound_env demo_proxy_env demo_proxy"
proof -
  have "keeps_headers demo_proxy_env"
    by (auto simp: keeps_headers_def demo_proxy_env_def demo_answer_def Let_def hdr_simps hop_header_names)
  then show ?thesis
    by (simp add: sound_env_def demo_proxy_def demo_auditor_def transparent_audit_def transparent_id wired_def demo_proxy_env_def
        calm_NewCached)
qed

lemma direct_sound: "sound_env demo_proxy_env direct_proxy"
  using demo_sound by (simp add: sound_env_def direct_proxy_def wired_def demo_proxy_env_def)

lemma alice_fresh: "fresh alice_request"
  unfolding fresh_def by (rule conjI, simp add: alice_request_def demo_request_def, code_simp)

lemma alice_runs: "serve_request demo_proxy_env demo_proxy Raw alice_request demo_world = (fst alice_served, snd alice_served)"
  by (simp add: alice_served_def)

lemma bob_runs: "serve_request demo_proxy_env demo_proxy Raw bob_request demo_world = (fst bob_served, snd bob_served)"
  by (simp add: bob_served_def)

section \<open>Which calls reach the API server\<close>

text \<open>
  C1. Serving any request, on any path through the filters, sends at most one call to the API server,
  and only one that the four rules of \<open>admits\<close> allow for the request as it arrives at the
  authentication filter.
\<close>

theorem every_call_is_admitted:
  assumes "sound_env ev p" "fresh r0" "serve_request ev p w r0 s0 = (r, s')"
  shows "\<exists>ups. w_upstream s' = w_upstream s0 @ ups \<and>
    (ups = [] \<or> (\<exists>c a s. ups = [c] \<and> arrives p r0 a \<and> Header a = arriving_header ev p r0 s0 \<and> backends s = backends s0 \<and>
       admits ev p a s s' c))"
  using serve_request_result [OF assms] unfolding admitted_def by metis

theorem every_call_is_admitted_witness:
  "\<exists>ups. w_upstream (snd alice_served) = ups \<and>
    (ups = [] \<or> (\<exists>c a s. ups = [c] \<and> arrives demo_proxy alice_request a \<and>
       Header a = arriving_header demo_proxy_env demo_proxy alice_request demo_world \<and> backends s = backends demo_world \<and>
       admits demo_proxy_env demo_proxy a s (snd alice_served) c))"
  using every_call_is_admitted [OF demo_sound alice_fresh alice_runs] by (simp add: demo_world_def)

lemma serve_delivers_impersonated:
  assumes "sound_env ev p" "fresh r0" "serve_request ev p w r0 s0 = (r, s')"
    and "lets_in ev p r0" "\<not> DisableImpersonation (p_config p)" "hdr_values (Header r0) ''Connection'' = []"
    and "\<not> hasImpersonation (Header r0) \<or> lets_impersonate ev p r0 s0"
  shows "\<exists>conf q. w_upstream s' = w_upstream s0 @ [UpImpersonated conf q]"
proof -
  have "w_upstream s' \<noteq> w_upstream s0" using serve_delivers [OF assms(1-4,6)] assms(7) by blast
  then obtain c a s where c: "w_upstream s' = w_upstream s0 @ [c]" "arrives p r0 a" "admits ev p a s s' c"
    using serve_request_result [OF assms(1-3)] unfolding admitted_def by (metis append_Nil2)
  have "oa_err (ev_AuthenticateRequest ev a s) = None"
    using assms(4) c(2) unfolding lets_in_def accepted_def Let_def by blast
  with c(3) assms(5) show ?thesis unfolding c(1) by cases auto
qed


lemma alice_let_in_any:
  assumes "hdr_values (Header r) ''Authorization'' = [''Bearer alice'']"
  shows "lets_in demo_proxy_env p r"
proof -
  have "hdr_get (Header q) ''Authorization'' = ''Bearer alice''" if "arrives p r q" for q
    using that assms by (simp add: arrives_def hop_header_names hdr_get_def)
  then show ?thesis
    by (simp add: lets_in_def Let_def accepted_def demo_proxy_env_def demo_answer_def demo_user_def
        checkReservedIdentity_def has_prefix_def reservedIdentityPrefix_def)
qed

lemmas alice_let_in = alice_let_in_any [of _ demo_proxy]

lemma alice_plain: "\<not> hasImpersonation (Header alice_request)" "hdr_values (Header alice_request) ''Connection'' = []"
  "hdr_values (Header alice_request) ''Authorization'' = [''Bearer alice'']"
  by code_simp+

text \<open>Alice asking to act as \<open>bob\<close>.\<close>

lemma bob_plain: "hdr_values (Header bob_request) ''Connection'' = []"
  "hdr_values (Header bob_request) ''Authorization'' = [''Bearer alice'']"
  "canonical_header (Header bob_request)" "hasImpersonation (Header bob_request)"
  "validRequestID (hdr_get (Header bob_request) ''Audit-ID'') = []" "validRequestID (hdr_get (Header bob_request) ''X-Request-ID'') = []"
  by code_simp+

lemma bob_fresh: "fresh bob_request"
  using bob_plain(3) by (simp add: fresh_def bob_request_def demo_request_def)

lemma bob_arrives: "arriving_header demo_proxy_env demo_proxy bob_request demo_world =
    [(''Authorization'', [''Bearer alice'']), (''Impersonate-User'', [''bob'']), (''Audit-Id'', [''uuid-0''])]"
  by code_simp

lemma bob_let_impersonate: "lets_impersonate demo_proxy_env demo_proxy bob_request demo_world"
  unfolding lets_impersonate_def bob_arrives
proof (intro allI impI)
  fix a q :: request and s s1 :: world
  assume a: "Header a = [(''Authorization'', [''Bearer alice'']), (''Impersonate-User'', [''bob'']), (''Audit-Id'', [''uuid-0''])]"
    and b: "backends s1 = backends demo_world" and q: "Header q = oa_header (ev_AuthenticateRequest demo_proxy_env a s)"
  have ans: "oa_User (ev_AuthenticateRequest demo_proxy_env a s) = demo_user ''alice''" by (simp add: demo_proxy_env_def demo_answer_def Let_def)
  have h: "Header q = [(''Impersonate-User'', [''bob'']), (''Audit-Id'', [''uuid-0''])]"
    unfolding q by (simp add: demo_proxy_env_def demo_answer_def Let_def a hdr_get_def hdr_values_def hdr_del_def hop_header_names)
  have st: "sar_cache s1 = newDecisionCache lru_unbounded 10 10" "sar_calls s1 = []" "sar_asked s1 = 0" "t_now s1 = 0"
    using b by (simp_all add: backends_def demo_world_def)
  have "to_lower ''Audit-Id'' = ''audit-id''" by code_simp
  then show "\<exists>t. fst (CheckAuthorizedForImpersonation (ev_sar demo_proxy_env) (p_subjectAccessReviewer demo_proxy) q
      (oa_User (ev_AuthenticateRequest demo_proxy_env a s)) s1) = SarOk (Some t)"
    unfolding ans by (simp add: h st demo_proxy_env_def demo_proxy_def demo_sar_eval frame)
qed


section \<open>What is recorded\<close>



text \<open>Alice, then Alice asking to act as \<open>bob\<close>, then a caller with a token of the API server's.\<close>

definition carol_request :: request where
  "carol_request = demo_request [(''Authorization'', [''Bearer abc''])]"

definition demo_exchange :: "request \<Rightarrow> exchange" where
  "demo_exchange r = serve_exchange demo_proxy_env demo_proxy demo_conn r demo_world"

definition after_one :: "request \<Rightarrow> traffic" where
  "after_one r = \<lparr>tf_world = x_after (demo_exchange r), tf_served = [demo_exchange r]\<rparr>"

lemma after_one_reachable:
  assumes "fresh r"
  shows "reachable (\<lambda>T. T = at_start demo_world) (traffic_step demo_proxy_env demo_proxy) (after_one r)"
proof -
  have "traffic_step demo_proxy_env demo_proxy (at_start demo_world)
    \<lparr>tf_world = x_after (demo_exchange r), tf_served = tf_served (at_start demo_world) @ [demo_exchange r]\<rparr>"
    by (rule traffic_step.serve [OF assms]) (simp add: demo_exchange_def at_start_def)
  then show ?thesis
    by (intro reach_step [OF reach_init [of "\<lambda>T. T = at_start demo_world"]]) (simp_all add: after_one_def at_start_def)
qed

lemma demo_recording: "recording demo_proxy_env demo_proxy"
proof -
  have "emits (al_logger (p_access demo_proxy)) EventRequestAccessDecided" "emits (p_logger demo_proxy) EventRequestResponseCompleted"
    "p_metrics demo_proxy = Recorder"
    by code_simp+
  then show ?thesis using demo_sound by (simp add: recording_def)
qed

lemma demo_exchange_fields:
  "x_before (demo_exchange r) = demo_world" "x_request (demo_exchange r) = r"
  "x_after (demo_exchange r) = snd (serve_request demo_proxy_env demo_proxy Raw r demo_world)"
proof -
  have "accept demo_conn demo_world = demo_world" by (simp add: accept_def demo_world_def)
  then show "x_before (demo_exchange r) = demo_world" "x_request (demo_exchange r) = r"
    "x_after (demo_exchange r) = snd (serve_request demo_proxy_env demo_proxy Raw r demo_world)"
    by (simp_all add: demo_exchange_def serve_exchange_def Let_def case_prod_beta)
qed



section \<open>What a call carries\<close>

lemma reserved_group_None:
  "reserved_group allowed gs = None \<longleftrightarrow>
     (\<forall>g \<in> set gs. has_prefix g reservedIdentityPrefix \<longrightarrow> g = AllAuthenticated \<or> g \<in> set allowed)"
  by (induction gs) auto

lemma checkReservedIdentity_None:
  "checkReservedIdentity u allowed = None \<longleftrightarrow> \<not> has_prefix (u_name u) reservedIdentityPrefix \<and>
     (\<forall>g \<in> set (u_groups u). has_prefix g reservedIdentityPrefix \<longrightarrow> g = AllAuthenticated \<or> g \<in> set allowed)"
  by (simp add: checkReservedIdentity_def reserved_group_None [symmetric] split: option.splits)


text \<open>
  C9. A call made with the proxy's own credentials carries no impersonation header of the client's,
  under any spelling: who it acts as is decided by the proxy alone.
\<close>

theorem client_impersonation_never_forwarded:
  assumes "sound_env ev p" "fresh r0" "serve_request ev p w r0 s0 = (r, s')" "w_upstream s' = w_upstream s0 @ ups"
    and "UpImpersonated conf q \<in> set ups"
  shows "\<not> hasImpersonation (Header q)"
proof -
  obtain a s where a: "arrives p r0 a" "admits ev p a s s' (UpImpersonated conf q)"
    by (rule served_call [OF assms])
  have kh: "keeps_headers ev" using assms(1) by (simp add: sound_env_def)
  obtain b where "carries a b (UpImpersonated conf q)"
    using admitted_carries [OF a(2) kh] a(1) by (auto simp: arrives_def)
  then show ?thesis by (auto simp: carries_def plain_call_def outgoing_no_impersonation)
qed


section \<open>On whose word\<close>

lemma fresh_caches_inv:
  assumes "fresh_caches allow ok w"
  shows "sar_inv env w" "tr_inv tenv w" "max 0 (dc_ttl (sar_cache w) True) = max 0 allow" "tc_successTTL (tr_store w) = ok"
  using assms unfolding fresh_caches_def
  by (auto intro: sar_inv_new tr_inv_new simp: newTokenCache_def) (simp add: newDecisionCache_def dc_ttl_def)

lemma served_exchange:
  assumes "running tenv ev p" "fresh_caches allow ok w0" "reachable (\<lambda>T. T = at_start w0) (traffic_step ev p) T" "x \<in> set (tf_served T)"
  shows "exchange_ok tenv ev p w0 (tf_world T) x"
proof -
  have "reachable (\<lambda>T. running tenv ev p \<and> T = at_start w0 \<and> sar_inv (ev_sar ev) w0 \<and> tr_inv tenv w0) (traffic_step ev p) T"
    using assms(1,3) fresh_caches_inv(1,2) [OF assms(2)] by simp
  from truth.always [OF this] assms(4) show ?thesis by (simp add: cached_truth_def)
qed

lemma exchange_calls:
  assumes "exchange_ok tenv ev p w0 w x" "running tenv ev p"
  shows "w_upstream (x_after x) = w_upstream (x_before x) @ x_calls x"
proof -
  have *: "sound_env ev p" "fresh (x_request x)" "serve_request ev p Raw (x_request x) (x_before x) = (x_panic x, x_after x)"
    using assms by (simp_all add: exchange_ok_def running_def)
  from serve_request_result [OF *] obtain ups where "w_upstream (x_after x) = w_upstream (x_before x) @ ups" by metis
  then show ?thesis by (simp add: x_calls_def)
qed



section \<open>The same for a concrete request\<close>

lemma demo_calls:
  obtains conf q conf' q' where "w_upstream (snd alice_served) = w_upstream demo_world @ [UpImpersonated conf q]"
    "w_upstream (snd bob_served) = w_upstream demo_world @ [UpImpersonated conf' q']"
proof -
  have on: "\<not> DisableImpersonation (p_config demo_proxy)" by (simp add: demo_proxy_def demo_config_def)
  show thesis
    using that bob_let_impersonate alice_plain(1)
      serve_delivers_impersonated [OF demo_sound alice_fresh alice_runs alice_let_in [OF alice_plain(3)] on alice_plain(2)]
      serve_delivers_impersonated [OF demo_sound bob_fresh bob_runs alice_let_in [OF bob_plain(2)] on bob_plain(1)]
    by blast
qed

lemma in_single: "x \<in> set [x]"
  by simp


theorem client_impersonation_never_forwarded_witness:
  "hasImpersonation (Header bob_request) \<and> (\<exists>conf q. w_upstream (snd bob_served) = [UpImpersonated conf q] \<and> \<not> hasImpersonation (Header q))"
proof -
  obtain conf q where c: "w_upstream (snd bob_served) = w_upstream demo_world @ [UpImpersonated conf q]" by (rule demo_calls)
  from client_impersonation_never_forwarded [OF demo_sound bob_fresh bob_runs c in_single] c bob_plain(4) show ?thesis
    by (auto simp: demo_world_def)
qed


lemma demo_running: "running demo_env demo_proxy_env demo_proxy"
  using demo_sound by (auto simp: running_def reviews_through_def demo_proxy_def)

lemma demo_fresh_caches: "fresh_caches 10 0 demo_world"
proof -
  have "sar_cache demo_world = newDecisionCache lru_unbounded 10 10" "tr_store demo_world = newTokenCache lru_unbounded 0 0"
    by (simp_all add: demo_world_def)
  then show ?thesis
    unfolding fresh_caches_def
    by (intro conjI exI [of _ lru_unbounded] exI [of _ "10::int"] exI [of _ "0::int"] lru_unbounded_sound)
qed

lemma after_one_served: "demo_exchange r \<in> set (tf_served (after_one r))"
  by (simp add: after_one_def)


lemma carol_plain: "canonical_header (Header carol_request)" "hdr_values (Header carol_request) ''Connection'' = []"
  "arriving_header demo_proxy_env demo_proxy carol_request demo_world =
     [(''Authorization'', [''Bearer abc'']), (''Audit-Id'', [''uuid-0''])]"
  "hdr_get [(''Authorization'', [''Bearer abc'']), (''Audit-Id'', [''uuid-0''])] ''Authorization'' = ''Bearer abc''"
  by code_simp+

lemma carol_token: "ParseFromRequest [(''Authorization'', [''Bearer abc'']), (''Audit-Id'', [''uuid-0''])] = Some ''abc''"
proof -
  have "trim_space ''Bearer abc'' = ''Bearer abc''"
    by (simp add: trim_space_def rune_chunks_Cons_ascii is_space_def)
  moreover have "split_on CHR '' '' ''Bearer abc'' = [''Bearer'', ''abc'']" "to_lower ''Bearer'' = ''bearer''" by code_simp+
  ultimately show ?thesis by (simp add: ParseFromRequest_def carol_plain(4) Let_def)
qed

lemma carol_fresh: "fresh carol_request"
  using carol_plain(1) by (simp add: fresh_def carol_request_def demo_request_def)

lemma carol_reviewed:
  assumes "tr_calls s = []" "tr_store s = newTokenCache lru_unbounded 0 0"
  shows "\<exists>resp s'. NewCached demo_env demo_reviewer 10 10 rid ''abc'' s = ((resp, True, None), s')"
proof -
  obtain res s' where run: "cached_AuthenticateToken demo_env demo_reviewer rid ''abc'' s = (res, s')" by (metis surj_pair)
  obtain c where "tr_cache_Get (t_now s) (cacheKey (tr_hmac demo_env) ''abc'' (tr_audiences demo_reviewer)) (tr_store s) = (None, c)"
    using assms(2) by (simp add: tr_cache_Get_def newTokenCache_def lru_unbounded_def)
  from cached_miss(2) [OF this run] have "\<exists>resp. res = (resp, True, None)"
    using assms(1) by (simp add: tr_reply_def tr_result_def demo_env_def buildReview_def verdict_of_def)
  with run show ?thesis by (auto simp: NewCached_def)
qed

lemma carol_let_pass: "lets_pass demo_proxy_env demo_proxy carol_request demo_world"
proof -
  have on: "TokenReviewEnabled (p_config demo_proxy)" by (simp add: demo_proxy_def demo_config_def)
  have "oa_err (ev_AuthenticateRequest demo_proxy_env a s) \<noteq> None \<and>
      (\<exists>token resp s2. ParseFromRequest (oa_header (ev_AuthenticateRequest demo_proxy_env a s)) = Some token \<and>
        p_tokenReviewer demo_proxy rid token s1 = ((resp, True, None), s2))"
    if "Header a = [(''Authorization'', [''Bearer abc'']), (''Audit-Id'', [''uuid-0''])]" "backends s1 = backends demo_world" for a s s1 rid
  proof -
    have "oa_err (ev_AuthenticateRequest demo_proxy_env a s) \<noteq> None" "oa_header (ev_AuthenticateRequest demo_proxy_env a s) = Header a"
      using that(1) carol_plain(4) by (simp_all add: demo_proxy_env_def demo_answer_def Let_def)
    moreover have "\<exists>resp s2. p_tokenReviewer demo_proxy rid ''abc'' s1 = ((resp, True, None), s2)"
      using that(2) carol_reviewed [of s1 rid] by (simp add: backends_def demo_world_def demo_proxy_def)
    ultimately show ?thesis using that(1) carol_token by auto
  qed
  then show ?thesis unfolding lets_pass_def carol_plain(3) using on by blast
qed



section \<open>Request ids\<close>

lemma decode_rune_high: "s \<noteq> [] \<Longrightarrow> fst (decode_rune s) < 128 \<Longrightarrow> byte_of (hd s) < 128 \<and> snd (decode_rune s) = 1"
  by (cases s) (auto simp: decode2_def decode3_def decode4_def rune_error_def in_range_def Let_def split: list.splits if_splits)

lemma runes_low_bytes: "\<forall>r \<in> set (runes s). r < 128 \<Longrightarrow> \<forall>c \<in> set s. byte_of c < 128"
  unfolding runes_def
proof (induction s rule: rune_chunks.induct)
  case (1 s)
  show ?case
  proof (cases "s = []")
    case False
    have un: "rune_chunks s = (fst (decode_rune s), take (snd (decode_rune s)) s) # rune_chunks (drop (snd (decode_rune s)) s)"
      using False by (subst rune_chunks.simps) simp
    have "fst (decode_rune s) < 128" using 1(2) un by simp
    from decode_rune_high [OF False this] have b: "byte_of (hd s) < 128" "snd (decode_rune s) = 1" by simp_all
    have tl: "\<forall>c \<in> set (drop (snd (decode_rune s)) s). byte_of c < 128" using 1(1) [OF False] 1(2) un by simp
    have "set s = insert (hd s) (set (drop 1 s))" using False by (cases s) simp_all
    then show ?thesis using b(1) tl unfolding b(2) by simp
  qed simp
qed

lemma validRequestID_printable:
  assumes "validRequestID v = i" "i \<noteq> []"
  shows "i = v \<and> length i \<le> 64 \<and> (\<forall>c \<in> set i. 33 \<le> byte_of c \<and> byte_of c \<le> 126)"
proof -
  have v: "length v \<le> 64" "list_all request_id_rune (runes v)" "i = trim_space v"
    using assms by (auto simp: validRequestID_def maxRequestIDLen_def split: if_splits)
  have r: "r < 128 \<and> 32 < r \<and> r < 127 \<and> \<not> is_space r" if "r \<in> set (runes v)" for r
  proof -
    have "32 \<le> r \<and> r < 127 \<and> \<not> is_space r" using v(2) that by (simp add: list_all_iff request_id_rune_def is_print_ascii_def)
    moreover have "is_space 32" by (simp add: is_space_def)
    ultimately show ?thesis by (cases "r = 32") auto
  qed
  then have b: "runes v = map byte_of v" using runes_low_bytes [of v] runes_ascii by blast
  have "trim_space v = v" using r by (intro trim_space_no_space) blast
  then show ?thesis using v(1,3) r unfolding b by fastforce
qed

lemma arriving_ids:
  "hdr_values (arriving_header ev p r0 s0) ''Audit-ID'' = [request_id ev p r0 s0]"
  "hdr_values (arriving_header ev p r0 s0) ''X-Request-ID'' = []"
  by (simp_all add: arriving_header_def SanitizeForwardHeaders_other canonical_ids hdr_simps)

text \<open>
  C11. The id a call is correlated by is the client's only when a trusted proxy sent the request and the
  id is printable ASCII of at most 64 bytes; otherwise it is minted. No \<open>X-Request-Id\<close> of the client's
  reaches the API server.
\<close>

theorem request_id_is_vouched_for:
  assumes "sound_env ev p" "fresh r0" "serve_request ev p w r0 s0 = (r, s')" "w_upstream s' = w_upstream s0 @ ups" "c \<in> set ups"
  shows "let i = request_id ev p r0 s0; vals = hdr_values (Header (call_request c)) in
    vals ''Audit-ID'' \<in> {[], [i]} \<and> vals ''X-Request-ID'' = [] \<and>
    (i = ev_NewUUID ev (w_uuids s0) \<or>
     IPInNetworks (PeerHost (RemoteAddress r0)) (p_trustedProxies p) \<and>
     i \<in> {hdr_get (Header r0) ''Audit-ID'', hdr_get (Header r0) ''X-Request-ID''} \<and>
     length i \<le> 64 \<and> (\<forall>ch \<in> set i. 33 \<le> byte_of ch \<and> byte_of ch \<le> 126))"
proof -
  obtain a s where a: "arrives p r0 a" "Header a = arriving_header ev p r0 s0" "admits ev p a s s' c"
    by (rule served_call [OF assms])
  have kh: "keeps_headers ev" using assms(1) by (simp add: sound_env_def)
  obtain b where b: "carries a b c" using admitted_carries [OF a(3) kh] a(1) by (auto simp: arrives_def)
  have k: "hdr_values (Header (call_request c)) k \<in> {[], hdr_values (Header a) k}"
    if "canonical_key k \<in> {''Audit-Id'', ''X-Request-Id''}" for k
  proof -
    have "hdr_values (Header (call_request c)) k = hdr_values (Header (outgoing b)) k"
      using b that by (auto simp: carries_def plain_call_def hdr_simps hop_header_names)
    moreover have "hdr_values (Header b) k = hdr_values (Header a) k"
      by (rule carries_header [OF b]) (use that added_not_impersonation(7,8) in auto)
    ultimately show ?thesis using outgoing_values [of k b] that by auto
  qed
  have "request_id ev p r0 s0 = ev_NewUUID ev (w_uuids s0) \<or>
     IPInNetworks (PeerHost (RemoteAddress r0)) (p_trustedProxies p) \<and> request_id ev p r0 s0 \<noteq> [] \<and>
     (validRequestID (hdr_get (Header r0) ''Audit-ID'') = request_id ev p r0 s0 \<or>
      validRequestID (hdr_get (Header r0) ''X-Request-ID'') = request_id ev p r0 s0)"
    by (auto simp: request_id_def Let_def peerIsTrusted_def)
  then have "request_id ev p r0 s0 = ev_NewUUID ev (w_uuids s0) \<or>
     IPInNetworks (PeerHost (RemoteAddress r0)) (p_trustedProxies p) \<and>
     request_id ev p r0 s0 \<in> {hdr_get (Header r0) ''Audit-ID'', hdr_get (Header r0) ''X-Request-ID''} \<and>
     length (request_id ev p r0 s0) \<le> 64 \<and> (\<forall>ch \<in> set (request_id ev p r0 s0). 33 \<le> byte_of ch \<and> byte_of ch \<le> 126)"
    using validRequestID_printable [of _ "request_id ev p r0 s0"] by (elim disjE conjE) auto
  moreover have "hdr_values (Header (call_request c)) ''Audit-ID'' \<in> {[], [request_id ev p r0 s0]}"
    "hdr_values (Header (call_request c)) ''X-Request-ID'' = []"
    using k [of "''Audit-ID''"] k [of "''X-Request-ID''"] unfolding a(2) arriving_ids by (simp_all add: canonical_ids)
  ultimately show ?thesis unfolding Let_def by blast
qed

theorem request_id_is_vouched_for_witness:
  "\<exists>c. w_upstream (snd alice_served) = [c] \<and> hdr_values (Header (call_request c)) ''Audit-ID'' \<in> {[], [''uuid-0'']}"
proof -
  obtain conf q where c: "w_upstream (snd alice_served) = w_upstream demo_world @ [UpImpersonated conf q]" by (rule demo_calls)
  have "request_id demo_proxy_env demo_proxy alice_request demo_world = ''uuid-0''" by code_simp
  with request_id_is_vouched_for [OF demo_sound alice_fresh alice_runs c in_single] c show ?thesis
    unfolding Let_def by (auto simp: demo_world_def)
qed

lemma hop_names_canonical: "list_all (\<lambda>n. canonical_key n \<noteq> ''X-Forwarded-For'') hopHeaders"
  by code_simp

section \<open>Where the code falls short of its comments\<close>



text \<open>
  C40. Forwarding headers are sanitised by looking at the first value only. When it is empty, the request
  is passed on as it came, and the values after it, which no trusted proxy vouched for, are sent to
  the API server ahead of the peer's address.
\<close>

theorem empty_first_value_evades_sanitising:
  assumes "hdr_values (Header r0) ''X-Forwarded-For'' = [] # vs" "hdr_get (Header r0) ''X-Real-Ip'' = []"
    and "hdr_values (Header r0) ''Connection'' = []" "split_host_port (RemoteAddress r0) = Some (peer, port)"
  shows "SanitizeForwardHeaders tr r0 = r0 \<and>
    hdr_values (Header (outgoing r0)) ''X-Forwarded-For'' = [join_with '', '' ([] # vs) @ '', '' @ peer]"
proof -
  have "forwardedFor (Header r0) = []" using assms(1) by (simp add: forwardedFor_def hdr_get_def)
  then have "SanitizeForwardHeaders tr r0 = r0" using assms(2) by (simp add: SanitizeForwardHeaders_def Let_def)
  moreover have "hdr_values (hop_headers (Header r0)) ''X-Forwarded-For'' = [] # vs"
  proof -
    have "canonical_key n \<noteq> ''X-Forwarded-For''" if "n \<in> set hopHeaders" for n
      using that hop_names_canonical by (simp add: list_all_iff)
    then have "hdr_values (fold (\<lambda>n h. hdr_del h n) ns h) ''X-Forwarded-For'' = hdr_values h ''X-Forwarded-For''"
      if "set ns \<subseteq> set hopHeaders" for ns h
      using that by (induction ns arbitrary: h) (force simp: hdr_simps canonical_xff)+
    then show ?thesis
      using assms(1,3) by (simp add: hop_headers_def removeHopByHopHeaders_def connection_names_def upgradeType_def has_token_def
          Let_def hdr_simps canonical_xff hop_header_names)
  qed
  ultimately show ?thesis
    by (simp add: Header_outgoing Let_def appendForwardedFor_def assms(4) hdr_simps hop_header_names canonical_xff)
qed

theorem empty_first_value_evades_sanitising_witness:
  "SanitizeForwardHeaders [] (demo_request [(''X-Forwarded-For'', [[], ''10.0.0.1''])]) =
     demo_request [(''X-Forwarded-For'', [[], ''10.0.0.1''])] \<and>
   hdr_values (Header (outgoing (demo_request [(''X-Forwarded-For'', [[], ''10.0.0.1''])]))) ''X-Forwarded-For'' =
     ['', 10.0.0.1, 192.0.2.7'']"
proof -
  let ?r = "demo_request [(''X-Forwarded-For'', [[], ''10.0.0.1''])]"
  have "hdr_values (Header ?r) ''X-Forwarded-For'' = [] # [''10.0.0.1'']" "hdr_get (Header ?r) ''X-Real-Ip'' = []"
    "hdr_values (Header ?r) ''Connection'' = []" "split_host_port (RemoteAddress ?r) = Some (''192.0.2.7'', ''443'')"
    by code_simp+
  from empty_first_value_evades_sanitising [OF this, of "[]"] show ?thesis by simp
qed

end
